theory Spec2Isabelle
  imports Main "HOL-Library.Word"
begin

section \<open>Errors\<close>

text \<open>
  A Go \<open>error\<close> is modelled by the way it was built. \<open>StatusError\<close> is an API error of
  the object store with its reason (\<open>errors.NewNotFound\<close>, \<open>errors.NewConflict\<close>,
  \<open>errors.NewAlreadyExists\<close>, anything else) and message; \<open>ErrorsNew\<close> is
  \<open>errors.New(msg)\<close>; \<open>Errorf p e s\<close> is \<open>fmt.Errorf\<close> with one \<open>%w\<close> verb, the
  text \<open>p\<close> before it and the text \<open>s\<close> after it. \<open>Error\<close> is the method
  \<open>Error()\<close>, the string an operator reads.
\<close>

datatype StatusReason =
    StatusReasonUnknown
  | StatusReasonNotFound
  | StatusReasonAlreadyExists
  | StatusReasonConflict

datatype error =
    StatusError StatusReason string
  | ErrorsNew string
  | Errorf string error string

fun Error :: "error \<Rightarrow> string" where
  "Error (StatusError r m) = m"
| "Error (ErrorsNew m) = m"
| "Error (Errorf p e s) = p @ Error e @ s"

text \<open>\<open>apierrors.ReasonForError\<close> looks through the \<open>%w\<close> chain (\<open>errors.As\<close>).\<close>

fun ReasonForError :: "error \<Rightarrow> StatusReason" where
  "ReasonForError (StatusError r m) = r"
| "ReasonForError (ErrorsNew m) = StatusReasonUnknown"
| "ReasonForError (Errorf p e s) = ReasonForError e"

definition IsNotFound :: "error \<Rightarrow> bool" where
  "IsNotFound e = (ReasonForError e = StatusReasonNotFound)"

text \<open>\<open>client.IgnoreNotFound\<close>: \<open>nil\<close> for \<open>nil\<close> and for a not-found error.\<close>

definition IgnoreNotFound :: "error option \<Rightarrow> error option" where
  "IgnoreNotFound err =
     (case err of None \<Rightarrow> None
      | Some e \<Rightarrow> if IsNotFound e then None else Some e)"

definition ErrInvalidStrategy :: error where
  "ErrInvalidStrategy = ErrorsNew ''invalid strategy''"

section \<open>Objects\<close>

datatype NamespacedName = NamespacedName string string
  \<comment> \<open>\<open>types.NamespacedName{Namespace, Name}\<close>, also \<open>client.ObjectKey\<close>\<close>

text \<open>
  \<open>metav1.ObjectMeta\<close>, the fields this code reads or writes. A \<open>metav1.Time\<close> is an
  integer, \<open>0\<close> standing for Go's zero time; \<open>DeletionTimestamp\<close> is a pointer, so
  \<open>None\<close> is \<open>nil\<close>. An object of any kind (\<open>client.Object\<close>) is a record that extends
  \<open>ObjectMeta\<close>, as the Go structs embed it.
\<close>

record ObjectMeta =
  Name :: string
  Namespace :: string
  ResourceVersion :: string
  Generation :: "64 word"
  DeletionTimestamp :: "int option"
  Labels :: "string \<rightharpoonup> string"
  Finalizers :: "string list"

definition ObjectKeyFromObject :: "'a ObjectMeta_scheme \<Rightarrow> NamespacedName" where
  "ObjectKeyFromObject obj = NamespacedName (Namespace obj) (Name obj)"

text \<open>\<open>(*metav1.Time).IsZero\<close>: a nil pointer and the zero time are zero.\<close>

definition IsZero :: "int option \<Rightarrow> bool" where
  "IsZero t = (case t of None \<Rightarrow> True | Some v \<Rightarrow> v = 0)"

section \<open>JSON patches and the store's call log\<close>

datatype json =
    JString string
  | JArray "json list"
  | JObject "(string \<times> json) list"

text \<open>
  \<open>json.Marshal\<close> of a map that holds only strings and string slices cannot fail; its
  payload is kept as the tree it encodes. The error result stays in the type, so that the
  callers keep their error branch.
\<close>

definition json_Marshal :: "json \<Rightarrow> error + json" where
  "json_Marshal v = Inr v"

definition json_field :: "string \<Rightarrow> json \<Rightarrow> json option" where
  "json_field k v = (case v of JObject kvs \<Rightarrow> map_of kvs k | _ \<Rightarrow> None)"

text \<open>
  Every call that leaves the process (object store, cache, owner strategy) is appended to
  a log together with the error it returned (\<open>None\<close> for \<open>nil\<close>), so that "no call was
  made" and "this call came before that one" are statements about the log. \<open>World\<close>
  is whatever the store, the cache and the clock keep; the calls themselves are arbitrary
  functions on it, passed in as parameters.
\<close>

datatype Reader = DynamicCacheReader | UncachedClientReader

datatype Call =
    FreeCall NamespacedName
  | PatchCall NamespacedName json
  | ApplyCall NamespacedName
  | DeleteCall NamespacedName
  | GetCall Reader NamespacedName
  | ListCall string
  | WatchCall NamespacedName NamespacedName
  | EnsureDynamicCacheLabelCall NamespacedName
  | RemoveDynamicCacheLabelCall NamespacedName
  | SetControllerReferenceCall NamespacedName NamespacedName

record 'w Cluster =
  Calls :: "(Call \<times> error option) list"
  World :: 'w

definition logged :: "Call \<Rightarrow> error option \<Rightarrow> 'w \<Rightarrow> 'w Cluster \<Rightarrow> 'w Cluster" where
  "logged c r w s = \<lparr>Calls = Calls s @ [(c, r)], World = w\<rparr>"

type_synonym ('o, 'w) patch_fn = "'o \<Rightarrow> json \<Rightarrow> 'w \<Rightarrow> (error option \<times> 'o) \<times> 'w"
type_synonym ('o, 'w) free_fn = "'o \<Rightarrow> 'w \<Rightarrow> error option \<times> 'w"

text \<open>
  \<open>c.Patch(ctx, obj, client.RawPatch(types.MergePatchType, patchJSON))\<close>: the client
  answers with an error or not and leaves the object as the server returned it.
\<close>

definition c_Patch ::
  "('a ObjectMeta_scheme, 'w) patch_fn \<Rightarrow> 'a ObjectMeta_scheme \<Rightarrow> json \<Rightarrow> 'w Cluster
     \<Rightarrow> (error option \<times> 'a ObjectMeta_scheme) \<times> 'w Cluster" where
  "c_Patch c obj patchJSON s =
     (case c obj patchJSON (World s) of
        (r, w) \<Rightarrow> (r, logged (PatchCall (ObjectKeyFromObject obj) patchJSON) (fst r) w s))"

definition cache_Free ::
  "('a ObjectMeta_scheme, 'w) free_fn \<Rightarrow> 'a ObjectMeta_scheme \<Rightarrow> 'w Cluster
     \<Rightarrow> error option \<times> 'w Cluster" where
  "cache_Free cache obj s =
     (case cache obj (World s) of
        (r, w) \<Rightarrow> (r, logged (FreeCall (ObjectKeyFromObject obj)) r w s))"

section \<open>Finalizers (internal/controllers/controllers.go)\<close>

definition DynamicCacheLabel :: string where
  "DynamicCacheLabel = ''package-operator.run/cache''"

definition CachedFinalizer :: string where
  "CachedFinalizer = ''package-operator.run/cached''"

text \<open>
  The three helpers of \<open>controllerutil\<close> (controller-runtime, a dependency):
  \<open>ContainsFinalizer\<close> tests membership, \<open>AddFinalizer\<close> appends when absent,
  \<open>RemoveFinalizer\<close> drops every occurrence.
\<close>

definition ContainsFinalizer :: "'a ObjectMeta_scheme \<Rightarrow> string \<Rightarrow> bool" where
  "ContainsFinalizer obj finalizer = (finalizer \<in> set (Finalizers obj))"

definition AddFinalizer :: "'a ObjectMeta_scheme \<Rightarrow> string \<Rightarrow> 'a ObjectMeta_scheme" where
  "AddFinalizer obj finalizer =
     (if finalizer \<in> set (Finalizers obj) then obj
      else obj\<lparr>Finalizers := Finalizers obj @ [finalizer]\<rparr>)"

definition controllerutil_RemoveFinalizer ::
  "'a ObjectMeta_scheme \<Rightarrow> string \<Rightarrow> 'a ObjectMeta_scheme" where
  "controllerutil_RemoveFinalizer obj finalizer =
     obj\<lparr>Finalizers := filter (\<lambda>f. f \<noteq> finalizer) (Finalizers obj)\<rparr>"

text \<open>The patch both functions build: resourceVersion and finalizers under metadata.\<close>

definition finalizerPatch :: "'a ObjectMeta_scheme \<Rightarrow> json" where
  "finalizerPatch obj =
     JObject [(''metadata'', JObject
       [(''resourceVersion'', JString (ResourceVersion obj)),
        (''finalizers'', JArray (map JString (Finalizers obj)))])]"

definition EnsureFinalizer ::
  "('a ObjectMeta_scheme, 'w) patch_fn \<Rightarrow> 'a ObjectMeta_scheme \<Rightarrow> string \<Rightarrow> 'w Cluster
     \<Rightarrow> (error option \<times> 'a ObjectMeta_scheme) \<times> 'w Cluster" where
  "EnsureFinalizer c obj finalizer s =
     (if ContainsFinalizer obj finalizer then ((None, obj), s)
      else
        let obj1 = AddFinalizer obj finalizer;
            patch = finalizerPatch obj1
        in case json_Marshal patch of
             Inl err \<Rightarrow>
               ((Some (Errorf ''marshalling patch to remove finalizer: '' err ''''), obj1), s)
           | Inr patchJSON \<Rightarrow>
               (case c_Patch c obj1 patchJSON s of
                  ((Some err, obj2), s') \<Rightarrow>
                    ((Some (Errorf ''adding finalizer: '' err ''''), obj2), s')
                | ((None, obj2), s') \<Rightarrow> ((None, obj2), s')))"

definition RemoveFinalizer ::
  "('a ObjectMeta_scheme, 'w) patch_fn \<Rightarrow> 'a ObjectMeta_scheme \<Rightarrow> string \<Rightarrow> 'w Cluster
     \<Rightarrow> (error option \<times> 'a ObjectMeta_scheme) \<times> 'w Cluster" where
  "RemoveFinalizer c obj finalizer s =
     (if \<not> ContainsFinalizer obj finalizer then ((None, obj), s)
      else
        let obj1 = controllerutil_RemoveFinalizer obj finalizer;
            patch = finalizerPatch obj1
        in case json_Marshal patch of
             Inl err \<Rightarrow>
               ((Some (Errorf ''marshalling patch to remove finalizer: '' err ''''), obj1), s)
           | Inr patchJSON \<Rightarrow>
               (case c_Patch c obj1 patchJSON s of
                  ((Some err, obj2), s') \<Rightarrow>
                    ((Some (Errorf ''removing finalizer: '' err ''''), obj2), s')
                | ((None, obj2), s') \<Rightarrow> ((None, obj2), s')))"

definition EnsureCachedFinalizer ::
  "('a ObjectMeta_scheme, 'w) patch_fn \<Rightarrow> 'a ObjectMeta_scheme \<Rightarrow> 'w Cluster
     \<Rightarrow> (error option \<times> 'a ObjectMeta_scheme) \<times> 'w Cluster" where
  "EnsureCachedFinalizer c obj s = EnsureFinalizer c obj CachedFinalizer s"

definition FreeCacheAndRemoveFinalizer ::
  "('a ObjectMeta_scheme, 'w) patch_fn \<Rightarrow> 'a ObjectMeta_scheme
     \<Rightarrow> ('a ObjectMeta_scheme, 'w) free_fn \<Rightarrow> 'w Cluster
     \<Rightarrow> (error option \<times> 'a ObjectMeta_scheme) \<times> 'w Cluster" where
  "FreeCacheAndRemoveFinalizer c obj cache s =
     (case cache_Free cache obj s of
        (Some err, s') \<Rightarrow> ((Some (Errorf ''free cache: '' err ''''), obj), s')
      | (None, s') \<Rightarrow> RemoveFinalizer c obj CachedFinalizer s')"

subsection \<open>GetControllerOf (internal/controllers/controllers.go)\<close>

text \<open>
  \<open>GetControllerOf\<close>, lines 111 to 133. \<open>ownerStrategy.IsController\<close> and
  \<open>apiutil.GVKForObject\<close> (controller-runtime) are parameters; an object is its metadata.
  The fields of \<open>schema.GroupVersionKind\<close> and \<open>ControlledObjectReference\<close> carry a
  prefix, since \<open>Kind\<close>, \<open>Name\<close> and \<open>Namespace\<close> are fields of other records here. The
  loop returns the error of \<open>GVKForObject\<close> as it is (\<open>return nil, err\<close>).
\<close>

record GroupVersionKind =
  gvkGroup :: string
  gvkVersion :: string
  gvkKind :: string

record ControlledObjectReference =
  refKind :: string
  refGroup :: string
  refName :: string
  refNamespace :: string

fun GetControllerOf_loop ::
  "('a ObjectMeta_scheme \<Rightarrow> 'sch \<Rightarrow> error + GroupVersionKind) \<Rightarrow> 'sch
     \<Rightarrow> ('o \<Rightarrow> 'a ObjectMeta_scheme \<Rightarrow> bool) \<Rightarrow> 'o \<Rightarrow> 'a ObjectMeta_scheme list
     \<Rightarrow> ControlledObjectReference list \<Rightarrow> error + ControlledObjectReference list" where
  "GetControllerOf_loop GVKForObject scheme IsController owner [] controllerOf =
     Inr controllerOf"
| "GetControllerOf_loop GVKForObject scheme IsController owner (actualObj # rest) controllerOf =
     (if \<not> IsController owner actualObj
      then GetControllerOf_loop GVKForObject scheme IsController owner rest controllerOf
      else (case GVKForObject actualObj scheme of
              Inl err \<Rightarrow> Inl err
            | Inr gvk \<Rightarrow>
                GetControllerOf_loop GVKForObject scheme IsController owner rest
                  (controllerOf @
                     [\<lparr>refKind = gvkKind gvk, refGroup = gvkGroup gvk,
                       refName = Name actualObj, refNamespace = Namespace actualObj\<rparr>])))"

definition GetControllerOf ::
  "('a ObjectMeta_scheme \<Rightarrow> 'sch \<Rightarrow> error + GroupVersionKind) \<Rightarrow> 'sch
     \<Rightarrow> ('o \<Rightarrow> 'a ObjectMeta_scheme \<Rightarrow> bool) \<Rightarrow> 'o \<Rightarrow> 'a ObjectMeta_scheme list
     \<Rightarrow> error + ControlledObjectReference list" where
  "GetControllerOf GVKForObject scheme IsController owner actualObjects =
     GetControllerOf_loop GVKForObject scheme IsController owner actualObjects []"

section \<open>Status conditions\<close>

text \<open>
  \<open>metav1.Condition\<close>. \<open>Status\<close> is the string type \<open>metav1.ConditionStatus\<close>;
  \<open>LastTransitionTime\<close> is a time, \<open>0\<close> the zero time.
\<close>

record Condition =
  Type :: string
  Status :: string
  ObservedGeneration :: "64 word"
  LastTransitionTime :: int
  Reason :: string
  Message :: string

definition ConditionTrue :: string where
  "ConditionTrue = ''True''"

definition ConditionFalse :: string where
  "ConditionFalse = ''False''"

text \<open>
  \<open>meta.FindStatusCondition\<close> and \<open>meta.SetStatusCondition\<close> (apimachinery, a
  dependency). The first returns a pointer to the first condition of the given type.
  The second appends the new condition when there is none of its type, stamping a zero
  \<open>LastTransitionTime\<close> with \<open>time.Now()\<close>; otherwise it writes status, reason, message
  and observed generation through the pointer, stamps the transition time when the status
  changes, and reports whether anything changed. \<open>writeFirst\<close> is the write through the
  pointer. The clock is a step \<open>now\<close> on the world. The pointer to the slice is taken
  to be non-nil: the callers pass the address of a field.
\<close>

definition FindStatusCondition :: "Condition list \<Rightarrow> string \<Rightarrow> Condition option" where
  "FindStatusCondition conditions conditionType =
     find (\<lambda>c. Type c = conditionType) conditions"

fun writeFirst :: "string \<Rightarrow> Condition \<Rightarrow> Condition list \<Rightarrow> Condition list" where
  "writeFirst t v [] = []"
| "writeFirst t v (c # cs) = (if Type c = t then v # cs else c # writeFirst t v cs)"

definition SetStatusCondition ::
  "('c \<Rightarrow> int \<times> 'c) \<Rightarrow> Condition list \<Rightarrow> Condition \<Rightarrow> 'c
     \<Rightarrow> (bool \<times> Condition list) \<times> 'c" where
  "SetStatusCondition now conditions newCondition clk =
     (case FindStatusCondition conditions (Type newCondition) of
        None \<Rightarrow>
          (if LastTransitionTime newCondition = 0
           then (case now clk of
                   (t, clk') \<Rightarrow>
                     ((True, conditions @ [newCondition\<lparr>LastTransitionTime := t\<rparr>]), clk'))
           else ((True, conditions @ [newCondition]), clk))
      | Some existingCondition \<Rightarrow>
          (case (if Status existingCondition \<noteq> Status newCondition
                 then (if LastTransitionTime newCondition \<noteq> 0
                       then (existingCondition
                               \<lparr>Status := Status newCondition,
                                LastTransitionTime := LastTransitionTime newCondition\<rparr>,
                             clk)
                       else (case now clk of
                               (t, clk') \<Rightarrow>
                                 (existingCondition
                                    \<lparr>Status := Status newCondition,
                                     LastTransitionTime := t\<rparr>,
                                  clk')))
                 else (existingCondition, clk)) of
             (e1, clk1) \<Rightarrow>
               let changed =
                     (Status existingCondition \<noteq> Status newCondition
                      \<or> Reason existingCondition \<noteq> Reason newCondition
                      \<or> Message existingCondition \<noteq> Message newCondition
                      \<or> ObservedGeneration existingCondition
                           \<noteq> ObservedGeneration newCondition);
                   e2 = e1\<lparr>Reason := Reason newCondition,
                           Message := Message newCondition,
                           ObservedGeneration := ObservedGeneration newCondition\<rparr>
               in ((changed, writeFirst (Type newCondition) e2 conditions), clk1)))"

subsection \<open>Mapped conditions (internal/controllers/controllers.go)\<close>

text \<open>\<open>strings.Contains(cond.Type, "/")\<close>: the one-character string occurs.\<close>

definition IsMappedCondition :: "Condition \<Rightarrow> bool" where
  "IsMappedCondition cond = (CHR ''/'' \<in> set (Type cond))"

text \<open>The literal \<open>MapConditions\<close> hands to \<open>SetStatusCondition\<close>.\<close>

definition mappedCondition :: "64 word \<Rightarrow> Condition \<Rightarrow> Condition" where
  "mappedCondition destGeneration condition =
     \<lparr>Type = Type condition,
      Status = Status condition,
      ObservedGeneration = destGeneration,
      LastTransitionTime = 0,
      Reason = Reason condition,
      Message = Message condition\<rparr>"

fun MapConditions ::
  "('c \<Rightarrow> int \<times> 'c) \<Rightarrow> 64 word \<Rightarrow> Condition list \<Rightarrow> 64 word \<Rightarrow> Condition list \<Rightarrow> 'c
     \<Rightarrow> Condition list \<times> 'c" where
  "MapConditions now srcGeneration [] destGeneration destConditions clk =
     (destConditions, clk)"
| "MapConditions now srcGeneration (condition # rest) destGeneration destConditions clk =
     (if ObservedGeneration condition \<noteq> srcGeneration
      then MapConditions now srcGeneration rest destGeneration destConditions clk
      else if \<not> IsMappedCondition condition
      then MapConditions now srcGeneration rest destGeneration destConditions clk
      else (case SetStatusCondition now destConditions
                   (mappedCondition destGeneration condition) clk of
              ((changed, destConditions'), clk') \<Rightarrow>
                MapConditions now srcGeneration rest destGeneration destConditions' clk'))"

section \<open>SecretSync (internal/controllers/secretsync/reconcilers.go)\<close>

text \<open>
  The API types of \<open>apis/core/v1alpha1\<close> and \<open>k8s.io/api/core/v1\<close>, with the fields
  the reconcilers touch. The strategy holds two pointers; \<open>Poll\<close> carries its interval.
  \<open>ControllerOf\<close> is a slice that the code compares with \<open>reflect.DeepEqual\<close>, which
  tells a nil slice from an empty one, so \<open>None\<close> is the nil slice. The field \<open>Type\<close> of
  a Secret is written \<open>SecretType\<close>, the field \<open>Status\<close> of a SecretSync
  \<open>SyncStatus\<close>.
\<close>

record SecretSyncStrategy =
  Poll :: "int option"
  Watch :: "unit option"

record SecretSyncSpec =
  Paused :: bool
  Strategy :: SecretSyncStrategy
  Src :: NamespacedName
  Dest :: "NamespacedName list"

record SecretSyncStatus =
  Conditions :: "Condition list"
  Phase :: string
  ControllerOf :: "NamespacedName list option"

record SecretSync = ObjectMeta +
  Spec :: SecretSyncSpec
  SyncStatus :: SecretSyncStatus

record TypeMeta =
  APIVersion :: string
  Kind :: string

record Secret = ObjectMeta +
  SecretTypeMeta :: TypeMeta
  Immutable :: "bool option"
  Data :: "(string \<times> string) list"
  StringData :: "(string \<times> string) list"
  SecretType :: string

record reconcileResult =
  statusChanged :: bool

text \<open>A call either returns or panics.\<close>

datatype 'a outcome = Return 'a | Panic error

text \<open>
  String constants of packages that are not part of these sources
  (\<open>v1alpha1.SecretSyncSync\<close>, \<open>v1alpha1.SecretSyncPaused\<close>, the two phases,
  \<open>constants.DynamicCacheLabel\<close>): parameters.
\<close>

record Constants =
  SecretSyncSync :: string
  SecretSyncPaused :: string
  SecretSyncStatusPhaseSync :: string
  SecretSyncStatusPhasePaused :: string
  constants_DynamicCacheLabel :: string

text \<open>
  What a reconciler holds: the client, the uncached client, the owner strategy and the
  dynamic cache, each call a function on the world; the two label helpers of package
  \<open>objecthandling\<close>, whose bodies are not part of these sources; and the clock.
\<close>

record 'w Deps =
  constants :: Constants
  client_Patch :: "(SecretSync, 'w) patch_fn"
  client_Apply :: "Secret \<Rightarrow> 'w \<Rightarrow> error option \<times> 'w"
  client_Delete :: "Secret \<Rightarrow> 'w \<Rightarrow> error option \<times> 'w"
  uncachedClient_Get :: "NamespacedName \<Rightarrow> 'w \<Rightarrow> (error + Secret) \<times> 'w"
  dynamicCache_Get :: "NamespacedName \<Rightarrow> 'w \<Rightarrow> (error + Secret) \<times> 'w"
  dynamicCache_List :: "string \<Rightarrow> string \<Rightarrow> 'w \<Rightarrow> (error + Secret list) \<times> 'w"
  dynamicCache_Watch :: "SecretSync \<Rightarrow> Secret \<Rightarrow> 'w \<Rightarrow> error option \<times> 'w"
  dynamicCache_Free :: "(SecretSync, 'w) free_fn"
  ownerStrategy_SetControllerReference ::
    "SecretSync \<Rightarrow> Secret \<Rightarrow> 'w \<Rightarrow> (error + Secret) \<times> 'w"
  objecthandling_EnsureDynamicCacheLabel :: "Secret \<Rightarrow> 'w \<Rightarrow> error option \<times> 'w"
  objecthandling_RemoveDynamicCacheLabel :: "Secret \<Rightarrow> 'w \<Rightarrow> error option \<times> 'w"
  time_Now :: "'w \<Rightarrow> int \<times> 'w"

text \<open>A call that returns only an error, and one that returns a value or an error.\<close>

definition call ::
  "Call \<Rightarrow> ('w \<Rightarrow> error option \<times> 'w) \<Rightarrow> 'w Cluster \<Rightarrow> error option \<times> 'w Cluster" where
  "call c f s = (case f (World s) of (r, w) \<Rightarrow> (r, logged c r w s))"

definition errorOf :: "error + 'a \<Rightarrow> error option" where
  "errorOf r = (case r of Inl e \<Rightarrow> Some e | Inr v \<Rightarrow> None)"

definition callv ::
  "Call \<Rightarrow> ('w \<Rightarrow> (error + 'a) \<times> 'w) \<Rightarrow> 'w Cluster \<Rightarrow> (error + 'a) \<times> 'w Cluster" where
  "callv c f s = (case f (World s) of (r, w) \<Rightarrow> (r, logged c (errorOf r) w s))"

definition ManagedByLabel :: string where
  "ManagedByLabel = ''package-operator.run/managed-by-secretsync''"

definition makeCoreV1SecretTypeMeta :: TypeMeta where
  "makeCoreV1SecretTypeMeta = \<lparr>APIVersion = ''v1'', Kind = ''Secret''\<rparr>"

text \<open>\<open>v1.Secret{}\<close>: every field at its zero value.\<close>

definition emptySecret :: Secret where
  "emptySecret =
     \<lparr>Name = [], Namespace = [], ResourceVersion = [], Generation = 0,
      DeletionTimestamp = None, Labels = Map.empty, Finalizers = [],
      SecretTypeMeta = \<lparr>APIVersion = [], Kind = []\<rparr>,
      Immutable = None, Data = [], StringData = [], SecretType = []\<rparr>"

text \<open>
  The literal \<open>&v1.Secret{TypeMeta: makeCoreV1SecretTypeMeta(), ObjectMeta:
  metav1.ObjectMeta{Name: ..., Namespace: ...}}\<close> that names the source secret.
\<close>

definition sourceSecretRef :: "SecretSync \<Rightarrow> Secret" where
  "sourceSecretRef secretSync =
     (case Src (Spec secretSync) of
        NamespacedName ns n \<Rightarrow>
          emptySecret\<lparr>Name := n, Namespace := ns,
                      SecretTypeMeta := makeCoreV1SecretTypeMeta\<rparr>)"

subsection \<open>deletionReconciler\<close>

definition deletionReconciler_Reconcile ::
  "'w Deps \<Rightarrow> SecretSync \<Rightarrow> 'w Cluster
     \<Rightarrow> ((reconcileResult \<times> error option) \<times> SecretSync) \<times> 'w Cluster" where
  "deletionReconciler_Reconcile r secretSync s =
     (if IsZero (DeletionTimestamp secretSync)
      then (((\<lparr>statusChanged = False\<rparr>, None), secretSync), s)
      else if Poll (Strategy (Spec secretSync)) \<noteq> None
      then (((\<lparr>statusChanged = False\<rparr>, None), secretSync), s)
      else if Watch (Strategy (Spec secretSync)) \<noteq> None
      then
        (case call (RemoveDynamicCacheLabelCall (Src (Spec secretSync)))
                (objecthandling_RemoveDynamicCacheLabel r (sourceSecretRef secretSync)) s of
           (err, s1) \<Rightarrow>
             (case IgnoreNotFound err of
                Some e \<Rightarrow>
                  (((\<lparr>statusChanged = False\<rparr>,
                     Some (Errorf ''remove cache label from source secret: '' e [])),
                    secretSync), s1)
              | None \<Rightarrow>
                  (case FreeCacheAndRemoveFinalizer (client_Patch r) secretSync
                          (dynamicCache_Free r) s1 of
                     ((Some err2, secretSync2), s2) \<Rightarrow>
                       (((\<lparr>statusChanged = False\<rparr>,
                          Some (Errorf ''free cache and remove finalizer: '' err2 [])),
                         secretSync2), s2)
                   | ((None, secretSync2), s2) \<Rightarrow>
                       (((\<lparr>statusChanged = False\<rparr>, None), secretSync2), s2))))
      else (((\<lparr>statusChanged = False\<rparr>,
              Some (Errorf [] ErrInvalidStrategy '': strategy not implemented'')),
             secretSync), s))"

subsection \<open>secretReconciler\<close>

definition srcReaderForStrategy :: "SecretSyncStrategy \<Rightarrow> Reader outcome" where
  "srcReaderForStrategy strategy =
     (if Watch strategy \<noteq> None then Return DynamicCacheReader
      else if Poll strategy \<noteq> None then Return UncachedClientReader
      else Panic ErrInvalidStrategy)"

definition reader_Get ::
  "'w Deps \<Rightarrow> Reader \<Rightarrow> NamespacedName \<Rightarrow> 'w Cluster \<Rightarrow> (error + Secret) \<times> 'w Cluster" where
  "reader_Get r reader key s =
     (case reader of
        DynamicCacheReader \<Rightarrow> callv (GetCall DynamicCacheReader key) (dynamicCache_Get r key) s
      | UncachedClientReader \<Rightarrow>
          callv (GetCall UncachedClientReader key) (uncachedClient_Get r key) s)"

text \<open>Lines 103 to 130: finalizer, cache label and watch of the source secret.\<close>

definition watchSource ::
  "'w Deps \<Rightarrow> SecretSync \<Rightarrow> 'w Cluster \<Rightarrow> (error option \<times> SecretSync) \<times> 'w Cluster" where
  "watchSource r secretSync s =
     (if Watch (Strategy (Spec secretSync)) \<noteq> None
      then
        (case EnsureCachedFinalizer (client_Patch r) secretSync s of
           ((Some err, secretSync1), s1) \<Rightarrow>
             ((Some (Errorf ''adding cached finalizer: '' err []), secretSync1), s1)
         | ((None, secretSync1), s1) \<Rightarrow>
             (case call (EnsureDynamicCacheLabelCall (Src (Spec secretSync1)))
                     (objecthandling_EnsureDynamicCacheLabel r (sourceSecretRef secretSync1))
                     s1 of
                (Some err, s2) \<Rightarrow>
                  ((Some (Errorf ''adding dynamic cache label: '' err []), secretSync1), s2)
              | (None, s2) \<Rightarrow>
                  (case call (WatchCall (ObjectKeyFromObject secretSync1)
                                (Src (Spec secretSync1)))
                          (dynamicCache_Watch r secretSync1 (sourceSecretRef secretSync1))
                          s2 of
                     (Some err, s3) \<Rightarrow>
                       ((Some (Errorf ''watching source secret: '' err []), secretSync1), s3)
                   | (None, s3) \<Rightarrow> ((None, secretSync1), s3))))
      else ((None, secretSync), s))"

text \<open>
  Lines 146 to 160: the copy of the source secret with fresh type and object metadata.
\<close>

definition targetObjectFor :: "Constants \<Rightarrow> SecretSync \<Rightarrow> Secret \<Rightarrow> NamespacedName \<Rightarrow> Secret" where
  "targetObjectFor k secretSync srcSecret dest =
     (case dest of
        NamespacedName ns n \<Rightarrow>
          srcSecret
            \<lparr>Name := n, Namespace := ns, ResourceVersion := [], Generation := 0,
             DeletionTimestamp := None,
             Labels := [constants_DynamicCacheLabel k \<mapsto> ''True'',
                        ManagedByLabel \<mapsto> Name secretSync],
             Finalizers := [],
             SecretTypeMeta := \<lparr>APIVersion = ''v1'', Kind = ''Secret''\<rparr>\<rparr>)"

text \<open>The loop over \<open>secretSync.Spec.Dest\<close>, lines 145 to 185.\<close>

fun syncDest ::
  "'w Deps \<Rightarrow> SecretSync \<Rightarrow> Secret \<Rightarrow> NamespacedName list
     \<Rightarrow> NamespacedName list \<Rightarrow> NamespacedName set \<Rightarrow> 'w Cluster
     \<Rightarrow> (error + NamespacedName list \<times> NamespacedName set) \<times> 'w Cluster" where
  "syncDest r secretSync srcSecret [] controllerOf controllerOfLUT s =
     (Inr (controllerOf, controllerOfLUT), s)"
| "syncDest r secretSync srcSecret (dest # rest) controllerOf controllerOfLUT s =
     (let targetObject = targetObjectFor (constants r) secretSync srcSecret dest in
      case call (WatchCall (ObjectKeyFromObject secretSync) dest)
             (dynamicCache_Watch r secretSync targetObject) s of
        (Some err, s1) \<Rightarrow> (Inl (Errorf ''watching new resource: '' err []), s1)
      | (None, s1) \<Rightarrow>
          (case callv (SetControllerReferenceCall (ObjectKeyFromObject secretSync) dest)
                  (ownerStrategy_SetControllerReference r secretSync targetObject) s1 of
             (Inl err, s2) \<Rightarrow> (Inl (Errorf ''setting controller reference: '' err []), s2)
           | (Inr targetObject2, s2) \<Rightarrow>
               (case call (ApplyCall dest) (client_Apply r targetObject2) s2 of
                  (Some err, s3) \<Rightarrow>
                    (Inl (Errorf ''patching destination secret: '' err []), s3)
                | (None, s3) \<Rightarrow>
                    syncDest r secretSync srcSecret rest
                      (controllerOf @ [dest]) (insert dest controllerOfLUT) s3)))"

text \<open>The loop over the listed managed secrets, lines 196 to 214.\<close>

fun deleteUnmanaged ::
  "'w Deps \<Rightarrow> NamespacedName set \<Rightarrow> Secret list \<Rightarrow> 'w Cluster
     \<Rightarrow> error option \<times> 'w Cluster" where
  "deleteUnmanaged r controllerOfLUT [] s = (None, s)"
| "deleteUnmanaged r controllerOfLUT (managedSecret # rest) s =
     (if ObjectKeyFromObject managedSecret \<in> controllerOfLUT
      then deleteUnmanaged r controllerOfLUT rest s
      else
        (case call (DeleteCall (ObjectKeyFromObject managedSecret))
                (client_Delete r
                   (emptySecret\<lparr>Name := Name managedSecret,
                                Namespace := Namespace managedSecret\<rparr>)) s of
           (err, s1) \<Rightarrow>
             (case IgnoreNotFound err of
                Some e \<Rightarrow> (Some (Errorf ''deleting uncontrolled Secret: '' e []), s1)
              | None \<Rightarrow> deleteUnmanaged r controllerOfLUT rest s1)))"

text \<open>Lines 216 to 236: the Sync condition and the rest of the status.\<close>

definition updateSyncStatus ::
  "'w Deps \<Rightarrow> SecretSync \<Rightarrow> NamespacedName list \<Rightarrow> 'w Cluster
     \<Rightarrow> (reconcileResult \<times> SecretSync) \<times> 'w Cluster" where
  "updateSyncStatus r secretSync controllerOf s =
     (case SetStatusCondition (time_Now r) (Conditions (SyncStatus secretSync))
             \<lparr>Type = SecretSyncSync (constants r),
              Status = ConditionTrue,
              ObservedGeneration = Generation secretSync,
              LastTransitionTime = 0,
              Reason = ''SuccessfulSync'',
              Message = ''Synchronization completed successfully.''\<rparr> (World s) of
        ((condChanged, conditions), w) \<Rightarrow>
          let statusChanged =
                (condChanged
                 \<or> ControllerOf (SyncStatus secretSync) \<noteq> Some controllerOf
                 \<or> Phase (SyncStatus secretSync) \<noteq> SecretSyncStatusPhaseSync (constants r))
          in ((\<lparr>statusChanged = statusChanged\<rparr>,
               secretSync\<lparr>SyncStatus :=
                 \<lparr>Conditions = conditions,
                  Phase = SecretSyncStatusPhaseSync (constants r),
                  ControllerOf = Some controllerOf\<rparr>\<rparr>),
              s\<lparr>World := w\<rparr>))"

definition secretReconciler_Reconcile ::
  "'w Deps \<Rightarrow> SecretSync \<Rightarrow> 'w Cluster
     \<Rightarrow> ((reconcileResult \<times> error option) outcome \<times> SecretSync) \<times> 'w Cluster" where
  "secretReconciler_Reconcile r secretSync s =
     (if Paused (Spec secretSync) \<or> \<not> IsZero (DeletionTimestamp secretSync)
      then ((Return (\<lparr>statusChanged = False\<rparr>, None), secretSync), s)
      else
        (case watchSource r secretSync s of
           ((Some err, secretSync1), s1) \<Rightarrow>
             ((Return (\<lparr>statusChanged = False\<rparr>, Some err), secretSync1), s1)
         | ((None, secretSync1), s1) \<Rightarrow>
             (case srcReaderForStrategy (Strategy (Spec secretSync1)) of
                Panic e \<Rightarrow> ((Panic e, secretSync1), s1)
              | Return reader \<Rightarrow>
                  (case reader_Get r reader (Src (Spec secretSync1)) s1 of
                     (Inl err, s2) \<Rightarrow>
                       ((Return (\<lparr>statusChanged = False\<rparr>,
                                 Some (Errorf ''getting source object: '' err [])),
                         secretSync1), s2)
                   | (Inr srcSecret, s2) \<Rightarrow>
                       (case syncDest r secretSync1 srcSecret (Dest (Spec secretSync1))
                               [] {} s2 of
                          (Inl err, s3) \<Rightarrow>
                            ((Return (\<lparr>statusChanged = False\<rparr>, Some err), secretSync1), s3)
                        | (Inr (controllerOf, controllerOfLUT), s3) \<Rightarrow>
                            (case callv (ListCall (Name secretSync1))
                                    (dynamicCache_List r ManagedByLabel (Name secretSync1))
                                    s3 of
                               (Inl err, s4) \<Rightarrow>
                                 ((Return (\<lparr>statusChanged = False\<rparr>,
                                     Some (Errorf ''listing managed secrets: '' err [])),
                                   secretSync1), s4)
                             | (Inr items, s4) \<Rightarrow>
                                 (case deleteUnmanaged r controllerOfLUT items s4 of
                                    (Some err, s5) \<Rightarrow>
                                      ((Return (\<lparr>statusChanged = False\<rparr>, Some err),
                                        secretSync1), s5)
                                  | (None, s5) \<Rightarrow>
                                      (case updateSyncStatus r secretSync1 controllerOf s5 of
                                         ((res, secretSync2), s6) \<Rightarrow>
                                           ((Return (res, None), secretSync2), s6)))))))))"

subsection \<open>pauseReconciler\<close>

definition pausedBoolToConditionBool :: "bool \<Rightarrow> string" where
  "pausedBoolToConditionBool b = (if b then ConditionTrue else ConditionFalse)"

definition pausedBoolToConditionReason :: "bool \<Rightarrow> string" where
  "pausedBoolToConditionReason b = (if b then ''SpecSaysPaused'' else ''SpecSaysUnpaused'')"

definition pauseReconciler_Reconcile ::
  "'w Deps \<Rightarrow> SecretSync \<Rightarrow> 'w Cluster
     \<Rightarrow> ((reconcileResult \<times> error option) \<times> SecretSync) \<times> 'w Cluster" where
  "pauseReconciler_Reconcile r secretSync s =
     (if \<not> IsZero (DeletionTimestamp secretSync)
      then (((\<lparr>statusChanged = False\<rparr>, None), secretSync), s)
      else
        (case SetStatusCondition (time_Now r) (Conditions (SyncStatus secretSync))
                \<lparr>Type = SecretSyncPaused (constants r),
                 Status = pausedBoolToConditionBool (Paused (Spec secretSync)),
                 ObservedGeneration = Generation secretSync,
                 LastTransitionTime = 0,
                 Reason = pausedBoolToConditionReason (Paused (Spec secretSync)),
                 Message = []\<rparr> (World s) of
           ((condChanged, conditions), w) \<Rightarrow>
             let paused = Paused (Spec secretSync);
                 phase = Phase (SyncStatus secretSync);
                 phaseIsWrong =
                   (paused \<and> phase \<noteq> SecretSyncStatusPhasePaused (constants r)
                    \<or> \<not> paused \<and> phase \<noteq> SecretSyncStatusPhasePaused (constants r));
                 phase' =
                   (if phaseIsWrong \<and> paused then SecretSyncStatusPhasePaused (constants r)
                    else if phaseIsWrong then SecretSyncStatusPhaseSync (constants r)
                    else phase)
             in (((\<lparr>statusChanged = (condChanged \<or> phaseIsWrong)\<rparr>, None),
                  secretSync\<lparr>SyncStatus :=
                    (SyncStatus secretSync)\<lparr>Conditions := conditions, Phase := phase'\<rparr>\<rparr>),
                 s\<lparr>World := w\<rparr>)))"

section \<open>Properties of call logs and fixtures\<close>

text \<open>The resourceVersion a merge patch carries under metadata, if any.\<close>

definition patch_resourceVersion :: "json \<Rightarrow> string option" where
  "patch_resourceVersion p =
     (case json_field ''metadata'' p of
        Some m \<Rightarrow> (case json_field ''resourceVersion'' m of
                     Some (JString rv) \<Rightarrow> Some rv
                   | _ \<Rightarrow> None)
      | None \<Rightarrow> None)"

text \<open>A log entry that is a Patch of the given object carrying the given resourceVersion.\<close>

definition isPatchWithResourceVersion ::
  "NamespacedName \<Rightarrow> string \<Rightarrow> Call \<times> error option \<Rightarrow> bool" where
  "isPatchWithResourceVersion key rv entry =
     (case fst entry of
        PatchCall k p \<Rightarrow> k = key \<and> patch_resourceVersion p = Some rv
      | _ \<Rightarrow> False)"

text \<open>
  A monitor over a log: every Patch comes after a Free that returned no error, with no
  failed Free in between.
\<close>

fun freedBeforePatch :: "bool \<Rightarrow> (Call \<times> error option) list \<Rightarrow> bool" where
  "freedBeforePatch freed [] = True"
| "freedBeforePatch freed ((c, r) # rest) =
     (case c of
        FreeCall k \<Rightarrow> freedBeforePatch (r = None) rest
      | PatchCall k p \<Rightarrow> freed \<and> freedBeforePatch freed rest
      | _ \<Rightarrow> freedBeforePatch freed rest)"

text \<open>
  Fixtures: a world that is a counter read by the clock, dependencies whose calls all
  succeed, and a SecretSync with the watch strategy and one destination.
\<close>

definition exampleConstants :: Constants where
  "exampleConstants =
     \<lparr>SecretSyncSync = ''Sync'', SecretSyncPaused = ''Paused'',
      SecretSyncStatusPhaseSync = ''Sync'', SecretSyncStatusPhasePaused = ''Paused'',
      constants_DynamicCacheLabel = ''package-operator.run/cache''\<rparr>"

definition okDeps :: "nat Deps" where
  "okDeps =
     \<lparr>constants = exampleConstants,
      client_Patch = (\<lambda>obj p w. ((None, obj), w)),
      client_Apply = (\<lambda>obj w. (None, w)),
      client_Delete = (\<lambda>obj w. (None, w)),
      uncachedClient_Get = (\<lambda>key w. (Inr emptySecret, w)),
      dynamicCache_Get = (\<lambda>key w. (Inr emptySecret, w)),
      dynamicCache_List = (\<lambda>l v w. (Inr [], w)),
      dynamicCache_Watch = (\<lambda>owner obj w. (None, w)),
      dynamicCache_Free = (\<lambda>owner w. (None, w)),
      ownerStrategy_SetControllerReference = (\<lambda>owner obj w. (Inr obj, w)),
      objecthandling_EnsureDynamicCacheLabel = (\<lambda>obj w. (None, w)),
      objecthandling_RemoveDynamicCacheLabel = (\<lambda>obj w. (None, w)),
      time_Now = (\<lambda>w. (int w + 1, Suc w))\<rparr>"

definition exampleSecretSync :: SecretSync where
  "exampleSecretSync =
     \<lparr>Name = ''sync'', Namespace = ''ns'', ResourceVersion = ''7'', Generation = 1,
      DeletionTimestamp = None, Labels = Map.empty, Finalizers = [],
      Spec = \<lparr>Paused = False,
              Strategy = \<lparr>Poll = None, Watch = Some ()\<rparr>,
              Src = NamespacedName ''ns'' ''src'',
              Dest = [NamespacedName ''ns2'' ''dst'']\<rparr>,
      SyncStatus = \<lparr>Conditions = [], Phase = [], ControllerOf = None\<rparr>\<rparr>"

definition emptyCluster :: "nat Cluster" where
  "emptyCluster = \<lparr>Calls = [], World = 0\<rparr>"

definition failingFree :: "(SecretSync, nat) free_fn" where
  "failingFree owner w = (Some (ErrorsNew ''cache busy''), w)"

definition deletingSecretSync :: SecretSync where
  "deletingSecretSync =
     exampleSecretSync\<lparr>DeletionTimestamp := Some 5, Finalizers := [CachedFinalizer]\<rparr>"

text \<open>
  Error contexts. \<open>wrap [p1, p2] e\<close> is \<open>e\<close> wrapped by \<open>fmt.Errorf\<close> twice, outermost
  text first. An error has a context when it is built by \<open>fmt.Errorf\<close> with a text before
  the error it wraps. For each function, the texts it puts before the error of a call, as
  a function of that call and of the call logged before it: the two \<open>Watch\<close> calls of
  \<open>secretReconciler\<close> differ in what precedes them, the watch of the source secret comes
  right after the cache label was ensured, the watch of a destination after the \<open>Get\<close> of
  the source or the \<open>Patch\<close> of the destination before. \<open>wrapsFailedCall\<close> says that the
  last call in the log failed and that the given error is that call's error under the
  texts of its step.
\<close>

fun wrap :: "string list \<Rightarrow> error \<Rightarrow> error" where
  "wrap [] e = e"
| "wrap (p # ps) e = Errorf p (wrap ps e) []"

fun hasContext :: "error \<Rightarrow> bool" where
  "hasContext (Errorf p e s) = (p \<noteq> [])"
| "hasContext (StatusError r m) = False"
| "hasContext (ErrorsNew m) = False"

definition wrapsFailedCall ::
  "(Call \<Rightarrow> Call option \<Rightarrow> string list) \<Rightarrow> error \<Rightarrow> (Call \<times> error option) list \<Rightarrow> bool" where
  "wrapsFailedCall contextOf err calls =
     (case rev calls of
        (c, Some e) # earlier \<Rightarrow>
          contextOf c (case earlier of [] \<Rightarrow> None | (p, r) # before \<Rightarrow> Some p) \<noteq> []
          \<and> err = wrap (contextOf c (case earlier of [] \<Rightarrow> None | (p, r) # before \<Rightarrow> Some p)) e
      | _ \<Rightarrow> False)"

fun secretReconciler_context :: "Call \<Rightarrow> Call option \<Rightarrow> string list" where
  "secretReconciler_context (PatchCall k p) before =
     [''adding cached finalizer: '', ''adding finalizer: '']"
| "secretReconciler_context (EnsureDynamicCacheLabelCall k) before =
     [''adding dynamic cache label: '']"
| "secretReconciler_context (WatchCall owner k) (Some (EnsureDynamicCacheLabelCall k')) =
     [''watching source secret: '']"
| "secretReconciler_context (WatchCall owner k) before = [''watching new resource: '']"
| "secretReconciler_context (GetCall rd k) before = [''getting source object: '']"
| "secretReconciler_context (SetControllerReferenceCall owner k) before =
     [''setting controller reference: '']"
| "secretReconciler_context (ApplyCall k) before = [''patching destination secret: '']"
| "secretReconciler_context (ListCall v) before = [''listing managed secrets: '']"
| "secretReconciler_context (DeleteCall k) before = [''deleting uncontrolled Secret: '']"
| "secretReconciler_context c before = []"

fun deletionReconciler_context :: "Call \<Rightarrow> Call option \<Rightarrow> string list" where
  "deletionReconciler_context (RemoveDynamicCacheLabelCall k) before =
     [''remove cache label from source secret: '']"
| "deletionReconciler_context (FreeCall k) before =
     [''free cache and remove finalizer: '', ''free cache: '']"
| "deletionReconciler_context (PatchCall k p) before =
     [''free cache and remove finalizer: '', ''removing finalizer: '']"
| "deletionReconciler_context c before = []"

fun EnsureFinalizer_context :: "Call \<Rightarrow> Call option \<Rightarrow> string list" where
  "EnsureFinalizer_context (PatchCall k p) before = [''adding finalizer: '']"
| "EnsureFinalizer_context c before = []"

fun RemoveFinalizer_context :: "Call \<Rightarrow> Call option \<Rightarrow> string list" where
  "RemoveFinalizer_context (PatchCall k p) before = [''removing finalizer: '']"
| "RemoveFinalizer_context c before = []"

fun FreeCacheAndRemoveFinalizer_context :: "Call \<Rightarrow> Call option \<Rightarrow> string list" where
  "FreeCacheAndRemoveFinalizer_context (FreeCall k) before = [''free cache: '']"
| "FreeCacheAndRemoveFinalizer_context (PatchCall k p) before = [''removing finalizer: '']"
| "FreeCacheAndRemoveFinalizer_context c before = []"

definition isGetOrApply :: "Call \<Rightarrow> bool" where
  "isGetOrApply c = (case c of GetCall rd k \<Rightarrow> True | ApplyCall k \<Rightarrow> True | _ \<Rightarrow> False)"

text \<open>
  Fixtures for the errors that come without a context: a \<open>GVKForObject\<close> that knows no
  kind, an owner strategy under which the owner controls every object, and a SecretSync
  with neither strategy, live and deleting.
\<close>

definition unregisteredKind :: error where
  "unregisteredKind = ErrorsNew ''no kind is registered for the type''"

definition failingGVKForObject :: "Secret \<Rightarrow> unit \<Rightarrow> error + GroupVersionKind" where
  "failingGVKForObject obj scheme = Inl unregisteredKind"

definition controlsAll :: "SecretSync \<Rightarrow> Secret \<Rightarrow> bool" where
  "controlsAll owner obj = True"

definition strategylessDeleting :: SecretSync where
  "strategylessDeleting =
     deletingSecretSync\<lparr>Spec := (Spec deletingSecretSync)
                                  \<lparr>Strategy := \<lparr>Poll = None, Watch = None\<rparr>\<rparr>\<rparr>"

definition strategyless :: SecretSync where
  "strategyless =
     exampleSecretSync\<lparr>Spec := (Spec exampleSecretSync)
                                 \<lparr>Strategy := \<lparr>Poll = None, Watch = None\<rparr>\<rparr>\<rparr>"

definition conflictingPatch :: "(SecretSync, nat) patch_fn" where
  "conflictingPatch obj p w = ((Some (StatusError StatusReasonConflict ''conflict''), obj), w)"

text \<open>
  For \<open>MapConditions\<close>: a source condition is current and mapped when its observed
  generation is the source generation and its type holds a slash; \<open>copyOf g c d\<close> says
  that \<open>d\<close> has the type, status, reason and message of \<open>c\<close> and the observed generation
  \<open>g\<close>. \<open>tick\<close> is a clock for the examples.
\<close>

definition isCurrentMapped :: "64 word \<Rightarrow> Condition \<Rightarrow> bool" where
  "isCurrentMapped srcGeneration condition =
     (ObservedGeneration condition = srcGeneration \<and> IsMappedCondition condition)"

definition copyOf :: "64 word \<Rightarrow> Condition \<Rightarrow> Condition \<Rightarrow> bool" where
  "copyOf destGeneration c d =
     (Type d = Type c \<and> Status d = Status c \<and> Reason d = Reason c
      \<and> Message d = Message c \<and> ObservedGeneration d = destGeneration)"

definition tick :: "nat \<Rightarrow> int \<times> nat" where
  "tick n = (int n + 1, Suc n)"

definition duplicatedSrc :: "Condition list" where
  "duplicatedSrc =
     [\<lparr>Type = ''pko/Ready'', Status = ''True'', ObservedGeneration = 1,
       LastTransitionTime = 0, Reason = ''Up'', Message = ''first''\<rparr>,
      \<lparr>Type = ''pko/Ready'', Status = ''False'', ObservedGeneration = 1,
       LastTransitionTime = 0, Reason = ''Down'', Message = ''second''\<rparr>]"

definition mixedSrc :: "Condition list" where
  "mixedSrc =
     [\<lparr>Type = ''pko/Ready'', Status = ''True'', ObservedGeneration = 1,
       LastTransitionTime = 0, Reason = ''Up'', Message = ''current and mapped''\<rparr>,
      \<lparr>Type = ''pko/Stale'', Status = ''True'', ObservedGeneration = 0,
       LastTransitionTime = 0, Reason = ''Old'', Message = ''outdated generation''\<rparr>,
      \<lparr>Type = ''Available'', Status = ''True'', ObservedGeneration = 1,
       LastTransitionTime = 0, Reason = ''Plain'', Message = ''no slash''\<rparr>]"

definition exampleDest :: "Condition list" where
  "exampleDest =
     [\<lparr>Type = ''Progressing'', Status = ''False'', ObservedGeneration = 4,
       LastTransitionTime = 9, Reason = ''Idle'', Message = ''own condition''\<rparr>]"

text \<open>
  What \<open>MapConditions\<close> does with one source condition that is current and mapped:
  \<open>handOver\<close> passes its copy to \<open>SetStatusCondition\<close> and keeps the list and the clock.
  \<open>touchesOnlyFirst types before after\<close> says how far a list of conditions may change:
  every entry keeps its place and its type; an entry may change only if it is the first
  of its type in the list and that type is among \<open>types\<close>; what is appended holds one
  entry for each of some of these types that the list did not hold. A destination that
  holds a type twice.
\<close>

definition handOver ::
  "('c \<Rightarrow> int \<times> 'c) \<Rightarrow> 64 word \<Rightarrow> Condition \<Rightarrow> Condition list \<times> 'c \<Rightarrow> Condition list \<times> 'c" where
  "handOver now destGeneration condition st =
     (case SetStatusCondition now (fst st) (mappedCondition destGeneration condition) (snd st) of
        ((changed, destConditions'), clk') \<Rightarrow> (destConditions', clk'))"

definition touchesOnlyFirst :: "string set \<Rightarrow> Condition list \<Rightarrow> Condition list \<Rightarrow> bool" where
  "touchesOnlyFirst types before after =
     (length before \<le> length after
      \<and> map Type (take (length before) after) = map Type before
      \<and> (\<forall>i < length before.
            after ! i \<noteq> before ! i \<longrightarrow>
              Type (before ! i) \<in> types \<and> (\<forall>j < i. Type (before ! j) \<noteq> Type (before ! i)))
      \<and> distinct (map Type (drop (length before) after))
      \<and> set (map Type (drop (length before) after)) \<subseteq> types - set (map Type before))"

definition duplicatedDest :: "Condition list" where
  "duplicatedDest =
     [\<lparr>Type = ''pko/Ready'', Status = ''False'', ObservedGeneration = 4,
       LastTransitionTime = 9, Reason = ''Old'', Message = ''first entry''\<rparr>,
      \<lparr>Type = ''pko/Ready'', Status = ''Unknown'', ObservedGeneration = 3,
       LastTransitionTime = 8, Reason = ''Older'', Message = ''second entry''\<rparr>]"

section \<open>Deployment reconciler (internal/packages)\<close>

text \<open>
  Of this package the sources hold the test file only
  (\<open>deployment_reconciler_test.go\<close>). The object shapes below are the literals the test
  builds; the client is the mock the test programs; the reconciler itself is modelled
  from the specification. A phase holds its objects inline or the names of slices; an
  object template (\<open>unstructured.Unstructured\<close>) is a JSON tree, \<open>JObject []\<close> the empty
  one. The field \<open>Name\<close> of a phase is written \<open>PhaseName\<close>, the field \<open>Objects\<close> of a
  slice \<open>SliceObjects\<close>. The object that \<open>Reconcile\<close> creates and updates, which the
  specification calls the Revision, is the one the test stores as
  \<open>*v1alpha1.ObjectDeployment\<close>; the revisions that garbage collection lists are
  \<open>ObjectSet\<close>s.
\<close>

record ObjectSetTemplatePhase =
  PhaseName :: string
  Objects :: "json list"
  Slices :: "string list"

record ObjectDeployment = ObjectMeta +
  Selector :: "(string \<times> string) list"
  TemplatePhases :: "ObjectSetTemplatePhase list"

record ObjectSet = ObjectMeta +
  SetPhases :: "ObjectSetTemplatePhase list"

record ObjectSlice = ObjectMeta +
  SliceObjects :: "json list"

definition emptyObjectMeta :: ObjectMeta where
  "emptyObjectMeta =
     \<lparr>Name = [], Namespace = [], ResourceVersion = [], Generation = 0,
      DeletionTimestamp = None, Labels = Map.empty, Finalizers = []\<rparr>"

definition newObjectDeployment :: ObjectDeployment where
  "newObjectDeployment = ObjectMeta.extend emptyObjectMeta
     (ObjectDeployment.fields [] [])"

definition newObjectSet :: ObjectSet where
  "newObjectSet = ObjectMeta.extend emptyObjectMeta (ObjectSet.fields [])"

definition newObjectSlice :: ObjectSlice where
  "newObjectSlice = ObjectMeta.extend emptyObjectMeta (ObjectSlice.fields [])"

datatype DeployCall =
    GetDeployment NamespacedName
  | CreateDeployment ObjectDeployment
  | UpdateDeployment ObjectDeployment
  | ListObjectSets "(string \<times> string) list"
  | ListObjectSlices string
  | CreateSlice ObjectSlice
  | GetSlice NamespacedName
  | DeleteSlice NamespacedName

record 'w Store =
  Log :: "(DeployCall \<times> error option) list"
  Backing :: 'w

text \<open>
  The client of the reconciler, one function per call and kind. \<open>Get\<close> fills the object
  it is given, so it takes that object and returns it as the client left it.
\<close>

record 'w DeployClient =
  Get_ObjectDeployment ::
    "NamespacedName \<Rightarrow> ObjectDeployment \<Rightarrow> 'w \<Rightarrow> (error option \<times> ObjectDeployment) \<times> 'w"
  Create_ObjectDeployment :: "ObjectDeployment \<Rightarrow> 'w \<Rightarrow> error option \<times> 'w"
  Update_ObjectDeployment :: "ObjectDeployment \<Rightarrow> 'w \<Rightarrow> error option \<times> 'w"
  List_ObjectSets :: "(string \<times> string) list \<Rightarrow> 'w \<Rightarrow> (error + ObjectSet list) \<times> 'w"
  List_ObjectSlices :: "string \<Rightarrow> 'w \<Rightarrow> (error + ObjectSlice list) \<times> 'w"
  Create_ObjectSlice :: "ObjectSlice \<Rightarrow> 'w \<Rightarrow> error option \<times> 'w"
  Get_ObjectSlice ::
    "NamespacedName \<Rightarrow> ObjectSlice \<Rightarrow> 'w \<Rightarrow> (error option \<times> ObjectSlice) \<times> 'w"
  Delete_ObjectSlice :: "ObjectSlice \<Rightarrow> 'w \<Rightarrow> error option \<times> 'w"

definition recorded :: "DeployCall \<Rightarrow> error option \<Rightarrow> 'w \<Rightarrow> 'w Store \<Rightarrow> 'w Store" where
  "recorded c r w s = \<lparr>Log = Log s @ [(c, r)], Backing = w\<rparr>"

definition doCall ::
  "DeployCall \<Rightarrow> ('w \<Rightarrow> error option \<times> 'w) \<Rightarrow> 'w Store \<Rightarrow> error option \<times> 'w Store" where
  "doCall c f s = (case f (Backing s) of (r, w) \<Rightarrow> (r, recorded c r w s))"

definition doGet ::
  "DeployCall \<Rightarrow> ('w \<Rightarrow> (error option \<times> 'a) \<times> 'w) \<Rightarrow> 'w Store
     \<Rightarrow> (error option \<times> 'a) \<times> 'w Store" where
  "doGet c f s = (case f (Backing s) of (r, w) \<Rightarrow> (r, recorded c (fst r) w s))"

definition doList ::
  "DeployCall \<Rightarrow> ('w \<Rightarrow> (error + 'a) \<times> 'w) \<Rightarrow> 'w Store \<Rightarrow> (error + 'a) \<times> 'w Store" where
  "doList c f s = (case f (Backing s) of (r, w) \<Rightarrow> (r, recorded c (errorOf r) w s))"

definition IsAlreadyExists :: "error \<Rightarrow> bool" where
  "IsAlreadyExists e = (ReasonForError e = StatusReasonAlreadyExists)"

definition IsConflict :: "error \<Rightarrow> bool" where
  "IsConflict e = (ReasonForError e = StatusReasonConflict)"

subsection \<open>Slices\<close>

text \<open>
  Modelled from the spec: the error type \<open>sliceCollisionError\<close> of
  \<open>deployment_reconciler.go\<close>, which is missing from these sources. Its \<open>Error()\<close> is
  "ObjectSlice collision with" and the key as namespace/name; the test
  \<open>Test_sliceCollisionError\<close> fixes the string for the key test/test. The other errors of a
  reconcile pass are store errors under a context text.
\<close>

datatype reconcileError =
    sliceCollisionError NamespacedName
  | storeError error

fun reconcileError_Error :: "reconcileError \<Rightarrow> string" where
  "reconcileError_Error (sliceCollisionError (NamespacedName ns n)) =
     ''ObjectSlice collision with '' @ ns @ ''/'' @ n"
| "reconcileError_Error (storeError e) = Error e"

text \<open>
  Modelled from the spec: the naming of slices (\<open>NameFor(ownerName, content)\<close> of section
  4.4), missing from these sources. The name is the owner's name, a dash and a hash of the
  content. The hash function is a parameter; where creation is tried again after a clash
  of names (section 9 speaks of a salt), the hash is the one of the next collision count,
  so the parameter of the reconciler is a family of hash functions, one per count.
\<close>

definition NameFor :: "(json list \<Rightarrow> string) \<Rightarrow> string \<Rightarrow> json list \<Rightarrow> string" where
  "NameFor hash ownerName content = ownerName @ ''-'' @ hash content"

text \<open>
  Modelled from the spec: \<open>reconcileSlice\<close> of \<open>deployment_reconciler.go\<close>, the creation of
  one slice, missing from these sources (sections 4.1 and 4.4, error class 3 of section 7,
  the collision scenario of section 8, the open question of section 9) and exercised by
  \<open>TestDeploymentReconciler_reconcileSlice_hashCollision\<close>. The slice is named from its
  owner and content and created. On Already-Exists the stored slice of that name is read
  and its content compared: different content is the collision error, and nothing is
  written. With identical content there is no error; section 4.1 calls this a no-op, while
  the scenario of section 8 and the test count a second \<open>Create\<close>, and it is the test that
  is followed here: creation is tried again under the name of the next collision count.
  Section 9 knows no bound for these attempts, so the loop runs on fuel: \<open>None\<close> is a loop
  that has not returned when the fuel is used up.
\<close>

fun createSlice ::
  "'w DeployClient \<Rightarrow> (nat \<Rightarrow> json list \<Rightarrow> string) \<Rightarrow> ObjectDeployment \<Rightarrow> ObjectSlice
     \<Rightarrow> nat \<Rightarrow> nat \<Rightarrow> 'w Store \<Rightarrow> ((reconcileError + ObjectSlice) \<times> 'w Store) option" where
  "createSlice c hash deploy pending collisionCount 0 s = None"
| "createSlice c hash deploy pending collisionCount (Suc fuel) s =
     (let named = pending\<lparr>Name := NameFor (hash collisionCount) (Name deploy)
                                    (SliceObjects pending),
                        Namespace := Namespace deploy\<rparr>;
          key = ObjectKeyFromObject named
      in case doCall (CreateSlice named) (Create_ObjectSlice c named) s of
           (None, s1) \<Rightarrow> Some (Inr named, s1)
         | (Some e, s1) \<Rightarrow>
             if IsAlreadyExists e
             then (case doGet (GetSlice key) (Get_ObjectSlice c key newObjectSlice) s1 of
                     ((Some e2, existing), s2) \<Rightarrow>
                       Some (Inl (storeError (Errorf ''getting existing ObjectSlice: '' e2 [])),
                             s2)
                   | ((None, existing), s2) \<Rightarrow>
                       if SliceObjects existing = SliceObjects named
                       then createSlice c hash deploy pending (Suc collisionCount) fuel s2
                       else Some (Inl (sliceCollisionError key), s2))
             else Some (Inl (storeError (Errorf ''creating ObjectSlice: '' e [])), s1))"

subsection \<open>Garbage collection of slices\<close>

definition referencedSlices :: "ObjectSetTemplatePhase list \<Rightarrow> string set" where
  "referencedSlices phases = set (concat (map Slices phases))"

text \<open>
  Modelled from the spec: \<open>sliceGarbageCollection\<close> of \<open>deployment_reconciler.go\<close>, which
  is missing from these sources (section 4.1, fourth item, and error class 6 of section
  7). The referenced names are those of the deployment's template and of the phases of
  every revision the selector finds; every listed slice of the deployment whose name is
  not among them is deleted. A failed deletion neither stops the others nor fails the
  pass; a failed listing does.
\<close>

fun deleteUnreferenced ::
  "'w DeployClient \<Rightarrow> string set \<Rightarrow> ObjectSlice list \<Rightarrow> 'w Store \<Rightarrow> 'w Store" where
  "deleteUnreferenced c referenced [] s = s"
| "deleteUnreferenced c referenced (stored # rest) s =
     (if Name stored \<in> referenced then deleteUnreferenced c referenced rest s
      else
        (case doCall (DeleteSlice (ObjectKeyFromObject stored))
                (Delete_ObjectSlice c stored) s of
           (err, s1) \<Rightarrow> deleteUnreferenced c referenced rest s1))"

definition sliceGarbageCollection ::
  "'w DeployClient \<Rightarrow> ObjectDeployment \<Rightarrow> 'w Store \<Rightarrow> reconcileError option \<times> 'w Store" where
  "sliceGarbageCollection c deploy s =
     (case doList (ListObjectSets (Selector deploy)) (List_ObjectSets c (Selector deploy)) s of
        (Inl e, s1) \<Rightarrow> (Some (storeError (Errorf ''listing ObjectSets: '' e [])), s1)
      | (Inr objectSets, s1) \<Rightarrow>
          (case doList (ListObjectSlices (Name deploy))
                  (List_ObjectSlices c (Name deploy)) s1 of
             (Inl e, s2) \<Rightarrow> (Some (storeError (Errorf ''listing ObjectSlices: '' e [])), s2)
           | (Inr stored, s2) \<Rightarrow>
               (None,
                deleteUnreferenced c
                  (referencedSlices (TemplatePhases deploy)
                   \<union> (\<Union>objectSet \<in> set objectSets. referencedSlices (SetPhases objectSet)))
                  stored s2)))"

subsection \<open>Reconcile\<close>

text \<open>
  The chunker decides which objects of a phase go into which slice; no chunk leaves the
  phase as it is. \<open>EachObjectChunker\<close>, the one the test passes, is not part of these
  sources either: by its name, every object is a chunk of its own.
\<close>

type_synonym objectChunker = "ObjectSetTemplatePhase \<Rightarrow> json list list"

definition EachObjectChunker :: objectChunker where
  "EachObjectChunker phase = map (\<lambda>obj. [obj]) (Objects phase)"

text \<open>
  Modelled from the spec: the slicing of phases in \<open>Reconcile\<close> (section 4.1, second item),
  missing from these sources. Every chunk becomes a slice, created before the object that
  refers to it is written; the phase then holds the names of the slices in place of its
  inline objects. Each slice starts at collision count \<open>0\<close> with the fuel given.
\<close>

fun createSlices ::
  "'w DeployClient \<Rightarrow> (nat \<Rightarrow> json list \<Rightarrow> string) \<Rightarrow> nat \<Rightarrow> ObjectDeployment
     \<Rightarrow> json list list \<Rightarrow> 'w Store \<Rightarrow> ((reconcileError + string list) \<times> 'w Store) option" where
  "createSlices c hash fuel deploy [] s = Some (Inr [], s)"
| "createSlices c hash fuel deploy (chunk # rest) s =
     (case createSlice c hash deploy (newObjectSlice\<lparr>SliceObjects := chunk\<rparr>) 0 fuel s of
        None \<Rightarrow> None
      | Some (Inl e, s1) \<Rightarrow> Some (Inl e, s1)
      | Some (Inr created, s1) \<Rightarrow>
          (case createSlices c hash fuel deploy rest s1 of
             None \<Rightarrow> None
           | Some (Inl e, s2) \<Rightarrow> Some (Inl e, s2)
           | Some (Inr names, s2) \<Rightarrow> Some (Inr (Name created # names), s2)))"

fun chunkPhases ::
  "'w DeployClient \<Rightarrow> (nat \<Rightarrow> json list \<Rightarrow> string) \<Rightarrow> nat \<Rightarrow> objectChunker
     \<Rightarrow> ObjectDeployment \<Rightarrow> ObjectSetTemplatePhase list \<Rightarrow> 'w Store
     \<Rightarrow> ((reconcileError + ObjectSetTemplatePhase list) \<times> 'w Store) option" where
  "chunkPhases c hash fuel chunker deploy [] s = Some (Inr [], s)"
| "chunkPhases c hash fuel chunker deploy (phase # rest) s =
     (case (if chunker phase = [] then Some (Inr phase, s)
            else (case createSlices c hash fuel deploy (chunker phase) s of
                    None \<Rightarrow> None
                  | Some (Inl e, s1) \<Rightarrow> Some (Inl e, s1)
                  | Some (Inr names, s1) \<Rightarrow>
                      Some (Inr (phase\<lparr>Objects := [], Slices := Slices phase @ names\<rparr>),
                            s1))) of
        None \<Rightarrow> None
      | Some (Inl e, s1) \<Rightarrow> Some (Inl e, s1)
      | Some (Inr phase', s1) \<Rightarrow>
          (case chunkPhases c hash fuel chunker deploy rest s1 of
             None \<Rightarrow> None
           | Some (Inl e, s2) \<Rightarrow> Some (Inl e, s2)
           | Some (Inr phases', s2) \<Rightarrow> Some (Inr (phase' # phases'), s2)))"

text \<open>
  Modelled from the spec: the write of the reconciled object (section 4.1, last item;
  error class 2 of section 7; the retry combinator of section 9), missing from these
  sources. The change is applied and the object updated; on a conflict, while attempts
  remain, the object is read again, the change applied to what was read, and the update
  tried again. The number of attempts is a parameter: the specification gives none.
\<close>

fun updateWithRetry ::
  "'w DeployClient \<Rightarrow> nat \<Rightarrow> ObjectSetTemplatePhase list \<Rightarrow> ObjectDeployment \<Rightarrow> 'w Store
     \<Rightarrow> (error option \<times> ObjectDeployment) \<times> 'w Store" where
  "updateWithRetry c 0 phases actual s =
     ((Some (ErrorsNew ''no attempt allowed''), actual), s)"
| "updateWithRetry c (Suc n) phases actual s =
     (let changed = actual\<lparr>TemplatePhases := phases\<rparr> in
      case doCall (UpdateDeployment changed) (Update_ObjectDeployment c changed) s of
        (None, s1) \<Rightarrow> ((None, changed), s1)
      | (Some e, s1) \<Rightarrow>
          if IsConflict e \<and> n \<noteq> 0
          then (case doGet (GetDeployment (ObjectKeyFromObject changed))
                       (Get_ObjectDeployment c (ObjectKeyFromObject changed) changed) s1 of
                  ((Some e2, reread), s2) \<Rightarrow>
                    ((Some (Errorf ''getting ObjectDeployment: '' e2 []), reread), s2)
                | ((None, reread), s2) \<Rightarrow> updateWithRetry c n phases reread s2)
          else ((Some (Errorf ''updating ObjectDeployment: '' e []), changed), s1))"

text \<open>
  Modelled from the spec: \<open>Reconcile\<close> of \<open>deployment_reconciler.go\<close>, which is missing
  from these sources (section 2, control flow; section 4.1; the first scenario of section
  8). The stored object is read; when there is none, one with an empty template is
  created. The phases are sliced, the object is updated to the sliced phases unless it
  holds them already, and garbage collection runs. The result is \<open>None\<close> when the creation
  of a slice has not returned on the fuel given.
\<close>

definition reconcileExisting ::
  "'w DeployClient \<Rightarrow> (nat \<Rightarrow> json list \<Rightarrow> string) \<Rightarrow> nat \<Rightarrow> nat \<Rightarrow> objectChunker
     \<Rightarrow> ObjectDeployment \<Rightarrow> ObjectDeployment \<Rightarrow> 'w Store
     \<Rightarrow> (reconcileError option \<times> 'w Store) option" where
  "reconcileExisting c hash fuel attempts chunker desiredDeploy actualDeploy s =
     (case chunkPhases c hash fuel chunker actualDeploy (TemplatePhases desiredDeploy) s of
        None \<Rightarrow> None
      | Some (Inl e, s1) \<Rightarrow> Some (Some e, s1)
      | Some (Inr phases, s1) \<Rightarrow>
          (case (if TemplatePhases actualDeploy = phases then ((None, actualDeploy), s1)
                 else updateWithRetry c attempts phases actualDeploy s1) of
             ((Some e, updated), s2) \<Rightarrow> Some (Some (storeError e), s2)
           | ((None, updated), s2) \<Rightarrow> Some (sliceGarbageCollection c updated s2)))"

definition Reconcile ::
  "'w DeployClient \<Rightarrow> (nat \<Rightarrow> json list \<Rightarrow> string) \<Rightarrow> nat \<Rightarrow> nat \<Rightarrow> objectChunker
     \<Rightarrow> ObjectDeployment \<Rightarrow> 'w Store \<Rightarrow> (reconcileError option \<times> 'w Store) option" where
  "Reconcile c hash fuel attempts chunker desiredDeploy s =
     (let key = ObjectKeyFromObject desiredDeploy in
      case doGet (GetDeployment key) (Get_ObjectDeployment c key newObjectDeployment) s of
        ((None, actualDeploy), s1) \<Rightarrow>
          reconcileExisting c hash fuel attempts chunker desiredDeploy actualDeploy s1
      | ((Some e, unread), s1) \<Rightarrow>
          if IsNotFound e
          then
            (let emptied = desiredDeploy\<lparr>TemplatePhases := []\<rparr> in
             case doCall (CreateDeployment emptied) (Create_ObjectDeployment c emptied) s1 of
               (Some e2, s2) \<Rightarrow>
                 Some (Some (storeError (Errorf ''creating empty ObjectDeployment: '' e2 [])),
                       s2)
             | (None, s2) \<Rightarrow>
                 reconcileExisting c hash fuel attempts chunker desiredDeploy emptied s2)
          else Some (Some (storeError (Errorf ''getting ObjectDeployment: '' e [])), s1))"

subsection \<open>The clients and objects of the tests\<close>

text \<open>
  The mock client of \<open>deployment_reconciler_test.go\<close>. Its state is how often the calls
  with a \<open>Once()\<close> answer were made. A call the test programs no answer for makes the
  mock panic; here it answers with \<open>unexpectedCall\<close>. The API errors carry their reason;
  their messages are not those of the library.
\<close>

record MockCalls =
  getDeploymentCalls :: nat
  updateDeploymentCalls :: nat
  createSliceCalls :: nat

definition noCalls :: MockCalls where
  "noCalls = \<lparr>getDeploymentCalls = 0, updateDeploymentCalls = 0, createSliceCalls = 0\<rparr>"

definition NewNotFound :: error where
  "NewNotFound = StatusError StatusReasonNotFound ''not found''"

definition NewConflict :: error where
  "NewConflict = StatusError StatusReasonConflict ''conflict''"

definition NewAlreadyExists :: error where
  "NewAlreadyExists = StatusError StatusReasonAlreadyExists ''already exists''"

definition unexpectedCall :: error where
  "unexpectedCall = ErrorsNew ''mock: unexpected call''"

definition unprogrammedClient :: "MockCalls DeployClient" where
  "unprogrammedClient =
     \<lparr>Get_ObjectDeployment = (\<lambda>key obj w. ((Some unexpectedCall, obj), w)),
      Create_ObjectDeployment = (\<lambda>obj w. (Some unexpectedCall, w)),
      Update_ObjectDeployment = (\<lambda>obj w. (Some unexpectedCall, w)),
      List_ObjectSets = (\<lambda>selector w. (Inl unexpectedCall, w)),
      List_ObjectSlices = (\<lambda>owner w. (Inl unexpectedCall, w)),
      Create_ObjectSlice = (\<lambda>obj w. (Some unexpectedCall, w)),
      Get_ObjectSlice = (\<lambda>key obj w. ((Some unexpectedCall, obj), w)),
      Delete_ObjectSlice = (\<lambda>obj w. (Some unexpectedCall, w))\<rparr>"

text \<open>
  \<open>Test_DeploymentReconciler_Reconcile\<close>, lines 55 to 117: the first \<open>Get\<close> of the
  deployment is not found, later ones return nil and leave the object as it is; both
  \<open>Create\<close>s return nil; the first \<open>Update\<close> is a conflict, later ones return nil; both
  \<open>List\<close>s return nil and leave the list empty.
\<close>

definition reconcileTestClient :: "MockCalls DeployClient" where
  "reconcileTestClient =
     unprogrammedClient
       \<lparr>Get_ObjectDeployment :=
          (\<lambda>key obj w.
             ((if getDeploymentCalls w = 0 then Some NewNotFound else None, obj),
              w\<lparr>getDeploymentCalls := Suc (getDeploymentCalls w)\<rparr>)),
        Create_ObjectDeployment := (\<lambda>obj w. (None, w)),
        Update_ObjectDeployment :=
          (\<lambda>obj w.
             (if updateDeploymentCalls w = 0 then Some NewConflict else None,
              w\<lparr>updateDeploymentCalls := Suc (updateDeploymentCalls w)\<rparr>)),
        List_ObjectSets := (\<lambda>selector w. (Inr [], w)),
        List_ObjectSlices := (\<lambda>owner w. (Inr [], w)),
        Create_ObjectSlice := (\<lambda>obj w. (None, w))\<rparr>"

text \<open>The deployment of that test, lines 32 to 54.\<close>

definition testDeploy :: ObjectDeployment where
  "testDeploy =
     newObjectDeployment
       \<lparr>Name := ''test-depl'',
        TemplatePhases := [\<lparr>PhaseName = ''test'', Objects = [JObject []], Slices = []\<rparr>]\<rparr>"


definition hashCollisionDeploy :: ObjectDeployment where
  "hashCollisionDeploy = newObjectDeployment\<lparr>Name := ''test-depl''\<rparr>"

definition hashCollisionSlice :: ObjectSlice where
  "hashCollisionSlice = newObjectSlice\<lparr>SliceObjects := [JObject []]\<rparr>"

text \<open>
  \<open>TestDeploymentReconciler_sliceGarbageCollection\<close>, lines 211 to 293: the deployment
  refers to slice0-xxx, the one listed revision to slice1-xxx, three slices are listed,
  and \<open>Delete\<close> returns nil.
\<close>

definition gcDeploy :: ObjectDeployment where
  "gcDeploy =
     newObjectDeployment
       \<lparr>Name := ''test-depl'',
        Selector := [(''test'', ''test'')],
        TemplatePhases := [\<lparr>PhaseName = [], Objects = [], Slices = [''slice0-xxx'']\<rparr>]\<rparr>"

definition objectSet1 :: ObjectSet where
  "objectSet1 =
     newObjectSet
       \<lparr>SetPhases := [\<lparr>PhaseName = ''test'', Objects = [], Slices = [''slice1-xxx'']\<rparr>]\<rparr>"

definition objectSlice0 :: ObjectSlice where
  "objectSlice0 = newObjectSlice\<lparr>Name := ''slice0-xxx''\<rparr>"

definition objectSlice1 :: ObjectSlice where
  "objectSlice1 = newObjectSlice\<lparr>Name := ''slice1-xxx''\<rparr>"

definition objectSlice2 :: ObjectSlice where
  "objectSlice2 = newObjectSlice\<lparr>Name := ''slice2-xxx''\<rparr>"

definition gcTestClient :: "MockCalls DeployClient" where
  "gcTestClient =
     unprogrammedClient
       \<lparr>List_ObjectSets := (\<lambda>selector w. (Inr [objectSet1], w)),
        List_ObjectSlices :=
          (\<lambda>owner w. (Inr [objectSlice0, objectSlice1, objectSlice2], w)),
        Delete_ObjectSlice := (\<lambda>obj w. (None, w))\<rparr>"

definition freshMock :: "MockCalls Store" where
  "freshMock = \<lparr>Log = [], Backing = noCalls\<rparr>"

text \<open>
  A store of slices by key, for the statements about stored content: \<open>Create\<close> refuses a
  key that is taken, \<open>Get\<close> returns what is stored, \<open>Delete\<close> removes it.
\<close>

definition sliceStoreClient :: "(NamespacedName \<rightharpoonup> ObjectSlice) DeployClient" where
  "sliceStoreClient =
     \<lparr>Get_ObjectDeployment = (\<lambda>key obj w. ((Some NewNotFound, obj), w)),
      Create_ObjectDeployment = (\<lambda>obj w. (None, w)),
      Update_ObjectDeployment = (\<lambda>obj w. (None, w)),
      List_ObjectSets = (\<lambda>selector w. (Inr [], w)),
      List_ObjectSlices = (\<lambda>owner w. (Inr [], w)),
      Create_ObjectSlice =
        (\<lambda>obj w. case w (ObjectKeyFromObject obj) of
                    Some stored \<Rightarrow> (Some NewAlreadyExists, w)
                  | None \<Rightarrow> (None, w(ObjectKeyFromObject obj \<mapsto> obj))),
      Get_ObjectSlice =
        (\<lambda>key obj w. case w key of
                        Some stored \<Rightarrow> ((None, stored), w)
                      | None \<Rightarrow> ((Some NewNotFound, obj), w)),
      Delete_ObjectSlice = (\<lambda>obj w. (None, w(ObjectKeyFromObject obj := None)))\<rparr>"

subsection \<open>Properties of the deployment reconciler's log\<close>

text \<open>
  The names a deployment and its revisions refer to, the key a slice gets, tests on log
  entries, and the shape of a retried update: updates that met a conflict, each followed by
  a read, and a last update (or a failed read) at the end.
\<close>

definition allReferenced :: "ObjectDeployment \<Rightarrow> ObjectSet list \<Rightarrow> string set" where
  "allReferenced deploy objectSets =
     referencedSlices (TemplatePhases deploy)
     \<union> (\<Union>objectSet \<in> set objectSets. referencedSlices (SetPhases objectSet))"

definition isDelete :: "DeployCall \<Rightarrow> bool" where
  "isDelete c = (case c of DeleteSlice k \<Rightarrow> True | _ \<Rightarrow> False)"

definition sliceKey ::
  "(json list \<Rightarrow> string) \<Rightarrow> ObjectDeployment \<Rightarrow> ObjectSlice \<Rightarrow> NamespacedName" where
  "sliceKey hash deploy pending =
     NamespacedName (Namespace deploy) (NameFor hash (Name deploy) (SliceObjects pending))"


definition isUpdate :: "DeployCall \<times> error option \<Rightarrow> bool" where
  "isUpdate entry = (case fst entry of UpdateDeployment obj \<Rightarrow> True | _ \<Rightarrow> False)"

definition isGet :: "DeployCall \<times> error option \<Rightarrow> bool" where
  "isGet entry = (case fst entry of GetDeployment key \<Rightarrow> True | _ \<Rightarrow> False)"

definition isConflictResult :: "DeployCall \<times> error option \<Rightarrow> bool" where
  "isConflictResult entry = (case snd entry of Some e \<Rightarrow> IsConflict e | None \<Rightarrow> False)"

fun rereadBetweenUpdates :: "(DeployCall \<times> error option) list \<Rightarrow> bool" where
  "rereadBetweenUpdates [] = True"
| "rereadBetweenUpdates [x] = isUpdate x"
| "rereadBetweenUpdates (x # y # rest) =
     (isUpdate x \<and> isConflictResult x \<and> isGet y
      \<and> (if snd y = None then rest \<noteq> [] \<and> rereadBetweenUpdates rest else rest = []))"

text \<open>
  The slice as \<open>reconcileSlice\<close> names it for a given hash function; and what it means for
  a client to behave as a store of slices, seen through a view \<open>stored\<close> of its world: a
  \<open>Create\<close> that returns nil has found the key free and stored the object under it, a
  \<open>Create\<close> that fails stores nothing and fails with Already-Exists where the key is
  taken, and \<open>Get\<close> stores nothing and returns what is stored under the key. A hash
  function that returns the value the tests observe, and a stored slice of that name with
  other content.
\<close>

definition namedSlice ::
  "(json list \<Rightarrow> string) \<Rightarrow> ObjectDeployment \<Rightarrow> ObjectSlice \<Rightarrow> ObjectSlice" where
  "namedSlice hash deploy pending =
     pending\<lparr>Name := NameFor hash (Name deploy) (SliceObjects pending),
             Namespace := Namespace deploy\<rparr>"

definition storeLike ::
  "'w DeployClient \<Rightarrow> ('w \<Rightarrow> NamespacedName \<Rightarrow> ObjectSlice option) \<Rightarrow> bool" where
  "storeLike c stored =
     ((\<forall>obj w. case Create_ObjectSlice c obj w of
         (None, w') \<Rightarrow> stored w (ObjectKeyFromObject obj) = None
            \<and> stored w' = (stored w)(ObjectKeyFromObject obj \<mapsto> obj)
       | (Some e, w') \<Rightarrow> stored w' = stored w
            \<and> (stored w (ObjectKeyFromObject obj) \<noteq> None \<longrightarrow> IsAlreadyExists e))
      \<and> (\<forall>key obj w. case Get_ObjectSlice c key obj w of
            ((r, got), w') \<Rightarrow> stored w' = stored w
              \<and> (case stored w key of Some x \<Rightarrow> r = None \<and> got = x | None \<Rightarrow> r \<noteq> None)))"

definition constantHash :: "nat \<Rightarrow> json list \<Rightarrow> string" where
  "constantHash collisionCount content = ''754bcb585''"

definition storedSlice :: ObjectSlice where
  "storedSlice =
     newObjectSlice\<lparr>Name := ''test-depl-754bcb585'', SliceObjects := [JObject [], JObject []]\<rparr>"

text \<open>
  Kinds of log entries: the calls of slice creation and those of garbage collection. An
  entry carries the phases when it is no \<open>Update\<close> or is an \<open>Update\<close> of an object with
  these phases.
\<close>

definition isSliceCall :: "DeployCall \<times> error option \<Rightarrow> bool" where
  "isSliceCall entry =
     (case fst entry of CreateSlice obj \<Rightarrow> True | GetSlice key \<Rightarrow> True | _ \<Rightarrow> False)"

definition isCollectionCall :: "DeployCall \<times> error option \<Rightarrow> bool" where
  "isCollectionCall entry =
     (case fst entry of
        ListObjectSets sel \<Rightarrow> True | ListObjectSlices owner \<Rightarrow> True
      | DeleteSlice key \<Rightarrow> True | _ \<Rightarrow> False)"

definition carriesPhases ::
  "ObjectSetTemplatePhase list \<Rightarrow> DeployCall \<times> error option \<Rightarrow> bool" where
  "carriesPhases phases entry =
     (case fst entry of UpdateDeployment obj \<Rightarrow> TemplatePhases obj = phases | _ \<Rightarrow> True)"

text \<open>
  When the retried update may surface an error: with no call made only when no attempt
  was allowed; after a read that failed, as that read's error; after an update that
  failed, as that update's error, and if that error is a conflict only once as many
  updates were tried as attempts were allowed. \<open>retriedUpdate\<close> is the whole shape of the
  calls of one retried update with its result: at most that many updates, each refused
  one but the last a conflict followed by a read, every update carrying the change, and
  nil only after an update the store accepted. \<open>oneRetriedUpdate\<close>: all updates of a log
  lie within one such run.
\<close>

definition surfaced :: "nat \<Rightarrow> error \<Rightarrow> (DeployCall \<times> error option) list \<Rightarrow> bool" where
  "surfaced attempts err issued =
     (if issued = [] then attempts = 0
      else (case last issued of
              (GetDeployment key, Some e) \<Rightarrow> err = Errorf ''getting ObjectDeployment: '' e []
            | (UpdateDeployment obj, Some e) \<Rightarrow>
                err = Errorf ''updating ObjectDeployment: '' e []
                \<and> (IsConflict e \<longrightarrow> length (filter isUpdate issued) = attempts)
            | _ \<Rightarrow> False))"

definition retriedUpdate ::
  "nat \<Rightarrow> ObjectSetTemplatePhase list \<Rightarrow> error option \<Rightarrow> (DeployCall \<times> error option) list
     \<Rightarrow> bool" where
  "retriedUpdate attempts phases result issued =
     (length (filter isUpdate issued) \<le> attempts
      \<and> rereadBetweenUpdates issued
      \<and> list_all (carriesPhases phases) issued
      \<and> (case result of
            None \<Rightarrow> issued \<noteq> [] \<and> isUpdate (last issued) \<and> snd (last issued) = None
          | Some err \<Rightarrow> surfaced attempts err issued))"

definition oneRetriedUpdate ::
  "nat \<Rightarrow> (DeployCall \<times> error option) list \<Rightarrow> bool" where
  "oneRetriedUpdate attempts calls =
     (\<exists>before issued after phases result.
        calls = before @ issued @ after
        \<and> list_all (\<lambda>entry. \<not> isUpdate entry) before
        \<and> list_all (\<lambda>entry. \<not> isUpdate entry) after
        \<and> (issued = [] \<or> retriedUpdate attempts phases result issued))"

text \<open>
  A store of deployments under optimistic concurrency: \<open>Update\<close> is accepted only with
  the resource version of the stored object and stores the object under the next version;
  otherwise it is a conflict. \<open>Get\<close> returns what is stored. A client whose every \<open>Update\<close>
  is a conflict. A stored deployment that another writer has changed since the stale copy
  was read.
\<close>

definition nextVersion :: "string \<Rightarrow> string" where
  "nextVersion rv = rv @ ''+''"

definition versionedClient :: "(NamespacedName \<rightharpoonup> ObjectDeployment) DeployClient" where
  "versionedClient =
     \<lparr>Get_ObjectDeployment =
        (\<lambda>key obj w. case w key of
                        Some stored \<Rightarrow> ((None, stored), w)
                      | None \<Rightarrow> ((Some NewNotFound, obj), w)),
      Create_ObjectDeployment =
        (\<lambda>obj w. case w (ObjectKeyFromObject obj) of
                    Some stored \<Rightarrow> (Some NewAlreadyExists, w)
                  | None \<Rightarrow>
                      (None, w(ObjectKeyFromObject obj
                                 \<mapsto> obj\<lparr>ResourceVersion := nextVersion []\<rparr>))),
      Update_ObjectDeployment =
        (\<lambda>obj w. case w (ObjectKeyFromObject obj) of
                    None \<Rightarrow> (Some NewNotFound, w)
                  | Some stored \<Rightarrow>
                      if ResourceVersion obj = ResourceVersion stored
                      then (None,
                            w(ObjectKeyFromObject obj
                                \<mapsto> obj\<lparr>ResourceVersion :=
                                          nextVersion (ResourceVersion stored)\<rparr>))
                      else (Some NewConflict, w)),
      List_ObjectSets = (\<lambda>selector w. (Inr [], w)),
      List_ObjectSlices = (\<lambda>owner w. (Inr [], w)),
      Create_ObjectSlice = (\<lambda>obj w. (None, w)),
      Get_ObjectSlice = (\<lambda>key obj w. ((Some NewNotFound, obj), w)),
      Delete_ObjectSlice = (\<lambda>obj w. (None, w))\<rparr>"

definition contendedClient :: "MockCalls DeployClient" where
  "contendedClient =
     unprogrammedClient
       \<lparr>Get_ObjectDeployment := (\<lambda>key obj w. ((None, obj), w)),
        Update_ObjectDeployment := (\<lambda>obj w. (Some NewConflict, w))\<rparr>"

definition staleDeploy :: ObjectDeployment where
  "staleDeploy = testDeploy\<lparr>ResourceVersion := ''6''\<rparr>"

definition storedDeploy :: ObjectDeployment where
  "storedDeploy = testDeploy\<lparr>ResourceVersion := ''7'', Selector := [(''app'', ''web'')]\<rparr>"

section \<open>Verified properties\<close>

subsection \<open>Finalizer helpers\<close>

lemma patch_resourceVersion_finalizerPatch:
  "patch_resourceVersion (finalizerPatch obj) = Some (ResourceVersion obj)"
  by (simp add: patch_resourceVersion_def finalizerPatch_def json_field_def)

lemma EnsureFinalizer_Calls:
  "Calls (snd (EnsureFinalizer c obj finalizer s)) =
     Calls s @ (if ContainsFinalizer obj finalizer then []
                else [(PatchCall (ObjectKeyFromObject obj)
                         (finalizerPatch (AddFinalizer obj finalizer)),
                       fst (fst (c (AddFinalizer obj finalizer)
                                   (finalizerPatch (AddFinalizer obj finalizer)) (World s))))])"
  by (auto simp: EnsureFinalizer_def json_Marshal_def c_Patch_def logged_def Let_def
        ObjectKeyFromObject_def AddFinalizer_def
        split: prod.splits option.splits)

lemma RemoveFinalizer_Calls:
  "Calls (snd (RemoveFinalizer c obj finalizer s)) =
     Calls s @ (if ContainsFinalizer obj finalizer
                then [(PatchCall (ObjectKeyFromObject obj)
                        (finalizerPatch (controllerutil_RemoveFinalizer obj finalizer)),
                       fst (fst (c (controllerutil_RemoveFinalizer obj finalizer)
                          (finalizerPatch (controllerutil_RemoveFinalizer obj finalizer))
                          (World s))))]
                else [])"
  by (auto simp: RemoveFinalizer_def json_Marshal_def c_Patch_def logged_def Let_def
        ObjectKeyFromObject_def controllerutil_RemoveFinalizer_def
        split: prod.splits option.splits)

lemma ResourceVersion_AddFinalizer:
  "ResourceVersion (AddFinalizer obj finalizer) = ResourceVersion obj"
  by (simp add: AddFinalizer_def)

lemma ResourceVersion_RemoveFinalizer:
  "ResourceVersion (controllerutil_RemoveFinalizer obj finalizer) = ResourceVersion obj"
  by (simp add: controllerutil_RemoveFinalizer_def)

text \<open>
  Claim C8. \<open>EnsureFinalizer\<close> on an object that already holds the finalizer returns nil,
  leaves the object as it is and issues no call; \<open>RemoveFinalizer\<close> on an object that does
  not hold it does the same. Whatever either of them appends to the log is at most one
  call, a Patch of that object whose payload carries the object's resourceVersion.
\<close>

theorem finalizers_idempotent_at_store:
  "(ContainsFinalizer obj finalizer \<longrightarrow>
      EnsureFinalizer c obj finalizer s = ((None, obj), s))
   \<and> (\<not> ContainsFinalizer obj finalizer \<longrightarrow>
      RemoveFinalizer c obj finalizer s = ((None, obj), s))
   \<and> (\<exists>issued. Calls (snd (EnsureFinalizer c obj finalizer s)) = Calls s @ issued
         \<and> length issued \<le> 1
         \<and> list_all (isPatchWithResourceVersion (ObjectKeyFromObject obj)
                       (ResourceVersion obj)) issued)
   \<and> (\<exists>issued. Calls (snd (RemoveFinalizer c obj finalizer s)) = Calls s @ issued
         \<and> length issued \<le> 1
         \<and> list_all (isPatchWithResourceVersion (ObjectKeyFromObject obj)
                       (ResourceVersion obj)) issued)"
proof (intro conjI impI)
  assume "ContainsFinalizer obj finalizer"
  then show "EnsureFinalizer c obj finalizer s = ((None, obj), s)"
    by (simp add: EnsureFinalizer_def)
next
  assume "\<not> ContainsFinalizer obj finalizer"
  then show "RemoveFinalizer c obj finalizer s = ((None, obj), s)"
    by (simp add: RemoveFinalizer_def)
next
  show "\<exists>issued. Calls (snd (EnsureFinalizer c obj finalizer s)) = Calls s @ issued
         \<and> length issued \<le> 1
         \<and> list_all (isPatchWithResourceVersion (ObjectKeyFromObject obj)
                       (ResourceVersion obj)) issued"
    by (simp add: EnsureFinalizer_Calls isPatchWithResourceVersion_def
          patch_resourceVersion_finalizerPatch ResourceVersion_AddFinalizer)
next
  show "\<exists>issued. Calls (snd (RemoveFinalizer c obj finalizer s)) = Calls s @ issued
         \<and> length issued \<le> 1
         \<and> list_all (isPatchWithResourceVersion (ObjectKeyFromObject obj)
                       (ResourceVersion obj)) issued"
    by (simp add: RemoveFinalizer_Calls isPatchWithResourceVersion_def
          patch_resourceVersion_finalizerPatch ResourceVersion_RemoveFinalizer)
qed

theorem finalizers_idempotent_at_store_witness:
  "ContainsFinalizer (exampleSecretSync\<lparr>Finalizers := [CachedFinalizer]\<rparr>) CachedFinalizer
   \<and> EnsureFinalizer (client_Patch okDeps) (exampleSecretSync\<lparr>Finalizers := [CachedFinalizer]\<rparr>)
        CachedFinalizer emptyCluster
      = ((None, exampleSecretSync\<lparr>Finalizers := [CachedFinalizer]\<rparr>), emptyCluster)
   \<and> \<not> ContainsFinalizer exampleSecretSync CachedFinalizer
   \<and> RemoveFinalizer (client_Patch okDeps) exampleSecretSync CachedFinalizer emptyCluster
      = ((None, exampleSecretSync), emptyCluster)
   \<and> Calls (snd (EnsureFinalizer (client_Patch okDeps) exampleSecretSync CachedFinalizer
                   emptyCluster))
      = [(PatchCall (NamespacedName ''ns'' ''sync'')
            (JObject [(''metadata'', JObject
               [(''resourceVersion'', JString ''7''),
                (''finalizers'', JArray [JString ''package-operator.run/cached''])])]),
          None)]"
  using finalizers_idempotent_at_store
          [of "exampleSecretSync\<lparr>Finalizers := [CachedFinalizer]\<rparr>" CachedFinalizer
              "client_Patch okDeps" emptyCluster]
        finalizers_idempotent_at_store
          [of exampleSecretSync CachedFinalizer "client_Patch okDeps" emptyCluster]
  by (simp add: ContainsFinalizer_def exampleSecretSync_def EnsureFinalizer_Calls
        emptyCluster_def okDeps_def AddFinalizer_def finalizerPatch_def
        ObjectKeyFromObject_def CachedFinalizer_def)

subsection \<open>Freeing the cache before the finalizer goes\<close>

lemma FreeCacheAndRemoveFinalizer_Calls:
  "\<exists>issued. Calls (snd (FreeCacheAndRemoveFinalizer c obj cache s)) = Calls s @ issued
      \<and> freedBeforePatch False issued"
proof (cases "fst (cache obj (World s))")
  case None
  then show ?thesis
    by (auto simp: FreeCacheAndRemoveFinalizer_def cache_Free_def logged_def
          RemoveFinalizer_Calls split: prod.splits)
next
  case (Some e)
  then show ?thesis
    by (auto simp: FreeCacheAndRemoveFinalizer_def cache_Free_def logged_def
          split: prod.splits)
qed

lemma FreeCacheAndRemoveFinalizer_error:
  assumes "fst (cache obj (World s)) = Some err"
  shows "FreeCacheAndRemoveFinalizer c obj cache s =
           ((Some (Errorf ''free cache: '' err []), obj),
            \<lparr>Calls = Calls s @ [(FreeCall (ObjectKeyFromObject obj), Some err)],
             World = snd (cache obj (World s))\<rparr>)"
  using assms
  by (auto simp: FreeCacheAndRemoveFinalizer_def cache_Free_def logged_def
        split: prod.splits)

lemma deletionReconciler_Calls:
  "\<exists>issued. Calls (snd (deletionReconciler_Reconcile r secretSync s)) = Calls s @ issued
      \<and> freedBeforePatch False issued"
proof -
  let ?s1 = "snd (call (RemoveDynamicCacheLabelCall (Src (Spec secretSync)))
                (objecthandling_RemoveDynamicCacheLabel r (sourceSecretRef secretSync)) s)"
  have s1: "\<exists>r0. Calls ?s1 = Calls s @ [(RemoveDynamicCacheLabelCall (Src (Spec secretSync)), r0)]"
    by (simp add: call_def logged_def split: prod.splits)
  obtain issued where
    i: "Calls (snd (FreeCacheAndRemoveFinalizer (client_Patch r) secretSync
           (dynamicCache_Free r) ?s1)) = Calls ?s1 @ issued" "freedBeforePatch False issued"
    using FreeCacheAndRemoveFinalizer_Calls by blast
  show ?thesis
    using s1 i
    by (auto simp: deletionReconciler_Reconcile_def split: prod.splits option.splits)
qed

text \<open>
  Claim C6. \<open>FreeCacheAndRemoveFinalizer\<close> calls \<open>Free\<close> first. When \<open>Free\<close> returns an
  error, the function returns that error behind the text "free cache: ", the log gains the
  failed \<open>Free\<close> and nothing else (no Patch), and the object comes back as it went in,
  its finalizers included. In every run of the function, and of \<open>deletionReconciler\<close>'s
  \<open>Reconcile\<close> that calls it, a Patch appears in the log only after a \<open>Free\<close> that
  returned no error.
\<close>

theorem cache_freed_before_finalizer_removed:
  "(fst (cache obj (World s)) = Some err \<longrightarrow>
      FreeCacheAndRemoveFinalizer c obj cache s =
        ((Some (Errorf ''free cache: '' err []), obj),
         \<lparr>Calls = Calls s @ [(FreeCall (ObjectKeyFromObject obj), Some err)],
          World = snd (cache obj (World s))\<rparr>))
   \<and> (\<exists>issued. Calls (snd (FreeCacheAndRemoveFinalizer c obj cache s)) = Calls s @ issued
         \<and> freedBeforePatch False issued)
   \<and> (\<exists>issued. Calls (snd (deletionReconciler_Reconcile r secretSync s)) = Calls s @ issued
         \<and> freedBeforePatch False issued)"
  using FreeCacheAndRemoveFinalizer_error [of cache obj s err c]
        FreeCacheAndRemoveFinalizer_Calls [of c obj cache s]
        deletionReconciler_Calls [of r secretSync s]
  by blast

theorem cache_freed_before_finalizer_removed_witness:
  "fst (failingFree deletingSecretSync (World emptyCluster)) = Some (ErrorsNew ''cache busy'')
   \<and> FreeCacheAndRemoveFinalizer (client_Patch okDeps) deletingSecretSync failingFree
        emptyCluster
      = ((Some (Errorf ''free cache: '' (ErrorsNew ''cache busy'') []), deletingSecretSync),
         \<lparr>Calls = [(FreeCall (NamespacedName ''ns'' ''sync''),
                     Some (ErrorsNew ''cache busy''))],
          World = 0\<rparr>)
   \<and> Finalizers (snd (fst (FreeCacheAndRemoveFinalizer (client_Patch okDeps)
        deletingSecretSync failingFree emptyCluster))) = [CachedFinalizer]
   \<and> map fst (Calls (snd (deletionReconciler_Reconcile okDeps deletingSecretSync
        emptyCluster)))
      = [RemoveDynamicCacheLabelCall (NamespacedName ''ns'' ''src''),
         FreeCall (NamespacedName ''ns'' ''sync''),
         PatchCall (NamespacedName ''ns'' ''sync'')
           (JObject [(''metadata'', JObject
              [(''resourceVersion'', JString ''7''), (''finalizers'', JArray [])])])]"
  using cache_freed_before_finalizer_removed
          [of failingFree deletingSecretSync emptyCluster "ErrorsNew ''cache busy''"
              "client_Patch okDeps" okDeps deletingSecretSync]
  by (simp add: failingFree_def deletingSecretSync_def exampleSecretSync_def emptyCluster_def
        ObjectKeyFromObject_def deletionReconciler_Reconcile_def IsZero_def okDeps_def
        call_def logged_def IgnoreNotFound_def FreeCacheAndRemoveFinalizer_def
        cache_Free_def RemoveFinalizer_def ContainsFinalizer_def CachedFinalizer_def
        controllerutil_RemoveFinalizer_def finalizerPatch_def json_Marshal_def c_Patch_def
        sourceSecretRef_def)

subsection \<open>secretReconciler: paused or deleting\<close>

text \<open>
  Claim C10. For a SecretSync that is paused or has a non-zero deletion timestamp,
  \<open>secretReconciler\<close>'s \<open>Reconcile\<close> returns the empty result and a nil error; the
  SecretSync (its status included), the call log and the world (the store with the source
  and destination secrets) come back as they went in.
\<close>


theorem paused_or_deleting_is_noop:
  assumes "Paused (Spec secretSync) \<or> \<not> IsZero (DeletionTimestamp secretSync)"
  shows "secretReconciler_Reconcile r secretSync s =
           ((Return (\<lparr>statusChanged = False\<rparr>, None), secretSync), s)"
  using assms by (simp add: secretReconciler_Reconcile_def)

theorem paused_or_deleting_is_noop_witness:
  "Paused (Spec (exampleSecretSync\<lparr>Spec := (Spec exampleSecretSync)\<lparr>Paused := True\<rparr>\<rparr>))
   \<and> secretReconciler_Reconcile okDeps
        (exampleSecretSync\<lparr>Spec := (Spec exampleSecretSync)\<lparr>Paused := True\<rparr>\<rparr>) emptyCluster
      = ((Return (\<lparr>statusChanged = False\<rparr>, None),
          exampleSecretSync\<lparr>Spec := (Spec exampleSecretSync)\<lparr>Paused := True\<rparr>\<rparr>),
         emptyCluster)
   \<and> \<not> IsZero (DeletionTimestamp deletingSecretSync)
   \<and> secretReconciler_Reconcile okDeps deletingSecretSync emptyCluster
      = ((Return (\<lparr>statusChanged = False\<rparr>, None), deletingSecretSync), emptyCluster)
   \<and> Calls (snd (secretReconciler_Reconcile okDeps exampleSecretSync emptyCluster)) \<noteq> []"
proof -
  have p: "Paused (Spec (exampleSecretSync\<lparr>Spec := (Spec exampleSecretSync)\<lparr>Paused := True\<rparr>\<rparr>))"
    by simp
  have d: "\<not> IsZero (DeletionTimestamp deletingSecretSync)"
    by (simp add: deletingSecretSync_def IsZero_def)
  have live: "Calls (snd (secretReconciler_Reconcile okDeps exampleSecretSync emptyCluster)) \<noteq> []"
    by (simp add: secretReconciler_Reconcile_def exampleSecretSync_def emptyCluster_def
          IsZero_def okDeps_def watchSource_def EnsureCachedFinalizer_def EnsureFinalizer_def
          ContainsFinalizer_def AddFinalizer_def json_Marshal_def c_Patch_def logged_def
          call_def callv_def errorOf_def srcReaderForStrategy_def reader_Get_def
          updateSyncStatus_def SetStatusCondition_def FindStatusCondition_def
          sourceSecretRef_def Let_def)
  show ?thesis
    using p d live
      paused_or_deleting_is_noop [of "exampleSecretSync\<lparr>Spec := (Spec exampleSecretSync)\<lparr>Paused := True\<rparr>\<rparr>" okDeps emptyCluster]
      paused_or_deleting_is_noop [of deletingSecretSync okDeps emptyCluster]
    by simp
qed

subsection \<open>Errors carry the context of the failing step\<close>

lemma Error_wrap: "Error (wrap ctx e) = concat ctx @ Error e"
  by (induction ctx) simp_all

lemma wrapsFailedCall_last:
  "wrapsFailedCall contextOf err (calls @ [(c, Some e)]) =
     (contextOf c (if calls = [] then None else Some (fst (last calls))) \<noteq> []
      \<and> err = wrap (contextOf c (if calls = [] then None else Some (fst (last calls)))) e)"
  by (cases calls rule: rev_cases) (auto simp: wrapsFailedCall_def split: prod.splits)

lemma wrapsFailedCall_last2:
  "wrapsFailedCall contextOf err (calls @ [(p, r), (c, Some e)]) =
     (contextOf c (Some p) \<noteq> [] \<and> err = wrap (contextOf c (Some p)) e)"
  using wrapsFailedCall_last [of contextOf err "calls @ [(p, r)]" c e] by simp

lemma watch_after_GetOrApply:
  "isGetOrApply p \<Longrightarrow>
   secretReconciler_context (WatchCall owner k) (Some p) = [''watching new resource: '']"
  by (cases p) (simp_all add: isGetOrApply_def)

lemma EnsureFinalizer_failed:
  assumes "EnsureFinalizer c obj finalizer s = ((Some err, obj'), s')"
  shows "\<exists>e k p. err = Errorf ''adding finalizer: '' e []
           \<and> Calls s' = Calls s @ [(PatchCall k p, Some e)]"
  using assms
  by (auto simp: EnsureFinalizer_def json_Marshal_def c_Patch_def logged_def Let_def
        split: if_splits prod.splits option.splits)

lemma RemoveFinalizer_failed:
  assumes "RemoveFinalizer c obj finalizer s = ((Some err, obj'), s')"
  shows "\<exists>e k p. err = Errorf ''removing finalizer: '' e []
           \<and> Calls s' = Calls s @ [(PatchCall k p, Some e)]"
  using assms
  by (auto simp: RemoveFinalizer_def json_Marshal_def c_Patch_def logged_def Let_def
        split: if_splits prod.splits option.splits)

lemma FreeCacheAndRemoveFinalizer_failed:
  assumes "FreeCacheAndRemoveFinalizer c obj cache s = ((Some err, obj'), s')"
  shows "(\<exists>e k. err = Errorf ''free cache: '' e []
            \<and> Calls s' = Calls s @ [(FreeCall k, Some e)])
         \<or> (\<exists>e k k' p. err = Errorf ''removing finalizer: '' e []
            \<and> Calls s' = Calls s @ [(FreeCall k', None), (PatchCall k p, Some e)])"
proof (cases "fst (cache obj (World s))")
  case None
  obtain w where w: "cache obj (World s) = (None, w)" using None by (metis prod.collapse)
  let ?s1 = "logged (FreeCall (ObjectKeyFromObject obj)) None w s"
  have "RemoveFinalizer c obj CachedFinalizer ?s1 = ((Some err, obj'), s')"
    using assms w by (simp add: FreeCacheAndRemoveFinalizer_def cache_Free_def)
  from RemoveFinalizer_failed [OF this] show ?thesis
    by (auto simp: logged_def)
next
  case (Some e)
  then show ?thesis
    using assms
    by (auto simp: FreeCacheAndRemoveFinalizer_def cache_Free_def logged_def
          split: prod.splits)
qed

lemma watchSource_failed:
  assumes "watchSource r secretSync s = ((Some err, secretSync'), s')"
  shows "wrapsFailedCall secretReconciler_context err (Calls s')"
proof (cases "Watch (Strategy (Spec secretSync)) \<noteq> None")
  case False
  then show ?thesis using assms by (simp add: watchSource_def)
next
  case True
  obtain r1 ss1 s1 where
    e1: "EnsureCachedFinalizer (client_Patch r) secretSync s = ((r1, ss1), s1)"
    by (metis surj_pair)
  show ?thesis
  proof (cases r1)
    case (Some e)
    with e1 obtain e0 k p where
      "e = Errorf ''adding finalizer: '' e0 []" "Calls s1 = Calls s @ [(PatchCall k p, Some e0)]"
      using EnsureFinalizer_failed [of "client_Patch r" secretSync CachedFinalizer s e ss1 s1]
      by (auto simp: EnsureCachedFinalizer_def)
    then show ?thesis
      using assms True e1 Some
      by (auto simp: watchSource_def wrapsFailedCall_last)
  next
    case None
    obtain r2 s2 where
      c2: "call (EnsureDynamicCacheLabelCall (Src (Spec ss1)))
             (objecthandling_EnsureDynamicCacheLabel r (sourceSecretRef ss1)) s1 = (r2, s2)"
      by (metis surj_pair)
    have l2: "Calls s2 = Calls s1 @ [(EnsureDynamicCacheLabelCall (Src (Spec ss1)), r2)]"
      using c2 by (auto simp: call_def logged_def split: prod.splits)
    show ?thesis
    proof (cases r2)
      case (Some e)
      then show ?thesis
        using assms True e1 None c2 l2
        by (auto simp: watchSource_def wrapsFailedCall_last)
    next
      case n2: None
      obtain r3 s3 where
        c3: "call (WatchCall (ObjectKeyFromObject ss1) (Src (Spec ss1)))
               (dynamicCache_Watch r ss1 (sourceSecretRef ss1)) s2 = (r3, s3)"
        by (metis surj_pair)
      have l3: "Calls s3 = Calls s1 @ [(EnsureDynamicCacheLabelCall (Src (Spec ss1)), None),
                  (WatchCall (ObjectKeyFromObject ss1) (Src (Spec ss1)), r3)]"
        using c3 l2 n2 by (auto simp: call_def logged_def split: prod.splits)
      show ?thesis
        using assms True e1 None c2 n2 c3 l3
        by (auto simp: watchSource_def wrapsFailedCall_last2 split: option.splits)
    qed
  qed
qed

lemma syncDest_failed:
  assumes "syncDest r secretSync srcSecret dests controllerOf lut s = (Inl err, s')"
    and "Calls s = calls @ [(p, rp)]" and "isGetOrApply p"
  shows "wrapsFailedCall secretReconciler_context err (Calls s')"
  using assms
proof (induction dests arbitrary: controllerOf lut s calls p rp)
  case Nil
  then show ?case by simp
next
  case (Cons dest rest)
  let ?target = "targetObjectFor (constants r) secretSync srcSecret dest"
  obtain r1 s1 where
    c1: "call (WatchCall (ObjectKeyFromObject secretSync) dest)
           (dynamicCache_Watch r secretSync ?target) s = (r1, s1)"
    by (metis surj_pair)
  have l1: "Calls s1 = calls @ [(p, rp), (WatchCall (ObjectKeyFromObject secretSync) dest, r1)]"
    using c1 Cons.prems(2) by (auto simp: call_def logged_def split: prod.splits)
  show ?case
  proof (cases r1)
    case (Some e)
    then have "err = Errorf ''watching new resource: '' e []" "s' = s1"
      using Cons.prems(1) c1 by (simp_all add: Let_def)
    then show ?thesis
      using l1 Some watch_after_GetOrApply [OF Cons.prems(3)]
      by (simp add: wrapsFailedCall_last2)
  next
    case None
    obtain r2 s2 where
      c2: "callv (SetControllerReferenceCall (ObjectKeyFromObject secretSync) dest)
             (ownerStrategy_SetControllerReference r secretSync ?target) s1 = (r2, s2)"
      by (metis surj_pair)
    have l2: "Calls s2 = Calls s1
                @ [(SetControllerReferenceCall (ObjectKeyFromObject secretSync) dest, errorOf r2)]"
      using c2 by (auto simp: callv_def logged_def split: prod.splits)
    show ?thesis
    proof (cases r2)
      case (Inl e)
      then have "err = Errorf ''setting controller reference: '' e []" "s' = s2"
        using Cons.prems(1) c1 None c2 by (simp_all add: Let_def)
      then show ?thesis
        using l2 Inl by (simp add: wrapsFailedCall_last errorOf_def)
    next
      case (Inr target2)
      obtain r3 s3 where
        c3: "call (ApplyCall dest) (client_Apply r target2) s2 = (r3, s3)"
        by (metis surj_pair)
      have l3: "Calls s3 = Calls s2 @ [(ApplyCall dest, r3)]"
        using c3 by (auto simp: call_def logged_def split: prod.splits)
      show ?thesis
      proof (cases r3)
        case (Some e)
        then have "err = Errorf ''patching destination secret: '' e []" "s' = s3"
          using Cons.prems(1) c1 None c2 Inr c3 by (simp_all add: Let_def)
        then show ?thesis
          using l3 Some by (simp add: wrapsFailedCall_last)
      next
        case n3: None
        have rest: "syncDest r secretSync srcSecret rest (controllerOf @ [dest])
                      (insert dest lut) s3 = (Inl err, s')"
          using Cons.prems(1) c1 None c2 Inr c3 n3 by (simp add: Let_def)
        show ?thesis
          by (rule Cons.IH [OF rest, of "Calls s2" "ApplyCall dest" None])
             (simp_all add: l3 n3 isGetOrApply_def)
      qed
    qed
  qed
qed

lemma deleteUnmanaged_failed:
  assumes "deleteUnmanaged r lut items s = (Some err, s')"
  shows "wrapsFailedCall secretReconciler_context err (Calls s')"
  using assms
proof (induction items arbitrary: s)
  case Nil
  then show ?case by simp
next
  case (Cons managedSecret rest)
  then show ?case
    by (auto simp: call_def logged_def wrapsFailedCall_last IgnoreNotFound_def
          split: prod.splits option.splits if_splits)
qed

lemma secretReconciler_failed:
  assumes "secretReconciler_Reconcile r secretSync s = ((Return (res, Some err), secretSync'), s')"
  shows "wrapsFailedCall secretReconciler_context err (Calls s')"
proof (cases "Paused (Spec secretSync) \<or> \<not> IsZero (DeletionTimestamp secretSync)")
  case True
  then show ?thesis using assms by (simp add: secretReconciler_Reconcile_def)
next
  case False
  obtain r1 ss1 s1 where w: "watchSource r secretSync s = ((r1, ss1), s1)"
    by (metis surj_pair)
  show ?thesis
  proof (cases r1)
    case (Some e)
    then show ?thesis
      using assms False w watchSource_failed [of r secretSync s e ss1 s1]
      by (simp add: secretReconciler_Reconcile_def)
  next
    case None
    show ?thesis
    proof (cases "srcReaderForStrategy (Strategy (Spec ss1))")
      case (Panic e)
      then show ?thesis
        using assms False w None by (simp add: secretReconciler_Reconcile_def)
    next
      case (Return reader)
      obtain g s2 where g: "reader_Get r reader (Src (Spec ss1)) s1 = (g, s2)"
        by (metis surj_pair)
      have l2: "Calls s2 = Calls s1 @ [(GetCall reader (Src (Spec ss1)), errorOf g)]"
        using g
        by (auto simp: reader_Get_def callv_def logged_def split: Reader.splits prod.splits)
      show ?thesis
      proof (cases g)
        case (Inl e)
        then show ?thesis
          using assms False w None Return g l2
          by (auto simp: secretReconciler_Reconcile_def wrapsFailedCall_last errorOf_def)
      next
        case (Inr srcSecret)
        obtain d s3 where d: "syncDest r ss1 srcSecret (Dest (Spec ss1)) [] {} s2 = (d, s3)"
          by (metis surj_pair)
        show ?thesis
        proof (cases d)
          case (Inl e)
          have "wrapsFailedCall secretReconciler_context e (Calls s3)"
            by (rule syncDest_failed [OF d [unfolded Inl] l2]) (simp add: isGetOrApply_def)
          then show ?thesis
            using assms False w None Return g Inr d Inl
            by (simp add: secretReconciler_Reconcile_def)
        next
          case (Inr cl)
          obtain controllerOf lut where cl: "cl = (controllerOf, lut)"
            by (cases cl)
          obtain l s4 where l: "callv (ListCall (Name ss1))
                    (dynamicCache_List r ManagedByLabel (Name ss1)) s3 = (l, s4)"
            by (metis surj_pair)
          show ?thesis
          proof (cases l)
            case (Inl e)
            then have "Calls s4 = Calls s3 @ [(ListCall (Name ss1), Some e)]"
              using l by (auto simp: callv_def logged_def errorOf_def split: prod.splits)
            then show ?thesis
              using assms False w None Return g \<open>g = Inr srcSecret\<close> d Inr cl l Inl
              by (auto simp: secretReconciler_Reconcile_def wrapsFailedCall_last)
          next
            case (Inr items)
            obtain u s5 where u: "deleteUnmanaged r lut items s4 = (u, s5)"
              by (metis surj_pair)
            show ?thesis
              using assms False w None Return g \<open>g = Inr srcSecret\<close> d \<open>d = Inr cl\<close> cl l Inr u
                deleteUnmanaged_failed [of r lut items s4 _ s5]
              by (auto simp: secretReconciler_Reconcile_def split: option.splits prod.splits)
          qed
        qed
      qed
    qed
  qed
qed

lemma secretReconciler_panic:
  assumes "secretReconciler_Reconcile r secretSync s = ((Panic e, secretSync'), s')"
  shows "e = ErrInvalidStrategy \<and> Watch (Strategy (Spec secretSync')) = None
         \<and> Poll (Strategy (Spec secretSync')) = None"
proof (cases "Paused (Spec secretSync) \<or> \<not> IsZero (DeletionTimestamp secretSync)")
  case True
  then show ?thesis using assms by (simp add: secretReconciler_Reconcile_def)
next
  case False
  obtain r1 ss1 s1 where w: "watchSource r secretSync s = ((r1, ss1), s1)"
    by (metis surj_pair)
  show ?thesis
  proof (cases r1)
    case (Some e1)
    then show ?thesis using assms False w by (simp add: secretReconciler_Reconcile_def)
  next
    case None
    show ?thesis
    proof (cases "srcReaderForStrategy (Strategy (Spec ss1))")
      case (Panic e2)
      then have "e2 = ErrInvalidStrategy \<and> Watch (Strategy (Spec ss1)) = None
                 \<and> Poll (Strategy (Spec ss1)) = None"
        by (cases "Watch (Strategy (Spec ss1))"; cases "Poll (Strategy (Spec ss1))")
           (simp_all add: srcReaderForStrategy_def)
      then show ?thesis
        using assms False w None Panic by (simp add: secretReconciler_Reconcile_def)
    next
      case (Return reader)
      then show ?thesis
        using assms False w None
        by (auto simp: secretReconciler_Reconcile_def
              split: prod.splits sum.splits option.splits)
    qed
  qed
qed

lemma secretReconciler_no_strategy:
  assumes "\<not> Paused (Spec secretSync)" and "IsZero (DeletionTimestamp secretSync)"
    and "Watch (Strategy (Spec secretSync)) = None"
    and "Poll (Strategy (Spec secretSync)) = None"
  shows "secretReconciler_Reconcile r secretSync s = ((Panic ErrInvalidStrategy, secretSync), s)"
  using assms
  by (simp add: secretReconciler_Reconcile_def watchSource_def srcReaderForStrategy_def)

lemma deletionReconciler_failed:
  assumes "deletionReconciler_Reconcile r secretSync s = (((res, Some err), secretSync'), s')"
  shows "if Watch (Strategy (Spec secretSync)) \<noteq> None
         then wrapsFailedCall deletionReconciler_context err (Calls s')
         else err = Errorf [] ErrInvalidStrategy '': strategy not implemented'' \<and> s' = s"
proof (cases "IsZero (DeletionTimestamp secretSync)
              \<or> Poll (Strategy (Spec secretSync)) \<noteq> None")
  case True
  then show ?thesis
    using assms by (auto simp: deletionReconciler_Reconcile_def split: if_splits)
next
  case False
  show ?thesis
  proof (cases "Watch (Strategy (Spec secretSync)) \<noteq> None")
    case nowatch: False
    then show ?thesis
      using assms False by (auto simp: deletionReconciler_Reconcile_def)
  next
    case True
    obtain l s1 where l: "call (RemoveDynamicCacheLabelCall (Src (Spec secretSync)))
                (objecthandling_RemoveDynamicCacheLabel r (sourceSecretRef secretSync)) s
                = (l, s1)"
      by (metis surj_pair)
    then have c1: "Calls s1 = Calls s @ [(RemoveDynamicCacheLabelCall (Src (Spec secretSync)), l)]"
      by (auto simp: call_def logged_def split: prod.splits)
    show ?thesis
    proof (cases "IgnoreNotFound l")
      case (Some e)
      then have "l = Some e"
        by (auto simp: IgnoreNotFound_def split: option.splits if_splits)
      then show ?thesis
        using assms False True l c1 Some
        by (auto simp: deletionReconciler_Reconcile_def wrapsFailedCall_last)
    next
      case None
      obtain f ss2 s2 where f: "FreeCacheAndRemoveFinalizer (client_Patch r) secretSync
                          (dynamicCache_Free r) s1 = ((f, ss2), s2)"
        by (metis surj_pair)
      show ?thesis
      proof (cases f)
        case fn: None
        then show ?thesis
          using assms False True l None f by (auto simp: deletionReconciler_Reconcile_def)
      next
        case (Some e)
        from FreeCacheAndRemoveFinalizer_failed [OF f [unfolded Some]]
        show ?thesis
          using assms False True l None f Some
          by (auto simp: deletionReconciler_Reconcile_def wrapsFailedCall_last
                wrapsFailedCall_last2)
      qed
    qed
  qed
qed

lemma GetControllerOf_loop_failed:
  "GetControllerOf_loop GVKForObject scheme IsController owner actualObjects controllerOf
     = Inl err \<Longrightarrow>
   \<exists>actualObj \<in> set actualObjects.
     IsController owner actualObj \<and> GVKForObject actualObj scheme = Inl err"
  by (induction actualObjects arbitrary: controllerOf)
     (auto split: if_splits sum.splits)

lemma finalizers_failed:
  "(EnsureFinalizer c obj finalizer t = ((Some err, obj'), t') \<longrightarrow>
      wrapsFailedCall EnsureFinalizer_context err (Calls t'))
   \<and> (RemoveFinalizer c obj finalizer t = ((Some err, obj'), t') \<longrightarrow>
      wrapsFailedCall RemoveFinalizer_context err (Calls t'))
   \<and> (FreeCacheAndRemoveFinalizer c obj cache t = ((Some err, obj'), t') \<longrightarrow>
      wrapsFailedCall FreeCacheAndRemoveFinalizer_context err (Calls t'))"
  using EnsureFinalizer_failed [of c obj finalizer t err obj' t']
        RemoveFinalizer_failed [of c obj finalizer t err obj' t']
        FreeCacheAndRemoveFinalizer_failed [of c obj cache t err obj' t']
  by (auto simp: wrapsFailedCall_last wrapsFailedCall_last2)

lemma pauseReconciler_no_error:
  "snd (fst (fst (pauseReconciler_Reconcile r secretSync s))) = None"
  by (simp add: pauseReconciler_Reconcile_def Let_def split: prod.splits)

text \<open>
  Claim C7, as amended. Every error that \<open>secretReconciler\<close>'s \<open>Reconcile\<close> returns, every
  error that \<open>deletionReconciler\<close>'s \<open>Reconcile\<close> returns for a SecretSync with the watch
  strategy, and every error that \<open>EnsureFinalizer\<close>, \<open>RemoveFinalizer\<close> or
  \<open>FreeCacheAndRemoveFinalizer\<close> returns is the error of the last call made, wrapped in
  the context texts of the step that made that call; \<open>pauseReconciler\<close> returns no error.
  The string of a wrapped error starts with its context texts, and the texts of different
  steps differ, so the string names the step. Three errors come without the context of a
  step: for a deleting SecretSync with neither strategy \<open>deletionReconciler\<close> returns
  \<open>ErrInvalidStrategy\<close> followed by ": strategy not implemented", with no call made;
  \<open>GetControllerOf\<close> returns the error of \<open>GVKForObject\<close> as it is; and
  \<open>secretReconciler\<close> does not return but panics with \<open>ErrInvalidStrategy\<close> when the
  SecretSync at hand has neither strategy.
\<close>

theorem errors_carry_operation_context:
  "(secretReconciler_Reconcile r secretSync s = ((Return (res, Some err), secretSync'), s')
      \<longrightarrow> wrapsFailedCall secretReconciler_context err (Calls s'))
   \<and> (deletionReconciler_Reconcile r secretSync s = (((res, Some err), secretSync'), s')
      \<longrightarrow> (if Watch (Strategy (Spec secretSync)) \<noteq> None
           then wrapsFailedCall deletionReconciler_context err (Calls s')
           else err = Errorf [] ErrInvalidStrategy '': strategy not implemented'' \<and> s' = s))
   \<and> snd (fst (fst (pauseReconciler_Reconcile r secretSync s))) = None
   \<and> (EnsureFinalizer c obj finalizer t = ((Some err, obj'), t') \<longrightarrow>
      wrapsFailedCall EnsureFinalizer_context err (Calls t'))
   \<and> (RemoveFinalizer c obj finalizer t = ((Some err, obj'), t') \<longrightarrow>
      wrapsFailedCall RemoveFinalizer_context err (Calls t'))
   \<and> (FreeCacheAndRemoveFinalizer c obj cache t = ((Some err, obj'), t') \<longrightarrow>
      wrapsFailedCall FreeCacheAndRemoveFinalizer_context err (Calls t'))
   \<and> (GetControllerOf GVKForObject scheme IsController owner actualObjects = Inl err \<longrightarrow>
      (\<exists>actualObj \<in> set actualObjects.
         IsController owner actualObj \<and> GVKForObject actualObj scheme = Inl err))
   \<and> (secretReconciler_Reconcile r secretSync s = ((Panic e, secretSync'), s') \<longrightarrow>
      e = ErrInvalidStrategy \<and> Watch (Strategy (Spec secretSync')) = None
      \<and> Poll (Strategy (Spec secretSync')) = None)
   \<and> (\<not> Paused (Spec secretSync) \<and> IsZero (DeletionTimestamp secretSync)
      \<and> Watch (Strategy (Spec secretSync)) = None \<and> Poll (Strategy (Spec secretSync)) = None
      \<longrightarrow> secretReconciler_Reconcile r secretSync s
            = ((Panic ErrInvalidStrategy, secretSync), s))
   \<and> Error (wrap ctx e') = concat ctx @ Error e'
   \<and> distinct (map concat
        [secretReconciler_context (PatchCall k p) before,
         secretReconciler_context (EnsureDynamicCacheLabelCall k) before,
         secretReconciler_context (WatchCall k k') (Some (EnsureDynamicCacheLabelCall k')),
         secretReconciler_context (WatchCall k k') (Some (GetCall rd k')),
         secretReconciler_context (GetCall rd k) before,
         secretReconciler_context (SetControllerReferenceCall k k') before,
         secretReconciler_context (ApplyCall k) before,
         secretReconciler_context (ListCall v) before,
         secretReconciler_context (DeleteCall k) before,
         deletionReconciler_context (RemoveDynamicCacheLabelCall k) before,
         deletionReconciler_context (FreeCall k) before,
         deletionReconciler_context (PatchCall k p) before])"
proof -
  have d: "distinct (map concat
        [secretReconciler_context (PatchCall k p) before,
         secretReconciler_context (EnsureDynamicCacheLabelCall k) before,
         secretReconciler_context (WatchCall k k') (Some (EnsureDynamicCacheLabelCall k')),
         secretReconciler_context (WatchCall k k') (Some (GetCall rd k')),
         secretReconciler_context (GetCall rd k) before,
         secretReconciler_context (SetControllerReferenceCall k k') before,
         secretReconciler_context (ApplyCall k) before,
         secretReconciler_context (ListCall v) before,
         secretReconciler_context (DeleteCall k) before,
         deletionReconciler_context (RemoveDynamicCacheLabelCall k) before,
         deletionReconciler_context (FreeCall k) before,
         deletionReconciler_context (PatchCall k p) before])"
    by simp
  have g: "GetControllerOf GVKForObject scheme IsController owner actualObjects = Inl err \<longrightarrow>
      (\<exists>actualObj \<in> set actualObjects.
         IsController owner actualObj \<and> GVKForObject actualObj scheme = Inl err)"
    using GetControllerOf_loop_failed [of GVKForObject scheme IsController owner actualObjects "[]" err]
    by (simp add: GetControllerOf_def)
  have pn: "secretReconciler_Reconcile r secretSync s = ((Panic e, secretSync'), s') \<longrightarrow>
      e = ErrInvalidStrategy \<and> Watch (Strategy (Spec secretSync')) = None
      \<and> Poll (Strategy (Spec secretSync')) = None"
    using secretReconciler_panic [of r secretSync s e secretSync' s'] by blast
  have ns: "\<not> Paused (Spec secretSync) \<and> IsZero (DeletionTimestamp secretSync)
      \<and> Watch (Strategy (Spec secretSync)) = None \<and> Poll (Strategy (Spec secretSync)) = None
      \<longrightarrow> secretReconciler_Reconcile r secretSync s
            = ((Panic ErrInvalidStrategy, secretSync), s)"
    using secretReconciler_no_strategy [of secretSync r s] by blast
  have sr: "secretReconciler_Reconcile r secretSync s = ((Return (res, Some err), secretSync'), s')
      \<longrightarrow> wrapsFailedCall secretReconciler_context err (Calls s')"
    using secretReconciler_failed [of r secretSync s res err secretSync' s'] by blast
  have dr: "deletionReconciler_Reconcile r secretSync s = (((res, Some err), secretSync'), s')
      \<longrightarrow> (if Watch (Strategy (Spec secretSync)) \<noteq> None
           then wrapsFailedCall deletionReconciler_context err (Calls s')
           else err = Errorf [] ErrInvalidStrategy '': strategy not implemented'' \<and> s' = s)"
    using deletionReconciler_failed [of r secretSync s res err secretSync' s'] by blast
  show ?thesis
    using sr dr pauseReconciler_no_error [of r secretSync s]
      finalizers_failed [of c obj finalizer t err obj' t' cache]
      g pn ns Error_wrap [of ctx e'] d
    by (intro conjI) blast+
qed

text \<open>
  Claim C7 as stated fails: \<open>GetControllerOf\<close> hands on the error of \<open>GVKForObject\<close> with
  no text before it, \<open>deletionReconciler\<close> answers a SecretSync without strategy with an
  error that names no step, and \<open>secretReconciler\<close> panics on one.
\<close>

theorem not_every_error_carries_context:
  "GetControllerOf failingGVKForObject () controlsAll exampleSecretSync [emptySecret]
     = Inl unregisteredKind
   \<and> \<not> hasContext unregisteredKind
   \<and> Error unregisteredKind = ''no kind is registered for the type''
   \<and> deletionReconciler_Reconcile okDeps strategylessDeleting emptyCluster
       = (((\<lparr>statusChanged = False\<rparr>,
            Some (Errorf [] ErrInvalidStrategy '': strategy not implemented'')),
           strategylessDeleting), emptyCluster)
   \<and> \<not> hasContext (Errorf [] ErrInvalidStrategy '': strategy not implemented'')
   \<and> Error (Errorf [] ErrInvalidStrategy '': strategy not implemented'')
       = ''invalid strategy: strategy not implemented''
   \<and> secretReconciler_Reconcile okDeps strategyless emptyCluster
       = ((Panic ErrInvalidStrategy, strategyless), emptyCluster)"
proof (intro conjI)
  show "GetControllerOf failingGVKForObject () controlsAll exampleSecretSync [emptySecret]
     = Inl unregisteredKind"
    by (simp add: GetControllerOf_def failingGVKForObject_def controlsAll_def)
  show "\<not> hasContext unregisteredKind" by (simp add: unregisteredKind_def)
  show "Error unregisteredKind = ''no kind is registered for the type''"
    by (simp add: unregisteredKind_def)
  show "deletionReconciler_Reconcile okDeps strategylessDeleting emptyCluster
       = (((\<lparr>statusChanged = False\<rparr>,
            Some (Errorf [] ErrInvalidStrategy '': strategy not implemented'')),
           strategylessDeleting), emptyCluster)"
    by (simp add: deletionReconciler_Reconcile_def strategylessDeleting_def
          deletingSecretSync_def exampleSecretSync_def IsZero_def)
  show "\<not> hasContext (Errorf [] ErrInvalidStrategy '': strategy not implemented'')"
    by simp
  show "Error (Errorf [] ErrInvalidStrategy '': strategy not implemented'')
       = ''invalid strategy: strategy not implemented''"
    by (simp add: ErrInvalidStrategy_def)
  show "secretReconciler_Reconcile okDeps strategyless emptyCluster
       = ((Panic ErrInvalidStrategy, strategyless), emptyCluster)"
    by (simp add: secretReconciler_Reconcile_def watchSource_def srcReaderForStrategy_def
          strategyless_def exampleSecretSync_def IsZero_def)
qed

theorem errors_carry_operation_context_witness:
  "secretReconciler_Reconcile (okDeps\<lparr>client_Patch := conflictingPatch\<rparr>) exampleSecretSync
     emptyCluster
   = ((Return (\<lparr>statusChanged = False\<rparr>,
         Some (Errorf ''adding cached finalizer: ''
                 (Errorf ''adding finalizer: '' (StatusError StatusReasonConflict ''conflict'')
                    []) [])),
       exampleSecretSync\<lparr>Finalizers := [CachedFinalizer]\<rparr>),
      \<lparr>Calls = [(PatchCall (NamespacedName ''ns'' ''sync'')
                   (finalizerPatch (exampleSecretSync\<lparr>Finalizers := [CachedFinalizer]\<rparr>)),
                  Some (StatusError StatusReasonConflict ''conflict''))],
       World = 0\<rparr>)
   \<and> wrapsFailedCall secretReconciler_context
        (Errorf ''adding cached finalizer: ''
           (Errorf ''adding finalizer: '' (StatusError StatusReasonConflict ''conflict'') []) [])
        [(PatchCall (NamespacedName ''ns'' ''sync'')
            (finalizerPatch (exampleSecretSync\<lparr>Finalizers := [CachedFinalizer]\<rparr>)),
          Some (StatusError StatusReasonConflict ''conflict''))]
   \<and> Error (Errorf ''adding cached finalizer: ''
           (Errorf ''adding finalizer: '' (StatusError StatusReasonConflict ''conflict'') []) [])
      = ''adding cached finalizer: adding finalizer: conflict''
   \<and> deletionReconciler_Reconcile (okDeps\<lparr>dynamicCache_Free := failingFree\<rparr>)
        deletingSecretSync emptyCluster
      = (((\<lparr>statusChanged = False\<rparr>,
           Some (Errorf ''free cache and remove finalizer: ''
                   (Errorf ''free cache: '' (ErrorsNew ''cache busy'') []) [])),
          deletingSecretSync),
         \<lparr>Calls = [(RemoveDynamicCacheLabelCall (NamespacedName ''ns'' ''src''), None),
                   (FreeCall (NamespacedName ''ns'' ''sync''), Some (ErrorsNew ''cache busy''))],
          World = 0\<rparr>)
   \<and> wrapsFailedCall deletionReconciler_context
        (Errorf ''free cache and remove finalizer: ''
           (Errorf ''free cache: '' (ErrorsNew ''cache busy'') []) [])
        [(RemoveDynamicCacheLabelCall (NamespacedName ''ns'' ''src''), None),
         (FreeCall (NamespacedName ''ns'' ''sync''), Some (ErrorsNew ''cache busy''))]"
proof -
  let ?e1 = "Errorf ''adding cached finalizer: ''
           (Errorf ''adding finalizer: '' (StatusError StatusReasonConflict ''conflict'') []) []"
  let ?s1 = "\<lparr>Calls = [(PatchCall (NamespacedName ''ns'' ''sync'')
                   (finalizerPatch (exampleSecretSync\<lparr>Finalizers := [CachedFinalizer]\<rparr>)),
                  Some (StatusError StatusReasonConflict ''conflict''))],
       World = 0::nat\<rparr>"
  let ?e2 = "Errorf ''free cache and remove finalizer: ''
                   (Errorf ''free cache: '' (ErrorsNew ''cache busy'') []) []"
  let ?s2 = "\<lparr>Calls = [(RemoveDynamicCacheLabelCall (NamespacedName ''ns'' ''src''), None),
                   (FreeCall (NamespacedName ''ns'' ''sync''), Some (ErrorsNew ''cache busy''))],
          World = 0::nat\<rparr>"
  have run1: "secretReconciler_Reconcile (okDeps\<lparr>client_Patch := conflictingPatch\<rparr>)
       exampleSecretSync emptyCluster
   = ((Return (\<lparr>statusChanged = False\<rparr>, Some ?e1),
       exampleSecretSync\<lparr>Finalizers := [CachedFinalizer]\<rparr>), ?s1)"
    by (simp add: secretReconciler_Reconcile_def exampleSecretSync_def emptyCluster_def
          IsZero_def okDeps_def conflictingPatch_def watchSource_def EnsureCachedFinalizer_def
          EnsureFinalizer_def ContainsFinalizer_def AddFinalizer_def json_Marshal_def
          c_Patch_def logged_def ObjectKeyFromObject_def Let_def)
  have ctx1: "wrapsFailedCall secretReconciler_context ?e1 (Calls ?s1)"
    using errors_carry_operation_context
         [where r = "okDeps\<lparr>client_Patch := conflictingPatch\<rparr>"
            and secretSync = exampleSecretSync and s = emptyCluster
            and res = "\<lparr>statusChanged = False\<rparr>" and err = ?e1
            and secretSync' = "exampleSecretSync\<lparr>Finalizers := [CachedFinalizer]\<rparr>"
            and s' = ?s1, THEN conjunct1] run1
    by simp
  have run2: "deletionReconciler_Reconcile (okDeps\<lparr>dynamicCache_Free := failingFree\<rparr>)
        deletingSecretSync emptyCluster
      = (((\<lparr>statusChanged = False\<rparr>, Some ?e2), deletingSecretSync), ?s2)"
    by (simp add: deletionReconciler_Reconcile_def deletingSecretSync_def exampleSecretSync_def
          emptyCluster_def IsZero_def okDeps_def failingFree_def call_def logged_def
          IgnoreNotFound_def FreeCacheAndRemoveFinalizer_def cache_Free_def
          ObjectKeyFromObject_def sourceSecretRef_def)
  have w2: "Watch (Strategy (Spec deletingSecretSync)) \<noteq> None"
    by (simp add: deletingSecretSync_def exampleSecretSync_def)
  have ctx2: "wrapsFailedCall deletionReconciler_context ?e2 (Calls ?s2)"
    using errors_carry_operation_context
         [where r = "okDeps\<lparr>dynamicCache_Free := failingFree\<rparr>"
            and secretSync = deletingSecretSync and s = emptyCluster
            and res = "\<lparr>statusChanged = False\<rparr>" and err = ?e2
            and secretSync' = deletingSecretSync
            and s' = ?s2, THEN conjunct2, THEN conjunct1] run2 w2
    by simp
  have str: "Error ?e1 = ''adding cached finalizer: adding finalizer: conflict''"
    by simp
  show ?thesis using run1 ctx1 str run2 ctx2 by simp
qed

subsection \<open>MapConditions\<close>

lemma Find_Some_Type:
  "FindStatusCondition conds t = Some x \<Longrightarrow> Type x = t"
  by (induction conds) (auto simp: FindStatusCondition_def split: if_splits)

lemma Find_append:
  "FindStatusCondition (conds @ [v]) t =
     (case FindStatusCondition conds t of
        Some x \<Rightarrow> Some x
      | None \<Rightarrow> if Type v = t then Some v else None)"
  by (induction conds) (auto simp: FindStatusCondition_def)

lemma Find_writeFirst_same:
  "FindStatusCondition conds t = Some x \<Longrightarrow> Type v = t \<Longrightarrow>
     FindStatusCondition (writeFirst t v conds) t = Some v"
  by (induction conds) (auto simp: FindStatusCondition_def split: if_splits)

lemma Find_writeFirst_other:
  "t' \<noteq> t \<Longrightarrow> Type v = t \<Longrightarrow>
     FindStatusCondition (writeFirst t v conds) t' = FindStatusCondition conds t'"
  by (induction conds) (auto simp: FindStatusCondition_def)

lemma filter_writeFirst:
  "Type v = t \<Longrightarrow> (\<And>d. Type d = t \<Longrightarrow> \<not> P d) \<Longrightarrow>
     filter P (writeFirst t v conds) = filter P conds"
  by (induction conds) auto

lemma SetStatusCondition_same:
  "\<exists>d. FindStatusCondition (snd (fst (SetStatusCondition now conds new clk))) (Type new) = Some d
      \<and> Type d = Type new \<and> Status d = Status new \<and> Reason d = Reason new
      \<and> Message d = Message new \<and> ObservedGeneration d = ObservedGeneration new"
proof (cases "FindStatusCondition conds (Type new)")
  case None
  then show ?thesis
    by (auto simp: SetStatusCondition_def Find_append split: prod.splits)
next
  case (Some x)
  then have "Type x = Type new" by (rule Find_Some_Type)
  with Some show ?thesis
    by (auto simp: SetStatusCondition_def Let_def Find_writeFirst_same split: prod.splits)
qed

lemma SetStatusCondition_other:
  assumes "t \<noteq> Type new"
  shows "FindStatusCondition (snd (fst (SetStatusCondition now conds new clk))) t =
           FindStatusCondition conds t"
proof (cases "FindStatusCondition conds (Type new)")
  case None
  then show ?thesis
    using assms by (auto simp: SetStatusCondition_def Find_append split: prod.splits option.splits)
next
  case (Some x)
  then have "Type x = Type new" by (rule Find_Some_Type)
  with Some show ?thesis
    using assms
    by (auto simp: SetStatusCondition_def Let_def Find_writeFirst_other split: prod.splits)
qed

lemma SetStatusCondition_filter:
  assumes "\<And>d. Type d = Type new \<Longrightarrow> \<not> P d"
  shows "filter P (snd (fst (SetStatusCondition now conds new clk))) = filter P conds"
proof (cases "FindStatusCondition conds (Type new)")
  case None
  then show ?thesis
    using assms by (auto simp: SetStatusCondition_def split: prod.splits)
next
  case (Some x)
  then have "Type x = Type new" by (rule Find_Some_Type)
  with Some show ?thesis
    using assms
    by (auto simp: SetStatusCondition_def Let_def filter_writeFirst split: prod.splits)
qed

lemma MapConditions_skips:
  "MapConditions now sg src dg dest clk =
     MapConditions now sg (filter (isCurrentMapped sg) src) dg dest clk"
  by (induction src arbitrary: dest clk)
     (auto simp: isCurrentMapped_def split: prod.splits)

lemma MapConditions_append:
  "MapConditions now sg (xs @ ys) dg dest clk =
     (case MapConditions now sg xs dg dest clk of
        (dest', clk') \<Rightarrow> MapConditions now sg ys dg dest' clk')"
  by (induction xs arbitrary: dest clk) (auto split: prod.splits)

lemma MapConditions_keeps:
  assumes "\<forall>c' \<in> set post. isCurrentMapped sg c' \<longrightarrow> Type c' \<noteq> t"
  shows "FindStatusCondition (fst (MapConditions now sg post dg dest clk)) t =
           FindStatusCondition dest t"
  using assms
proof (induction post arbitrary: dest clk)
  case Nil
  then show ?case by simp
next
  case (Cons c' post)
  show ?case
  proof (cases "isCurrentMapped sg c'")
    case False
    then show ?thesis
      using Cons by (auto simp: isCurrentMapped_def)
  next
    case True
    then have ne: "t \<noteq> Type (mappedCondition dg c')"
      using Cons.prems by (auto simp: mappedCondition_def)
    obtain ch dest' clk' where
      st: "SetStatusCondition now dest (mappedCondition dg c') clk = ((ch, dest'), clk')"
      by (metis surj_pair)
    have "FindStatusCondition dest' t = FindStatusCondition dest t"
      using SetStatusCondition_other [OF ne, of now dest clk] st by simp
    moreover have "FindStatusCondition (fst (MapConditions now sg post dg dest' clk')) t =
           FindStatusCondition dest' t"
      using Cons by auto
    ultimately show ?thesis
      using True st by (simp add: isCurrentMapped_def)
  qed
qed

lemma MapConditions_last_copy:
  assumes "src = pre @ c # post" "isCurrentMapped sg c"
    "\<forall>c' \<in> set post. isCurrentMapped sg c' \<longrightarrow> Type c' \<noteq> Type c"
  shows "\<exists>d. FindStatusCondition (fst (MapConditions now sg src dg dest clk)) (Type c) = Some d
           \<and> copyOf dg c d"
proof -
  obtain dest1 clk1 where p: "MapConditions now sg pre dg dest clk = (dest1, clk1)"
    by (metis surj_pair)
  obtain ch dest2 clk2 where
    st: "SetStatusCondition now dest1 (mappedCondition dg c) clk1 = ((ch, dest2), clk2)"
    by (metis surj_pair)
  have "\<exists>d. FindStatusCondition dest2 (Type c) = Some d \<and> copyOf dg c d"
    using SetStatusCondition_same [of now dest1 "mappedCondition dg c" clk1] st
    by (auto simp: copyOf_def mappedCondition_def)
  moreover have "FindStatusCondition (fst (MapConditions now sg post dg dest2 clk2)) (Type c)
                 = FindStatusCondition dest2 (Type c)"
    by (rule MapConditions_keeps [OF assms(3)])
  moreover have "MapConditions now sg src dg dest clk = MapConditions now sg post dg dest2 clk2"
    using assms(1,2) p st by (simp add: MapConditions_append isCurrentMapped_def)
  ultimately show ?thesis by simp
qed

lemma MapConditions_others_untouched:
  "filter (\<lambda>d. Type d \<notin> set (map Type (filter (isCurrentMapped sg) src)))
          (fst (MapConditions now sg src dg dest clk))
   = filter (\<lambda>d. Type d \<notin> set (map Type (filter (isCurrentMapped sg) src))) dest"
proof -
  have "\<And>T. set (map Type (filter (isCurrentMapped sg) src)) \<subseteq> T \<Longrightarrow>
     filter (\<lambda>d. Type d \<notin> T) (fst (MapConditions now sg src dg dest clk))
       = filter (\<lambda>d. Type d \<notin> T) dest"
  proof (induction src arbitrary: dest clk)
    case Nil
    then show ?case by simp
  next
    case (Cons c src)
    show ?case
    proof (cases "isCurrentMapped sg c")
      case False
      then show ?thesis using Cons by (auto simp: isCurrentMapped_def)
    next
      case True
      obtain ch dest' clk' where
        st: "SetStatusCondition now dest (mappedCondition dg c) clk = ((ch, dest'), clk')"
        by (metis surj_pair)
      have "Type c \<in> T" using Cons.prems True by auto
      then have "filter (\<lambda>d. Type d \<notin> T) dest' = filter (\<lambda>d. Type d \<notin> T) dest"
        using SetStatusCondition_filter [of "mappedCondition dg c" "\<lambda>d. Type d \<notin> T" now dest clk] st
        by (simp add: mappedCondition_def)
      moreover have "filter (\<lambda>d. Type d \<notin> T) (fst (MapConditions now sg src dg dest' clk'))
           = filter (\<lambda>d. Type d \<notin> T) dest'"
        using Cons True by auto
      ultimately show ?thesis
        using True st by (simp add: isCurrentMapped_def)
    qed
  qed
  then show ?thesis by blast
qed


lemma Types_writeFirst:
  "FindStatusCondition conds t = Some x \<Longrightarrow> Type v = t \<Longrightarrow>
     map Type (writeFirst t v conds) = map Type conds"
  by (induction conds) (auto simp: FindStatusCondition_def split: if_splits)

lemma SetStatusCondition_map_Type:
  assumes "FindStatusCondition conds (Type new) = Some x"
  shows "map Type (snd (fst (SetStatusCondition now conds new clk))) = map Type conds"
proof -
  have t: "Type x = Type new" using assms by (rule Find_Some_Type)
  show ?thesis
    using assms t
    by (auto simp: SetStatusCondition_def Let_def Types_writeFirst split: prod.splits)
qed

lemma SetStatusCondition_Types:
  "set (map Type (snd (fst (SetStatusCondition now conds new clk)))) =
     insert (Type new) (set (map Type conds))"
proof (cases "FindStatusCondition conds (Type new)")
  case None
  then show ?thesis
    by (auto simp: SetStatusCondition_def split: prod.splits)
next
  case (Some x)
  then have t: "Type x = Type new" by (rule Find_Some_Type)
  have "x \<in> set conds"
    using Some by (auto simp: FindStatusCondition_def find_Some_iff)
  then have "Type new \<in> set (map Type conds)"
    using t by (metis imageI list.set_map)
  then show ?thesis
    unfolding SetStatusCondition_map_Type [OF Some] by blast
qed

lemma MapConditions_Types:
  "set (map Type (fst (MapConditions now sg src dg dest clk))) =
     set (map Type dest) \<union> set (map Type (filter (isCurrentMapped sg) src))"
proof (induction src arbitrary: dest clk)
  case Nil
  then show ?case by simp
next
  case (Cons c src)
  show ?case
  proof (cases "isCurrentMapped sg c")
    case False
    then show ?thesis using Cons by (auto simp: isCurrentMapped_def)
  next
    case True
    obtain ch dest' clk' where
      st: "SetStatusCondition now dest (mappedCondition dg c) clk = ((ch, dest'), clk')"
      by (metis surj_pair)
    have "set (map Type dest') = insert (Type c) (set (map Type dest))"
      using SetStatusCondition_Types [of now dest "mappedCondition dg c" clk] st
      by (simp add: mappedCondition_def)
    then show ?thesis
      using True st Cons [of dest' clk'] by (auto simp: isCurrentMapped_def)
  qed
qed

lemma writeFirst_length: "length (writeFirst t v cs) = length cs"
  by (induction cs) auto

lemma writeFirst_nth:
  "i < length cs \<Longrightarrow> writeFirst t v cs ! i \<noteq> cs ! i \<Longrightarrow>
   Type (cs ! i) = t \<and> (\<forall>j < i. Type (cs ! j) \<noteq> t)"
proof (induction cs arbitrary: i)
  case Nil
  then show ?case by simp
next
  case (Cons c cs)
  show ?case
  proof (cases "Type c = t")
    case True
    then show ?thesis using Cons.prems by (cases i) auto
  next
    case False
    show ?thesis
    proof (cases i)
      case 0
      then show ?thesis using Cons.prems False by simp
    next
      case (Suc k)
      then have "Type (cs ! k) = t \<and> (\<forall>j < k. Type (cs ! j) \<noteq> t)"
        using Cons.IH [of k] Cons.prems False by simp
      then show ?thesis
        using Suc False by (auto simp: less_Suc_eq_0_disj)
    qed
  qed
qed

lemma Find_None_Types:
  "FindStatusCondition conds t = None \<Longrightarrow> t \<notin> set (map Type conds)"
  by (induction conds) (auto simp: FindStatusCondition_def split: if_splits)

lemma touchesOnlyFirst_refl: "touchesOnlyFirst types conds conds"
  by (simp add: touchesOnlyFirst_def)

lemma touchesOnlyFirst_append:
  "Type x = t \<Longrightarrow> t \<notin> set (map Type conds) \<Longrightarrow> touchesOnlyFirst {t} conds (conds @ [x])"
  by (auto simp: touchesOnlyFirst_def nth_append)

lemma touchesOnlyFirst_writeFirst:
  assumes "FindStatusCondition conds t = Some x" and "Type v = t"
  shows "touchesOnlyFirst {t} conds (writeFirst t v conds)"
  using assms writeFirst_nth [of _ conds t v]
  by (auto simp: touchesOnlyFirst_def writeFirst_length Types_writeFirst)

lemma SetStatusCondition_touches:
  "touchesOnlyFirst {Type new} conds (snd (fst (SetStatusCondition now conds new clk)))"
proof (cases "FindStatusCondition conds (Type new)")
  case None
  then show ?thesis
    using Find_None_Types [OF None]
    by (auto simp: SetStatusCondition_def touchesOnlyFirst_append split: prod.splits)
next
  case (Some x)
  then have t: "Type x = Type new" by (rule Find_Some_Type)
  show ?thesis
    using Some t
    by (auto simp: SetStatusCondition_def Let_def split: prod.splits
          intro!: touchesOnlyFirst_writeFirst)
qed

lemma touchesOnlyFirst_trans:
  assumes ab: "touchesOnlyFirst T1 a b" and bc: "touchesOnlyFirst T2 b c"
  shows "touchesOnlyFirst (T1 \<union> T2) a c"
proof -
  have la: "length a \<le> length b" and lb: "length b \<le> length c"
    using ab bc by (simp_all add: touchesOnlyFirst_def)
  have tab: "map Type (take (length a) b) = map Type a"
    and tbc: "map Type (take (length b) c) = map Type b"
    using ab bc by (simp_all add: touchesOnlyFirst_def)
  have tac: "map Type (take (length a) c) = map Type a"
  proof -
    have "take (length a) c = take (length a) (take (length b) c)"
      using la by (simp add: min_def)
    then have "map Type (take (length a) c) = take (length a) (map Type (take (length b) c))"
      by (simp add: take_map)
    also have "\<dots> = map Type (take (length a) b)" by (simp add: tbc take_map)
    finally show ?thesis using tab by simp
  qed
  have ty: "\<And>k. k < length a \<Longrightarrow> Type (b ! k) = Type (a ! k)"
  proof -
    fix k assume k: "k < length a"
    have "map Type (take (length a) b) ! k = map Type a ! k" using tab by simp
    then show "Type (b ! k) = Type (a ! k)" using k la by simp
  qed
  have d: "\<forall>i < length a. c ! i \<noteq> a ! i \<longrightarrow>
            Type (a ! i) \<in> T1 \<union> T2 \<and> (\<forall>j < i. Type (a ! j) \<noteq> Type (a ! i))"
  proof (intro allI impI)
    fix i assume i: "i < length a" and ne: "c ! i \<noteq> a ! i"
    show "Type (a ! i) \<in> T1 \<union> T2 \<and> (\<forall>j < i. Type (a ! j) \<noteq> Type (a ! i))"
    proof (cases "b ! i = a ! i")
      case False
      then show ?thesis using ab i by (auto simp: touchesOnlyFirst_def)
    next
      case True
      then have "c ! i \<noteq> b ! i" using ne by simp
      moreover have "i < length b" using i la by simp
      ultimately have "Type (b ! i) \<in> T2" and f: "\<forall>j < i. Type (b ! j) \<noteq> Type (b ! i)"
        using bc by (auto simp: touchesOnlyFirst_def)
      then show ?thesis using ty i by (metis UnI2 less_trans)
    qed
  qed
  have dr: "map Type (drop (length a) c)
              = map Type (drop (length a) b) @ map Type (drop (length b) c)"
  proof -
    have "c = take (length b) c @ drop (length b) c" by simp
    then have "drop (length a) c
                 = drop (length a) (take (length b) c) @ drop (length b) c"
      using la lb by (metis append_take_drop_id drop_append length_take min.absorb2
            diff_is_0_eq drop_0)
    then have "map Type (drop (length a) c)
                 = drop (length a) (map Type (take (length b) c))
                   @ map Type (drop (length b) c)"
      by (simp add: drop_map)
    then show ?thesis by (simp add: tbc drop_map)
  qed
  have sa: "set (map Type a) \<subseteq> set (map Type b)"
  proof -
    have "set (map Type a) = set (map Type (take (length a) b))" using tab by simp
    also have "\<dots> \<subseteq> set (map Type b)" by (metis set_take_subset take_map)
    finally show ?thesis .
  qed
  have sb: "set (map Type (drop (length a) b)) \<subseteq> set (map Type b)"
    by (metis set_drop_subset drop_map)
  have e1: "distinct (map Type (drop (length a) b))"
    and e2: "set (map Type (drop (length a) b)) \<subseteq> T1 - set (map Type a)"
    and e3: "distinct (map Type (drop (length b) c))"
    and e4: "set (map Type (drop (length b) c)) \<subseteq> T2 - set (map Type b)"
    using ab bc by (simp_all add: touchesOnlyFirst_def)
  have disj: "set (map Type (drop (length a) b)) \<inter> set (map Type (drop (length b) c)) = {}"
    using e4 sb by blast
  have dist: "distinct (map Type (drop (length a) c))"
    unfolding dr distinct_append using e1 e3 disj by blast
  have sub: "set (map Type (drop (length a) c)) \<subseteq> (T1 \<union> T2) - set (map Type a)"
    unfolding dr set_append using e2 e4 sa by blast
  show ?thesis
    unfolding touchesOnlyFirst_def
    using la lb tac d dist sub by simp
qed

lemma touchesOnlyFirst_mono:
  "touchesOnlyFirst T a b \<Longrightarrow> T \<subseteq> T' \<Longrightarrow> touchesOnlyFirst T' a b"
  by (auto simp: touchesOnlyFirst_def)

lemma MapConditions_touches:
  "touchesOnlyFirst (set (map Type (filter (isCurrentMapped sg) src))) dest
     (fst (MapConditions now sg src dg dest clk))"
proof (induction src arbitrary: dest clk)
  case Nil
  show ?case by (simp add: touchesOnlyFirst_refl)
next
  case (Cons c src)
  show ?case
  proof (cases "isCurrentMapped sg c")
    case False
    then show ?thesis using Cons [of dest clk] by (auto simp: isCurrentMapped_def)
  next
    case True
    obtain ch dest' clk' where
      st: "SetStatusCondition now dest (mappedCondition dg c) clk = ((ch, dest'), clk')"
      by (metis surj_pair)
    have s1: "touchesOnlyFirst {Type c} dest dest'"
      using SetStatusCondition_touches [of "mappedCondition dg c" dest now clk] st
      by (simp add: mappedCondition_def)
    have "touchesOnlyFirst ({Type c} \<union> set (map Type (filter (isCurrentMapped sg) src)))
            dest (fst (MapConditions now sg src dg dest' clk'))"
      by (rule touchesOnlyFirst_trans [OF s1 Cons [of dest' clk']])
    then show ?thesis
      using True st by (simp add: isCurrentMapped_def)
  qed
qed

lemma MapConditions_fold:
  "MapConditions now sg src dg dest clk =
     fold (handOver now dg) (filter (isCurrentMapped sg) src) (dest, clk)"
  by (induction src arbitrary: dest clk)
     (auto simp: isCurrentMapped_def handOver_def split: prod.splits)

lemma MapConditions_appended:
  "set (map Type (drop (length dest) (fst (MapConditions now sg src dg dest clk))))
     = set (map Type (filter (isCurrentMapped sg) src)) - set (map Type dest)"
proof -
  let ?r = "fst (MapConditions now sg src dg dest clk)"
  let ?Q = "set (map Type (filter (isCurrentMapped sg) src))"
  have t: "touchesOnlyFirst ?Q dest ?r" by (rule MapConditions_touches)
  then have k: "map Type (take (length dest) ?r) = map Type dest"
    and s: "set (map Type (drop (length dest) ?r)) \<subseteq> ?Q - set (map Type dest)"
    by (simp_all add: touchesOnlyFirst_def)
  have "map Type ?r = map Type (take (length dest) ?r) @ map Type (drop (length dest) ?r)"
    by (metis append_take_drop_id map_append)
  then have "set (map Type ?r) = set (map Type dest) \<union> set (map Type (drop (length dest) ?r))"
    using k by (metis set_append)
  moreover have "set (map Type ?r) = set (map Type dest) \<union> ?Q"
    by (rule MapConditions_Types)
  ultimately have "?Q - set (map Type dest) \<subseteq> set (map Type (drop (length dest) ?r))"
    by blast
  then show ?thesis using s by blast
qed

text \<open>
  Claim C9, as amended. \<open>MapConditions\<close> hands to \<open>meta.SetStatusCondition\<close>, in source
  order, exactly the source conditions whose observed generation is the source generation
  and whose type holds a slash, each with its type, status, reason and message and with
  the destination generation; every other source condition has no effect.
  \<open>SetStatusCondition\<close> writes the first destination entry of the condition's type and
  appends an entry when there is none. So afterwards the first destination entry of every
  such type carries the status, reason and message of the last such source condition of
  that type, under the destination generation; an earlier one of the same type is
  overwritten. Every other destination entry, of another type or a later entry of the same
  type, is unchanged and in its place, and one entry is appended for each such type the
  destination did not hold.
\<close>

theorem MapConditions_copies_current_mapped:
  "MapConditions now sg src dg dest clk
     = fold (handOver now dg) (filter (isCurrentMapped sg) src) (dest, clk)
   \<and> (src = pre @ c # post \<and> isCurrentMapped sg c
        \<and> list_all (\<lambda>c'. isCurrentMapped sg c' \<longrightarrow> Type c' \<noteq> Type c) post
      \<longrightarrow> (\<exists>d. FindStatusCondition (fst (MapConditions now sg src dg dest clk)) (Type c)
                 = Some d \<and> copyOf dg c d))
   \<and> touchesOnlyFirst (set (map Type (filter (isCurrentMapped sg) src))) dest
        (fst (MapConditions now sg src dg dest clk))
   \<and> set (map Type (drop (length dest) (fst (MapConditions now sg src dg dest clk))))
       = set (map Type (filter (isCurrentMapped sg) src)) - set (map Type dest)
   \<and> set (map Type (fst (MapConditions now sg src dg dest clk))) =
       set (map Type dest) \<union> set (map Type (filter (isCurrentMapped sg) src))"
proof (intro conjI impI)
  show "MapConditions now sg src dg dest clk
     = fold (handOver now dg) (filter (isCurrentMapped sg) src) (dest, clk)"
    by (rule MapConditions_fold)
next
  assume a: "src = pre @ c # post \<and> isCurrentMapped sg c
        \<and> list_all (\<lambda>c'. isCurrentMapped sg c' \<longrightarrow> Type c' \<noteq> Type c) post"
  then have "\<forall>c' \<in> set post. isCurrentMapped sg c' \<longrightarrow> Type c' \<noteq> Type c"
    by (simp add: list_all_iff)
  with a show "\<exists>d. FindStatusCondition (fst (MapConditions now sg src dg dest clk)) (Type c)
                 = Some d \<and> copyOf dg c d"
    using MapConditions_last_copy [of src pre c post sg now dg dest clk] by blast
next
  show "touchesOnlyFirst (set (map Type (filter (isCurrentMapped sg) src))) dest
        (fst (MapConditions now sg src dg dest clk))"
    by (rule MapConditions_touches)
next
  show "set (map Type (drop (length dest) (fst (MapConditions now sg src dg dest clk))))
       = set (map Type (filter (isCurrentMapped sg) src)) - set (map Type dest)"
    by (rule MapConditions_appended)
next
  show "set (map Type (fst (MapConditions now sg src dg dest clk))) =
       set (map Type dest) \<union> set (map Type (filter (isCurrentMapped sg) src))"
    by (rule MapConditions_Types)
qed

text \<open>
  Claim C9 as stated fails where two source conditions of the same type both qualify: the
  second overwrites the first, and the destination holds no copy of the first.
\<close>

theorem MapConditions_duplicate_type_counterexample:
  "isCurrentMapped 1 (duplicatedSrc ! 0)
   \<and> isCurrentMapped 1 (duplicatedSrc ! 1)
   \<and> fst (MapConditions tick 1 duplicatedSrc 2 [] 0) =
       [\<lparr>Type = ''pko/Ready'', Status = ''False'', ObservedGeneration = 2,
         LastTransitionTime = 2, Reason = ''Down'', Message = ''second''\<rparr>]
   \<and> \<not> copyOf 2 (duplicatedSrc ! 0)
         \<lparr>Type = ''pko/Ready'', Status = ''False'', ObservedGeneration = 2,
          LastTransitionTime = 2, Reason = ''Down'', Message = ''second''\<rparr>"
proof (intro conjI)
  show "isCurrentMapped 1 (duplicatedSrc ! 0)" "isCurrentMapped 1 (duplicatedSrc ! 1)"
    by (simp_all add: duplicatedSrc_def isCurrentMapped_def IsMappedCondition_def)
  show "fst (MapConditions tick 1 duplicatedSrc 2 [] 0) =
       [\<lparr>Type = ''pko/Ready'', Status = ''False'', ObservedGeneration = 2,
         LastTransitionTime = 2, Reason = ''Down'', Message = ''second''\<rparr>]"
    by (simp add: duplicatedSrc_def IsMappedCondition_def mappedCondition_def
          SetStatusCondition_def FindStatusCondition_def tick_def Let_def)
  show "\<not> copyOf 2 (duplicatedSrc ! 0)
         \<lparr>Type = ''pko/Ready'', Status = ''False'', ObservedGeneration = 2,
          LastTransitionTime = 2, Reason = ''Down'', Message = ''second''\<rparr>"
    by (simp add: duplicatedSrc_def copyOf_def)
qed

theorem MapConditions_copies_current_mapped_witness:
  "duplicatedSrc = [duplicatedSrc ! 0] @ (duplicatedSrc ! 1) # []
   \<and> isCurrentMapped 1 (duplicatedSrc ! 1)
   \<and> FindStatusCondition (fst (MapConditions tick 1 duplicatedSrc 2 duplicatedDest 0))
        ''pko/Ready''
      = Some \<lparr>Type = ''pko/Ready'', Status = ''False'', ObservedGeneration = 2,
              LastTransitionTime = 2, Reason = ''Down'', Message = ''second''\<rparr>
   \<and> copyOf 2 (duplicatedSrc ! 1)
        \<lparr>Type = ''pko/Ready'', Status = ''False'', ObservedGeneration = 2,
         LastTransitionTime = 2, Reason = ''Down'', Message = ''second''\<rparr>
   \<and> fst (MapConditions tick 1 duplicatedSrc 2 duplicatedDest 0) =
       [\<lparr>Type = ''pko/Ready'', Status = ''False'', ObservedGeneration = 2,
         LastTransitionTime = 2, Reason = ''Down'', Message = ''second''\<rparr>,
        duplicatedDest ! 1]
   \<and> touchesOnlyFirst {''pko/Ready''} duplicatedDest
        (fst (MapConditions tick 1 duplicatedSrc 2 duplicatedDest 0))
   \<and> fst (MapConditions tick 1 mixedSrc 2 exampleDest 0) =
       exampleDest @
       [\<lparr>Type = ''pko/Ready'', Status = ''True'', ObservedGeneration = 2,
         LastTransitionTime = 1, Reason = ''Up'', Message = ''current and mapped''\<rparr>]"
proof -
  have s: "duplicatedSrc = [duplicatedSrc ! 0] @ (duplicatedSrc ! 1) # []"
    by (simp add: duplicatedSrc_def)
  have q: "isCurrentMapped 1 (duplicatedSrc ! 1)"
    by (simp add: duplicatedSrc_def isCurrentMapped_def IsMappedCondition_def)
  have t: "Type (duplicatedSrc ! 1) = ''pko/Ready''"
    by (simp add: duplicatedSrc_def)
  have run: "fst (MapConditions tick 1 duplicatedSrc 2 duplicatedDest 0) =
       [\<lparr>Type = ''pko/Ready'', Status = ''False'', ObservedGeneration = 2,
         LastTransitionTime = 2, Reason = ''Down'', Message = ''second''\<rparr>,
        duplicatedDest ! 1]"
    by (simp add: duplicatedSrc_def duplicatedDest_def IsMappedCondition_def
          mappedCondition_def SetStatusCondition_def FindStatusCondition_def tick_def Let_def)
  have m: "fst (MapConditions tick 1 mixedSrc 2 exampleDest 0) =
       exampleDest @
       [\<lparr>Type = ''pko/Ready'', Status = ''True'', ObservedGeneration = 2,
         LastTransitionTime = 1, Reason = ''Up'', Message = ''current and mapped''\<rparr>]"
    by (simp add: mixedSrc_def exampleDest_def IsMappedCondition_def mappedCondition_def
          SetStatusCondition_def FindStatusCondition_def tick_def Let_def)
  from MapConditions_copies_current_mapped
         [where src = duplicatedSrc and pre = "[duplicatedSrc ! 0]" and c = "duplicatedSrc ! 1"
            and post = "[]" and sg = 1 and now = tick and dg = 2 and dest = duplicatedDest
            and clk = 0, THEN conjunct2, THEN conjunct1] s q
  obtain d where
    d: "FindStatusCondition (fst (MapConditions tick 1 duplicatedSrc 2 duplicatedDest 0))
          (Type (duplicatedSrc ! 1)) = Some d" and cp: "copyOf 2 (duplicatedSrc ! 1) d"
    by auto
  have dv: "d = \<lparr>Type = ''pko/Ready'', Status = ''False'', ObservedGeneration = 2,
              LastTransitionTime = 2, Reason = ''Down'', Message = ''second''\<rparr>"
    using d unfolding run t by (simp add: FindStatusCondition_def)
  have tf: "touchesOnlyFirst (set (map Type (filter (isCurrentMapped 1) duplicatedSrc)))
              duplicatedDest (fst (MapConditions tick 1 duplicatedSrc 2 duplicatedDest 0))"
    using MapConditions_copies_current_mapped
         [where src = duplicatedSrc and sg = 1 and now = tick and dg = 2
            and dest = duplicatedDest and clk = 0, THEN conjunct2, THEN conjunct2,
          THEN conjunct1] .
  have ts: "set (map Type (filter (isCurrentMapped 1) duplicatedSrc)) = {''pko/Ready''}"
    by (simp add: duplicatedSrc_def isCurrentMapped_def IsMappedCondition_def)
  show ?thesis
    using s q d cp run m tf unfolding dv t ts by simp
qed

subsection \<open>Garbage collection\<close>

lemma deleteUnreferenced_Log:
  "map fst (Log (deleteUnreferenced c referenced stored s)) =
     map fst (Log s)
     @ map (\<lambda>sl. DeleteSlice (ObjectKeyFromObject sl))
         (filter (\<lambda>sl. Name sl \<notin> referenced) stored)"
  by (induction stored arbitrary: s)
     (auto simp: doCall_def recorded_def split: prod.splits)

lemma sliceGarbageCollection_Log:
  assumes "List_ObjectSets c (Selector deploy) (Backing s) = (Inr objectSets, w1)"
    and "List_ObjectSlices c (Name deploy) w1 = (Inr stored, w2)"
  shows "fst (sliceGarbageCollection c deploy s) = None
    \<and> map fst (Log (snd (sliceGarbageCollection c deploy s))) =
        map fst (Log s)
        @ [ListObjectSets (Selector deploy), ListObjectSlices (Name deploy)]
        @ map (\<lambda>sl. DeleteSlice (ObjectKeyFromObject sl))
            (filter (\<lambda>sl. Name sl \<notin> allReferenced deploy objectSets) stored)"
  using assms
  by (simp add: sliceGarbageCollection_def doList_def recorded_def deleteUnreferenced_Log
        allReferenced_def)

text \<open>
  Claim C2. When both listings succeed, garbage collection returns no error and its calls
  are the two listings followed by one Delete for each listed slice whose name is neither
  in the deployment's template nor in the phases of a listed revision, in listing order,
  and nothing else: no slice that is referred to is deleted. On the objects of the test
  (the template refers to slice0-xxx, the one revision to slice1-xxx, the slices 0, 1 and
  2 are listed) the only Delete is that of slice2-xxx.
\<close>

theorem garbage_collection_deletes_unreferenced:
  "(List_ObjectSets c (Selector deploy) (Backing s) = (Inr objectSets, w1)
    \<and> List_ObjectSlices c (Name deploy) w1 = (Inr stored, w2)
    \<longrightarrow> fst (sliceGarbageCollection c deploy s) = None
      \<and> map fst (Log (snd (sliceGarbageCollection c deploy s))) =
          map fst (Log s)
          @ [ListObjectSets (Selector deploy), ListObjectSlices (Name deploy)]
          @ map (\<lambda>sl. DeleteSlice (ObjectKeyFromObject sl))
              (filter (\<lambda>sl. Name sl \<notin> allReferenced deploy objectSets) stored)
      \<and> list_all (\<lambda>sl. Name sl \<in> allReferenced deploy objectSets \<longrightarrow>
            DeleteSlice (ObjectKeyFromObject sl)
              \<notin> set (drop (length (Log s))
                       (map fst (Log (snd (sliceGarbageCollection c deploy s)))))) stored)
   \<and> map fst (Log (snd (sliceGarbageCollection gcTestClient gcDeploy freshMock))) =
       [ListObjectSets [(''test'', ''test'')], ListObjectSlices ''test-depl'',
        DeleteSlice (ObjectKeyFromObject objectSlice2)]"
proof (intro conjI impI)
  assume a: "List_ObjectSets c (Selector deploy) (Backing s) = (Inr objectSets, w1)
    \<and> List_ObjectSlices c (Name deploy) w1 = (Inr stored, w2)"
  then have l: "fst (sliceGarbageCollection c deploy s) = None
    \<and> map fst (Log (snd (sliceGarbageCollection c deploy s))) =
        map fst (Log s)
        @ [ListObjectSets (Selector deploy), ListObjectSlices (Name deploy)]
        @ map (\<lambda>sl. DeleteSlice (ObjectKeyFromObject sl))
            (filter (\<lambda>sl. Name sl \<notin> allReferenced deploy objectSets) stored)"
    using sliceGarbageCollection_Log [of c deploy s objectSets w1 stored w2] by simp
  then show "fst (sliceGarbageCollection c deploy s) = None" by simp
  from l show "map fst (Log (snd (sliceGarbageCollection c deploy s))) =
        map fst (Log s)
        @ [ListObjectSets (Selector deploy), ListObjectSlices (Name deploy)]
        @ map (\<lambda>sl. DeleteSlice (ObjectKeyFromObject sl))
            (filter (\<lambda>sl. Name sl \<notin> allReferenced deploy objectSets) stored)" by simp
  from l show "list_all (\<lambda>sl. Name sl \<in> allReferenced deploy objectSets \<longrightarrow>
            DeleteSlice (ObjectKeyFromObject sl)
              \<notin> set (drop (length (Log s))
                       (map fst (Log (snd (sliceGarbageCollection c deploy s)))))) stored"
    by (auto simp: list_all_iff ObjectKeyFromObject_def)
next
  have "map fst (Log (snd (sliceGarbageCollection gcTestClient gcDeploy freshMock))) =
        map fst (Log freshMock)
        @ [ListObjectSets (Selector gcDeploy), ListObjectSlices (Name gcDeploy)]
        @ map (\<lambda>sl. DeleteSlice (ObjectKeyFromObject sl))
            (filter (\<lambda>sl. Name sl \<notin> allReferenced gcDeploy [objectSet1])
               [objectSlice0, objectSlice1, objectSlice2])"
    using sliceGarbageCollection_Log
            [of gcTestClient gcDeploy freshMock "[objectSet1]" noCalls
                "[objectSlice0, objectSlice1, objectSlice2]" noCalls]
    by (simp add: gcTestClient_def unprogrammedClient_def freshMock_def)
  then show "map fst (Log (snd (sliceGarbageCollection gcTestClient gcDeploy freshMock))) =
       [ListObjectSets [(''test'', ''test'')], ListObjectSlices ''test-depl'',
        DeleteSlice (ObjectKeyFromObject objectSlice2)]"
    by (simp add: allReferenced_def referencedSlices_def gcDeploy_def freshMock_def
          newObjectDeployment_def newObjectSet_def newObjectSlice_def emptyObjectMeta_def
          ObjectMeta.extend_def ObjectDeployment.fields_def ObjectSet.fields_def
          ObjectSlice.fields_def objectSet1_def objectSlice0_def objectSlice1_def
          objectSlice2_def)
qed


theorem garbage_collection_deletes_unreferenced_witness:
  "List_ObjectSets gcTestClient (Selector gcDeploy) (Backing freshMock)
     = (Inr [objectSet1], noCalls)
   \<and> List_ObjectSlices gcTestClient (Name gcDeploy) noCalls
     = (Inr [objectSlice0, objectSlice1, objectSlice2], noCalls)
   \<and> fst (sliceGarbageCollection gcTestClient gcDeploy freshMock) = None
   \<and> filter isDelete (map fst (Log (snd (sliceGarbageCollection gcTestClient gcDeploy
        freshMock))))
     = [DeleteSlice (NamespacedName [] ''slice2-xxx'')]"
proof -
  have a: "List_ObjectSets gcTestClient (Selector gcDeploy) (Backing freshMock)
     = (Inr [objectSet1], noCalls)"
    by (simp add: gcTestClient_def unprogrammedClient_def freshMock_def)
  have b: "List_ObjectSlices gcTestClient (Name gcDeploy) noCalls
     = (Inr [objectSlice0, objectSlice1, objectSlice2], noCalls)"
    by (simp add: gcTestClient_def unprogrammedClient_def)
  note t = garbage_collection_deletes_unreferenced
             [of gcTestClient gcDeploy freshMock "[objectSet1]" noCalls
                 "[objectSlice0, objectSlice1, objectSlice2]" noCalls]
  have n: "fst (sliceGarbageCollection gcTestClient gcDeploy freshMock) = None"
    using t a b by blast
  have l: "map fst (Log (snd (sliceGarbageCollection gcTestClient gcDeploy freshMock))) =
       [ListObjectSets [(''test'', ''test'')], ListObjectSlices ''test-depl'',
        DeleteSlice (ObjectKeyFromObject objectSlice2)]"
    using t by blast
  have d: "filter isDelete (map fst (Log (snd (sliceGarbageCollection gcTestClient gcDeploy
        freshMock))))
     = [DeleteSlice (NamespacedName [] ''slice2-xxx'')]"
    unfolding l
    by (simp add: isDelete_def ObjectKeyFromObject_def objectSlice2_def newObjectSlice_def
          emptyObjectMeta_def ObjectMeta.extend_def ObjectSlice.fields_def)
  show ?thesis using a b n d by blast
qed

subsection \<open>Slice collisions\<close>

lemma key_namedSlice:
  "ObjectKeyFromObject (namedSlice hash deploy pending) = sliceKey hash deploy pending"
  by (simp add: namedSlice_def sliceKey_def ObjectKeyFromObject_def)

lemma createSlice_created:
  assumes "Create_ObjectSlice c (namedSlice (hash k) deploy pending) (Backing s) = (None, w1)"
  shows "createSlice c hash deploy pending k (Suc fuel) s =
           Some (Inr (namedSlice (hash k) deploy pending),
                 \<lparr>Log = Log s @ [(CreateSlice (namedSlice (hash k) deploy pending), None)],
                  Backing = w1\<rparr>)"
  using assms by (simp add: namedSlice_def Let_def doCall_def recorded_def)

lemma createSlice_collision:
  assumes "Create_ObjectSlice c (namedSlice (hash k) deploy pending) (Backing s) = (Some e, w1)"
    and "IsAlreadyExists e"
    and "Get_ObjectSlice c (sliceKey (hash k) deploy pending) newObjectSlice w1
           = ((None, existing), w2)"
    and "SliceObjects existing \<noteq> SliceObjects pending"
  shows "createSlice c hash deploy pending k (Suc fuel) s =
           Some (Inl (sliceCollisionError (sliceKey (hash k) deploy pending)),
            \<lparr>Log = Log s
               @ [(CreateSlice (namedSlice (hash k) deploy pending), Some e),
                  (GetSlice (sliceKey (hash k) deploy pending), None)],
             Backing = w2\<rparr>)"
  using assms key_namedSlice [of "hash k" deploy pending]
  by (simp add: namedSlice_def Let_def doCall_def doGet_def recorded_def)

lemma createSlice_same_content:
  assumes "Create_ObjectSlice c (namedSlice (hash k) deploy pending) (Backing s) = (Some e, w1)"
    and "IsAlreadyExists e"
    and "Get_ObjectSlice c (sliceKey (hash k) deploy pending) newObjectSlice w1
           = ((None, existing), w2)"
    and "SliceObjects existing = SliceObjects pending"
  shows "createSlice c hash deploy pending k (Suc fuel) s =
           createSlice c hash deploy pending (Suc k) fuel
            \<lparr>Log = Log s
               @ [(CreateSlice (namedSlice (hash k) deploy pending), Some e),
                  (GetSlice (sliceKey (hash k) deploy pending), None)],
             Backing = w2\<rparr>"
  using assms key_namedSlice [of "hash k" deploy pending]
  by (simp add: namedSlice_def Let_def doCall_def doGet_def recorded_def)


lemma storeLike_Create:
  assumes "storeLike c stored"
  shows "Create_ObjectSlice c obj w = (None, w') \<Longrightarrow>
           stored w (ObjectKeyFromObject obj) = None
           \<and> stored w' = (stored w)(ObjectKeyFromObject obj \<mapsto> obj)"
    and "Create_ObjectSlice c obj w = (Some e, w') \<Longrightarrow>
           stored w' = stored w
           \<and> (stored w (ObjectKeyFromObject obj) \<noteq> None \<longrightarrow> IsAlreadyExists e)"
proof -
  have a: "case Create_ObjectSlice c obj w of
         (None, w') \<Rightarrow> stored w (ObjectKeyFromObject obj) = None
            \<and> stored w' = (stored w)(ObjectKeyFromObject obj \<mapsto> obj)
       | (Some e, w') \<Rightarrow> stored w' = stored w
            \<and> (stored w (ObjectKeyFromObject obj) \<noteq> None \<longrightarrow> IsAlreadyExists e)"
    by (rule assms [unfolded storeLike_def, THEN conjunct1, rule_format])
  show "Create_ObjectSlice c obj w = (None, w') \<Longrightarrow>
           stored w (ObjectKeyFromObject obj) = None
           \<and> stored w' = (stored w)(ObjectKeyFromObject obj \<mapsto> obj)"
    using a by simp
  show "Create_ObjectSlice c obj w = (Some e, w') \<Longrightarrow>
           stored w' = stored w
           \<and> (stored w (ObjectKeyFromObject obj) \<noteq> None \<longrightarrow> IsAlreadyExists e)"
    using a by simp
qed

lemma storeLike_Get:
  assumes "storeLike c stored" and "Get_ObjectSlice c key obj w = ((r, got), w')"
  shows "stored w' = stored w"
    and "stored w key = Some x \<Longrightarrow> r = None \<and> got = x"
    and "stored w key = None \<Longrightarrow> r \<noteq> None"
proof -
  have a: "case Get_ObjectSlice c key obj w of
            ((r, got), w') \<Rightarrow> stored w' = stored w
              \<and> (case stored w key of Some x \<Rightarrow> r = None \<and> got = x | None \<Rightarrow> r \<noteq> None)"
    by (rule assms(1) [unfolded storeLike_def, THEN conjunct2, rule_format])
  show "stored w' = stored w" using a assms(2) by simp
  show "stored w key = Some x \<Longrightarrow> r = None \<and> got = x" using a assms(2) by simp
  show "stored w key = None \<Longrightarrow> r \<noteq> None" using a assms(2) by simp
qed

lemma createSlice_on_store_collision:
  assumes sl: "storeLike c stored"
    and st: "stored (Backing s) (sliceKey (hash k) deploy pending) = Some existing"
    and df: "SliceObjects existing \<noteq> SliceObjects pending"
  shows "\<exists>s'. createSlice c hash deploy pending k (Suc fuel) s
                 = Some (Inl (sliceCollisionError (sliceKey (hash k) deploy pending)), s')
              \<and> stored (Backing s') = stored (Backing s)"
proof -
  let ?named = "namedSlice (hash k) deploy pending"
  let ?key = "sliceKey (hash k) deploy pending"
  obtain r w1 where cr: "Create_ObjectSlice c ?named (Backing s) = (r, w1)"
    by (metis surj_pair)
  have taken: "stored (Backing s) (ObjectKeyFromObject ?named) \<noteq> None"
    using st by (simp add: key_namedSlice)
  have "r \<noteq> None"
    using storeLike_Create(1) [OF sl, of ?named "Backing s" w1] cr taken by auto
  then obtain e where r: "r = Some e" by auto
  have e: "IsAlreadyExists e" and w1: "stored w1 = stored (Backing s)"
    using storeLike_Create(2) [OF sl, of ?named "Backing s" e w1] cr r taken by auto
  obtain r2 got w2 where g: "Get_ObjectSlice c ?key newObjectSlice w1 = ((r2, got), w2)"
    by (metis surj_pair)
  have w2: "stored w2 = stored w1" and r2: "r2 = None" and got: "got = existing"
    using storeLike_Get [OF sl g] st w1 by auto
  show ?thesis
    using createSlice_collision [of c hash k deploy pending s e w1 existing w2 fuel]
      cr r e g r2 got df w1 w2
    by simp
qed

lemma createSlice_keeps_stored:
  assumes sl: "storeLike c stored"
  shows "createSlice c hash deploy pending k fuel s = Some (r, s') \<Longrightarrow>
         stored (Backing s) key = Some x \<Longrightarrow> stored (Backing s') key = Some x"
proof (induction fuel arbitrary: k s)
  case 0
  then show ?case by simp
next
  case (Suc fuel)
  let ?named = "namedSlice (hash k) deploy pending"
  let ?key = "sliceKey (hash k) deploy pending"
  obtain r1 w1 where cr: "Create_ObjectSlice c ?named (Backing s) = (r1, w1)"
    by (metis surj_pair)
  show ?case
  proof (cases r1)
    case None
    have "stored (Backing s) (ObjectKeyFromObject ?named) = None"
      and "stored w1 = (stored (Backing s))(ObjectKeyFromObject ?named \<mapsto> ?named)"
      using storeLike_Create(1) [OF sl, of ?named "Backing s" w1] cr None by auto
    then have "stored w1 key = Some x" using Suc.prems(2) by auto
    then show ?thesis
      using createSlice_created [of c hash k deploy pending s w1 fuel] cr None Suc.prems(1)
      by auto
  next
    case (Some e)
    have w1: "stored w1 = stored (Backing s)"
      using storeLike_Create(2) [OF sl, of ?named "Backing s" e w1] cr Some by auto
    show ?thesis
    proof (cases "IsAlreadyExists e")
      case False
      have "createSlice c hash deploy pending k (Suc fuel) s =
              Some (Inl (storeError (Errorf ''creating ObjectSlice: '' e [])),
                    \<lparr>Log = Log s @ [(CreateSlice ?named, Some e)], Backing = w1\<rparr>)"
        using cr Some False by (simp add: namedSlice_def Let_def doCall_def recorded_def)
      then show ?thesis using Suc.prems w1 by auto
    next
      case True
      obtain r2 got w2 where g: "Get_ObjectSlice c ?key newObjectSlice w1 = ((r2, got), w2)"
        by (metis surj_pair)
      have w2: "stored w2 = stored w1" using storeLike_Get(1) [OF sl g] .
      let ?s2 = "\<lparr>Log = Log s @ [(CreateSlice ?named, Some e), (GetSlice ?key, r2)],
                   Backing = w2\<rparr>"
      show ?thesis
      proof (cases r2)
        case (Some e2)
        have "createSlice c hash deploy pending k (Suc fuel) s =
                Some (Inl (storeError (Errorf ''getting existing ObjectSlice: '' e2 [])), ?s2)"
          using cr \<open>r1 = Some e\<close> True g Some key_namedSlice [of "hash k" deploy pending]
          by (simp add: namedSlice_def Let_def doCall_def doGet_def recorded_def)
        then show ?thesis using Suc.prems w1 w2 by auto
      next
        case None
        show ?thesis
        proof (cases "SliceObjects got = SliceObjects pending")
          case False
          from createSlice_collision [of c hash k deploy pending s e w1 got w2 fuel]
          show ?thesis using cr \<open>r1 = Some e\<close> True g None False Suc.prems w1 w2 by auto
        next
          case same: True
          from createSlice_same_content [of c hash k deploy pending s e w1 got w2 fuel]
          have "createSlice c hash deploy pending (Suc k) fuel
                  \<lparr>Log = Log s @ [(CreateSlice ?named, Some e), (GetSlice ?key, None)],
                   Backing = w2\<rparr> = Some (r, s')"
            using cr \<open>r1 = Some e\<close> True g None same Suc.prems(1) by auto
          from Suc.IH [OF this] show ?thesis using Suc.prems(2) w1 w2 by simp
        qed
      qed
    qed
  qed
qed

text \<open>
  Claim C3. Where creation of a slice is refused with Already-Exists and the slice read
  back under that name holds other content, the result is \<open>sliceCollisionError\<close> for that
  name, and the only calls issued are the refused \<open>Create\<close> and the \<open>Get\<close>. For every
  client that behaves as a store of slices: where the store holds a slice of other content
  under the name the new slice gets, the result is that error and what is stored is
  unchanged; and whatever the creation of a slice returns, every slice stored before is
  stored unchanged afterwards. The \<open>Error()\<close> string of the error is "ObjectSlice
  collision with", the namespace, a slash and the name.
\<close>

theorem slice_collision_is_surfaced_and_nothing_overwritten:
  "(Create_ObjectSlice c (namedSlice (hash k) deploy pending) (Backing s) = (Some e, w1)
      \<and> IsAlreadyExists e
      \<and> Get_ObjectSlice c (sliceKey (hash k) deploy pending) newObjectSlice w1
          = ((None, existing), w2)
      \<and> SliceObjects existing \<noteq> SliceObjects pending
    \<longrightarrow> createSlice c hash deploy pending k (Suc fuel) s =
          Some (Inl (sliceCollisionError (sliceKey (hash k) deploy pending)),
            \<lparr>Log = Log s
               @ [(CreateSlice (namedSlice (hash k) deploy pending), Some e),
                  (GetSlice (sliceKey (hash k) deploy pending), None)],
             Backing = w2\<rparr>))
   \<and> (storeLike c stored
      \<and> stored (Backing s) (sliceKey (hash k) deploy pending) = Some existing
      \<and> SliceObjects existing \<noteq> SliceObjects pending
    \<longrightarrow> (\<exists>s'. createSlice c hash deploy pending k (Suc fuel) s
                 = Some (Inl (sliceCollisionError (sliceKey (hash k) deploy pending)), s')
              \<and> stored (Backing s') = stored (Backing s)))
   \<and> (storeLike c stored
      \<and> createSlice c hash deploy pending k fuel' s = Some (r, s')
      \<and> stored (Backing s) key = Some x
    \<longrightarrow> stored (Backing s') key = Some x)
   \<and> reconcileError_Error (sliceCollisionError (sliceKey (hash k) deploy pending))
       = ''ObjectSlice collision with '' @ Namespace deploy @ ''/''
           @ NameFor (hash k) (Name deploy) (SliceObjects pending)"
proof (intro conjI impI)
  assume "Create_ObjectSlice c (namedSlice (hash k) deploy pending) (Backing s) = (Some e, w1)
      \<and> IsAlreadyExists e
      \<and> Get_ObjectSlice c (sliceKey (hash k) deploy pending) newObjectSlice w1
          = ((None, existing), w2)
      \<and> SliceObjects existing \<noteq> SliceObjects pending"
  then show "createSlice c hash deploy pending k (Suc fuel) s =
          Some (Inl (sliceCollisionError (sliceKey (hash k) deploy pending)),
            \<lparr>Log = Log s
               @ [(CreateSlice (namedSlice (hash k) deploy pending), Some e),
                  (GetSlice (sliceKey (hash k) deploy pending), None)],
             Backing = w2\<rparr>)"
    using createSlice_collision [of c hash k deploy pending s e w1 existing w2 fuel] by blast
next
  assume "storeLike c stored
      \<and> stored (Backing s) (sliceKey (hash k) deploy pending) = Some existing
      \<and> SliceObjects existing \<noteq> SliceObjects pending"
  then show "\<exists>s'. createSlice c hash deploy pending k (Suc fuel) s
                 = Some (Inl (sliceCollisionError (sliceKey (hash k) deploy pending)), s')
              \<and> stored (Backing s') = stored (Backing s)"
    using createSlice_on_store_collision [of c stored s hash k deploy pending existing fuel]
    by blast
next
  assume "storeLike c stored
      \<and> createSlice c hash deploy pending k fuel' s = Some (r, s')
      \<and> stored (Backing s) key = Some x"
  then show "stored (Backing s') key = Some x"
    using createSlice_keeps_stored [of c stored hash deploy pending k fuel' s r s' key x]
    by blast
next
  show "reconcileError_Error (sliceCollisionError (sliceKey (hash k) deploy pending))
       = ''ObjectSlice collision with '' @ Namespace deploy @ ''/''
           @ NameFor (hash k) (Name deploy) (SliceObjects pending)"
    by (simp add: sliceKey_def)
qed

lemma storeLike_sliceStoreClient: "storeLike sliceStoreClient (\<lambda>w. w)"
  by (simp add: storeLike_def sliceStoreClient_def IsAlreadyExists_def NewAlreadyExists_def
        NewNotFound_def split: option.splits)

lemma sliceKey_hashCollision:
  "sliceKey (constantHash 0) hashCollisionDeploy hashCollisionSlice
     = NamespacedName [] ''test-depl-754bcb585''"
  by (simp add: sliceKey_def NameFor_def constantHash_def hashCollisionDeploy_def
        newObjectDeployment_def emptyObjectMeta_def ObjectMeta.extend_def
        ObjectDeployment.fields_def)

theorem slice_collision_is_surfaced_and_nothing_overwritten_witness:
  "storeLike sliceStoreClient (\<lambda>w. w)
   \<and> SliceObjects storedSlice \<noteq> SliceObjects hashCollisionSlice
   \<and> (\<exists>s'. createSlice sliceStoreClient constantHash hashCollisionDeploy hashCollisionSlice
               0 (Suc 0)
               \<lparr>Log = [], Backing = [NamespacedName [] ''test-depl-754bcb585'' \<mapsto> storedSlice]\<rparr>
             = Some (Inl (sliceCollisionError (NamespacedName [] ''test-depl-754bcb585'')), s')
          \<and> Backing s' = [NamespacedName [] ''test-depl-754bcb585'' \<mapsto> storedSlice])
   \<and> reconcileError_Error (sliceCollisionError (NamespacedName ''test'' ''test''))
       = ''ObjectSlice collision with test/test''"
proof -
  have d: "SliceObjects storedSlice \<noteq> SliceObjects hashCollisionSlice"
    by (simp add: storedSlice_def hashCollisionSlice_def)
  have e: "reconcileError_Error (sliceCollisionError (NamespacedName ''test'' ''test''))
       = ''ObjectSlice collision with test/test''"
    by simp
  have r: "\<exists>s'. createSlice sliceStoreClient constantHash hashCollisionDeploy hashCollisionSlice
               0 (Suc 0)
               \<lparr>Log = [], Backing = [NamespacedName [] ''test-depl-754bcb585'' \<mapsto> storedSlice]\<rparr>
             = Some (Inl (sliceCollisionError (NamespacedName [] ''test-depl-754bcb585'')), s')
          \<and> Backing s' = [NamespacedName [] ''test-depl-754bcb585'' \<mapsto> storedSlice]"
    using slice_collision_is_surfaced_and_nothing_overwritten
            [where c = sliceStoreClient and stored = "\<lambda>w. w" and hash = constantHash and k = 0
               and deploy = hashCollisionDeploy and pending = hashCollisionSlice
               and existing = storedSlice and fuel = 0
               and s = "\<lparr>Log = [], Backing = [NamespacedName [] ''test-depl-754bcb585''
                                                 \<mapsto> storedSlice]\<rparr>",
             THEN conjunct2, THEN conjunct1]
          storeLike_sliceStoreClient d
    by (simp add: sliceKey_hashCollision)
  show ?thesis using storeLike_sliceStoreClient d r e by blast
qed

subsection \<open>Already-Exists with identical content\<close>





subsection \<open>The calls of a reconcile pass\<close>

lemma isSliceCall_simps:
  "isSliceCall (CreateSlice obj, r)" "isSliceCall (GetSlice key, r)"
  by (simp_all add: isSliceCall_def)

lemma isCollectionCall_simps:
  "isCollectionCall (ListObjectSets sel, r)" "isCollectionCall (ListObjectSlices owner, r)"
  "isCollectionCall (DeleteSlice key, r)"
  by (simp_all add: isCollectionCall_def)

lemma createSlice_Log:
  "createSlice c hash deploy pending k fuel s = Some (r, s') \<Longrightarrow>
   \<exists>xs. Log s' = Log s @ xs \<and> list_all isSliceCall xs"
proof (induction fuel arbitrary: k s)
  case 0
  then show ?case by simp
next
  case (Suc fuel)
  let ?named = "pending\<lparr>Name := NameFor (hash k) (Name deploy) (SliceObjects pending),
                        Namespace := Namespace deploy\<rparr>"
  let ?key = "ObjectKeyFromObject ?named"
  obtain r1 w1 where cr: "Create_ObjectSlice c ?named (Backing s) = (r1, w1)"
    by (metis surj_pair)
  let ?s1 = "\<lparr>Log = Log s @ [(CreateSlice ?named, r1)], Backing = w1\<rparr>"
  have d: "doCall (CreateSlice ?named) (Create_ObjectSlice c ?named) s = (r1, ?s1)"
    using cr by (simp add: doCall_def recorded_def)
  obtain r2 got w2 where g: "Get_ObjectSlice c ?key newObjectSlice w1 = ((r2, got), w2)"
    by (metis surj_pair)
  let ?s2 = "\<lparr>Log = Log s @ [(CreateSlice ?named, r1), (GetSlice ?key, r2)], Backing = w2\<rparr>"
  have dg: "doGet (GetSlice ?key) (Get_ObjectSlice c ?key newObjectSlice) ?s1
              = ((r2, got), ?s2)"
    using g by (simp add: doGet_def recorded_def)
  show ?case
  proof (cases "r1 \<noteq> None \<and> IsAlreadyExists (the r1) \<and> r2 = None
                \<and> SliceObjects got = SliceObjects pending")
    case True
    then obtain e where e: "r1 = Some e" by auto
    have "createSlice c hash deploy pending k (Suc fuel) s
            = createSlice c hash deploy pending (Suc k) fuel ?s2"
      using True e d dg by (simp add: Let_def)
    with Suc.prems have "createSlice c hash deploy pending (Suc k) fuel ?s2 = Some (r, s')"
      by simp
    from Suc.IH [OF this] obtain xs where
      "Log s' = Log ?s2 @ xs" "list_all isSliceCall xs" by blast
    then show ?thesis
      by (intro exI [of _ "(CreateSlice ?named, r1) # (GetSlice ?key, r2) # xs"])
         (simp add: isSliceCall_simps)
  next
    case False
    have "s' = ?s1 \<or> s' = ?s2"
      using False Suc.prems d dg
      by (cases r1; cases r2) (auto simp: Let_def split: if_splits)
    then show ?thesis
    proof
      assume "s' = ?s1"
      then show ?thesis
        by (intro exI [of _ "[(CreateSlice ?named, r1)]"]) (simp add: isSliceCall_simps)
    next
      assume "s' = ?s2"
      then show ?thesis
        by (intro exI [of _ "[(CreateSlice ?named, r1), (GetSlice ?key, r2)]"])
           (simp add: isSliceCall_simps)
    qed
  qed
qed

lemma createSlices_Log:
  "createSlices c hash fuel deploy chunks s = Some (r, s') \<Longrightarrow>
   \<exists>xs. Log s' = Log s @ xs \<and> list_all isSliceCall xs"
proof (induction chunks arbitrary: s r s')
  case Nil
  then show ?case by simp
next
  case (Cons chunk rest)
  from Cons.prems obtain r1 s1 where
    c1: "createSlice c hash deploy (newObjectSlice\<lparr>SliceObjects := chunk\<rparr>) 0 fuel s
           = Some (r1, s1)"
    by (auto split: option.splits)
  from createSlice_Log [OF c1] obtain xs where
    xs: "Log s1 = Log s @ xs" "list_all isSliceCall xs" by blast
  show ?case
  proof (cases r1)
    case (Inl e)
    then have "s' = s1" using Cons.prems c1 by simp
    then show ?thesis using xs by blast
  next
    case (Inr created)
    then obtain r2 where c2: "createSlices c hash fuel deploy rest s1 = Some (r2, s')"
      using Cons.prems c1 by (auto split: option.splits sum.splits)
    from Cons.IH [OF c2] obtain ys where
      "Log s' = Log s1 @ ys" "list_all isSliceCall ys" by blast
    then show ?thesis using xs by (intro exI [of _ "xs @ ys"]) simp
  qed
qed

lemma chunkPhases_Log:
  "chunkPhases c hash fuel chunker deploy phases s = Some (r, s') \<Longrightarrow>
   \<exists>xs. Log s' = Log s @ xs \<and> list_all isSliceCall xs"
proof (induction phases arbitrary: s r s')
  case Nil
  then show ?case by simp
next
  case (Cons phase rest)
  obtain r1 s1 where
    c1: "(if chunker phase = [] then Some (Inr phase, s)
            else (case createSlices c hash fuel deploy (chunker phase) s of
                    None \<Rightarrow> None
                  | Some (Inl e, s1) \<Rightarrow> Some (Inl e, s1)
                  | Some (Inr names, s1) \<Rightarrow>
                      Some (Inr (phase\<lparr>Objects := [], Slices := Slices phase @ names\<rparr>),
                            s1))) = Some (r1, s1)"
    using Cons.prems by (auto split: option.splits)
  have "\<exists>xs. Log s1 = Log s @ xs \<and> list_all isSliceCall xs"
  proof (cases "chunker phase = []")
    case True
    then have "s1 = s" using c1 by simp
    then show ?thesis by simp
  next
    case False
    then obtain r0 where "createSlices c hash fuel deploy (chunker phase) s = Some (r0, s1)"
      using c1 by (auto split: option.splits sum.splits)
    from createSlices_Log [OF this] show ?thesis .
  qed
  then obtain xs where xs: "Log s1 = Log s @ xs" "list_all isSliceCall xs" by blast
  show ?case
  proof (cases r1)
    case (Inl e)
    then have "s' = s1" using Cons.prems c1 by simp
    then show ?thesis using xs by blast
  next
    case (Inr phase')
    then obtain r2 where c2: "chunkPhases c hash fuel chunker deploy rest s1 = Some (r2, s')"
      using Cons.prems c1 by (auto split: option.splits sum.splits)
    from Cons.IH [OF c2] obtain ys where
      "Log s' = Log s1 @ ys" "list_all isSliceCall ys" by blast
    then show ?thesis using xs by (intro exI [of _ "xs @ ys"]) simp
  qed
qed

lemma deleteUnreferenced_calls:
  "\<exists>xs. Log (deleteUnreferenced c referenced stored s) = Log s @ xs
        \<and> list_all isCollectionCall xs"
proof (induction stored arbitrary: s)
  case Nil
  show ?case by simp
next
  case (Cons sl rest)
  show ?case
  proof (cases "Name sl \<in> referenced")
    case True
    then show ?thesis using Cons [of s] by simp
  next
    case False
    obtain r w1 where d: "Delete_ObjectSlice c sl (Backing s) = (r, w1)" by (metis surj_pair)
    let ?s1 = "\<lparr>Log = Log s @ [(DeleteSlice (ObjectKeyFromObject sl), r)], Backing = w1\<rparr>"
    from Cons [of ?s1] obtain xs where
      "Log (deleteUnreferenced c referenced rest ?s1) = Log ?s1 @ xs"
      "list_all isCollectionCall xs" by blast
    then show ?thesis
      using False d
      by (intro exI [of _ "(DeleteSlice (ObjectKeyFromObject sl), r) # xs"])
         (simp add: doCall_def recorded_def isCollectionCall_simps)
  qed
qed

lemma sliceGarbageCollection_calls:
  "\<exists>xs. Log (snd (sliceGarbageCollection c deploy s)) = Log s @ xs
        \<and> list_all isCollectionCall xs"
proof -
  obtain r1 w1 where l1: "List_ObjectSets c (Selector deploy) (Backing s) = (r1, w1)"
    by (metis surj_pair)
  let ?s1 = "\<lparr>Log = Log s @ [(ListObjectSets (Selector deploy), errorOf r1)], Backing = w1\<rparr>"
  obtain r2 w2 where l2: "List_ObjectSlices c (Name deploy) w1 = (r2, w2)"
    by (metis surj_pair)
  let ?s2 = "\<lparr>Log = Log s @ [(ListObjectSets (Selector deploy), errorOf r1),
                            (ListObjectSlices (Name deploy), errorOf r2)], Backing = w2\<rparr>"
  show ?thesis
  proof (cases r1)
    case (Inl e)
    then show ?thesis
      using l1
      by (intro exI [of _ "[(ListObjectSets (Selector deploy), errorOf r1)]"])
         (simp add: sliceGarbageCollection_def doList_def recorded_def isCollectionCall_simps)
  next
    case sets: (Inr objectSets)
    show ?thesis
    proof (cases r2)
      case (Inl e)
      then show ?thesis
        using l1 l2 sets
        by (intro exI [of _ "[(ListObjectSets (Selector deploy), errorOf r1),
                              (ListObjectSlices (Name deploy), errorOf r2)]"])
           (simp add: sliceGarbageCollection_def doList_def recorded_def isCollectionCall_simps)
    next
      case (Inr stored)
      from deleteUnreferenced_calls [of c
             "referencedSlices (TemplatePhases deploy)
                \<union> (\<Union>objectSet \<in> set objectSets. referencedSlices (SetPhases objectSet))"
             stored ?s2]
      obtain xs where
        "Log (deleteUnreferenced c
             (referencedSlices (TemplatePhases deploy)
                \<union> (\<Union>objectSet \<in> set objectSets. referencedSlices (SetPhases objectSet)))
             stored ?s2) = Log ?s2 @ xs" "list_all isCollectionCall xs" by blast
      then show ?thesis
        using l1 l2 sets Inr
        by (intro exI [of _ "(ListObjectSets (Selector deploy), errorOf r1)
                              # (ListObjectSlices (Name deploy), errorOf r2) # xs"])
           (simp add: sliceGarbageCollection_def doList_def recorded_def isCollectionCall_simps)
    qed
  qed
qed

lemma retriedUpdate_step:
  assumes "retriedUpdate n phases result issued" and "issued \<noteq> []"
    and "TemplatePhases obj = phases" and "IsConflict e"
  shows "retriedUpdate (Suc n) phases result
           ((UpdateDeployment obj, Some e) # (GetDeployment key, None) # issued)"
  using assms
  by (cases result)
     (auto simp: retriedUpdate_def surfaced_def isUpdate_def isGet_def isConflictResult_def
        carriesPhases_def split: prod.splits DeployCall.splits option.splits)

lemma updateWithRetry_retried:
  "\<exists>issued. Log (snd (updateWithRetry c attempts phases actual s)) = Log s @ issued
     \<and> retriedUpdate attempts phases (fst (fst (updateWithRetry c attempts phases actual s)))
          issued
     \<and> (attempts \<noteq> 0 \<longrightarrow>
          issued \<noteq> []
          \<and> hd issued = (UpdateDeployment (actual\<lparr>TemplatePhases := phases\<rparr>),
                fst (Update_ObjectDeployment c (actual\<lparr>TemplatePhases := phases\<rparr>)
                       (Backing s))))"
proof (induction attempts arbitrary: actual s)
  case 0
  show ?case by (simp add: retriedUpdate_def surfaced_def)
next
  case (Suc n)
  let ?changed = "actual\<lparr>TemplatePhases := phases\<rparr>"
  let ?key = "ObjectKeyFromObject ?changed"
  obtain r w1 where u: "Update_ObjectDeployment c ?changed (Backing s) = (r, w1)"
    by (metis surj_pair)
  have d: "doCall (UpdateDeployment ?changed) (Update_ObjectDeployment c ?changed) s
             = (r, \<lparr>Log = Log s @ [(UpdateDeployment ?changed, r)], Backing = w1\<rparr>)"
    using u by (simp add: doCall_def recorded_def)
  show ?case
  proof (cases r)
    case None
    have res: "updateWithRetry c (Suc n) phases actual s
                 = ((None, ?changed),
                    \<lparr>Log = Log s @ [(UpdateDeployment ?changed, None)], Backing = w1\<rparr>)"
      using d None by (simp add: Let_def)
    show ?thesis
      unfolding res
      by (rule exI [of _ "[(UpdateDeployment ?changed, None)]"])
         (simp add: retriedUpdate_def isUpdate_def carriesPhases_def u None)
  next
    case (Some e)
    show ?thesis
    proof (cases "IsConflict e \<and> n \<noteq> 0")
      case False
      have res: "updateWithRetry c (Suc n) phases actual s
                 = ((Some (Errorf ''updating ObjectDeployment: '' e []), ?changed),
                    \<lparr>Log = Log s @ [(UpdateDeployment ?changed, Some e)], Backing = w1\<rparr>)"
        using d Some False by (auto simp: Let_def)
      show ?thesis
        unfolding res
        by (rule exI [of _ "[(UpdateDeployment ?changed, Some e)]"])
           (use False in \<open>auto simp: retriedUpdate_def surfaced_def isUpdate_def
              carriesPhases_def u Some\<close>)
    next
      case True
      let ?s1 = "\<lparr>Log = Log s @ [(UpdateDeployment ?changed, Some e)], Backing = w1\<rparr>"
      obtain r2 reread w2 where
        g: "Get_ObjectDeployment c ?key ?changed w1 = ((r2, reread), w2)"
        by (metis surj_pair)
      let ?s2 = "\<lparr>Log = Log s @ [(UpdateDeployment ?changed, Some e), (GetDeployment ?key, r2)],
                   Backing = w2\<rparr>"
      have dg: "doGet (GetDeployment ?key) (Get_ObjectDeployment c ?key ?changed) ?s1
                  = ((r2, reread), ?s2)"
        using g by (simp add: doGet_def recorded_def)
      show ?thesis
      proof (cases r2)
        case (Some e2)
        have res: "updateWithRetry c (Suc n) phases actual s
                 = ((Some (Errorf ''getting ObjectDeployment: '' e2 []), reread), ?s2)"
          using d \<open>r = Some e\<close> True dg Some by (simp add: Let_def)
        show ?thesis
          unfolding res
          by (rule exI [of _ "[(UpdateDeployment ?changed, Some e), (GetDeployment ?key, r2)]"])
             (simp add: retriedUpdate_def surfaced_def isUpdate_def isGet_def
                isConflictResult_def carriesPhases_def Some True u \<open>r = Some e\<close>)
      next
        case None
        have eq: "updateWithRetry c (Suc n) phases actual s
                    = updateWithRetry c n phases reread ?s2"
          using True
          by (simp only: updateWithRetry.simps Let_def d \<open>r = Some e\<close> option.case prod.case
                if_True dg None simp_thms)
        from Suc.IH [of reread ?s2] obtain issued where
          i: "Log (snd (updateWithRetry c n phases reread ?s2)) = Log ?s2 @ issued"
          and rt: "retriedUpdate n phases (fst (fst (updateWithRetry c n phases reread ?s2)))
                     issued"
          and ne0: "n \<noteq> 0 \<longrightarrow> issued \<noteq> []"
          by blast
        have ne: "issued \<noteq> []" using ne0 True by simp
        have l: "Log (snd (updateWithRetry c n phases reread ?s2))
                   = Log s @ (UpdateDeployment ?changed, Some e)
                       # (GetDeployment ?key, None) # issued"
          using i None by simp
        have p: "retriedUpdate (Suc n) phases
                   (fst (fst (updateWithRetry c n phases reread ?s2)))
                   ((UpdateDeployment ?changed, Some e) # (GetDeployment ?key, None) # issued)"
          using retriedUpdate_step [OF rt ne, of ?changed e ?key] True by simp
        show ?thesis
          unfolding eq
          by (rule exI [of _ "(UpdateDeployment ?changed, Some e)
                # (GetDeployment ?key, None) # issued"])
             (simp add: l p u \<open>r = Some e\<close>)
      qed
    qed
  qed
qed

lemma updateWithRetry_versioned_stale:
  assumes "w (ObjectKeyFromObject actual) = Some cur"
    and "ObjectKeyFromObject cur = ObjectKeyFromObject actual"
    and "ResourceVersion actual \<noteq> ResourceVersion cur"
  shows "updateWithRetry versionedClient (Suc (Suc n)) phases actual \<lparr>Log = l, Backing = w\<rparr>
   = ((None, cur\<lparr>TemplatePhases := phases\<rparr>),
      \<lparr>Log = l @ [(UpdateDeployment (actual\<lparr>TemplatePhases := phases\<rparr>), Some NewConflict),
                    (GetDeployment (ObjectKeyFromObject actual), None),
                    (UpdateDeployment (cur\<lparr>TemplatePhases := phases\<rparr>), None)],
       Backing = w(ObjectKeyFromObject actual
                     \<mapsto> cur\<lparr>TemplatePhases := phases,
                            ResourceVersion := nextVersion (ResourceVersion cur)\<rparr>)\<rparr>)"
proof -
  have k: "\<And>d::ObjectDeployment. ObjectKeyFromObject (d\<lparr>TemplatePhases := phases\<rparr>)
             = ObjectKeyFromObject d"
    by (simp add: ObjectKeyFromObject_def)
  have c: "IsConflict NewConflict" by (simp add: IsConflict_def NewConflict_def)
  show ?thesis
    using assms c
    by (simp add: Let_def doCall_def doGet_def recorded_def versionedClient_def k)
qed

lemma updateWithRetry_versioned_fresh:
  assumes "w (ObjectKeyFromObject actual) = Some cur"
    and "ResourceVersion actual = ResourceVersion cur"
  shows "updateWithRetry versionedClient (Suc n) phases actual \<lparr>Log = l, Backing = w\<rparr>
   = ((None, actual\<lparr>TemplatePhases := phases\<rparr>),
      \<lparr>Log = l @ [(UpdateDeployment (actual\<lparr>TemplatePhases := phases\<rparr>), None)],
       Backing = w(ObjectKeyFromObject actual
                     \<mapsto> actual\<lparr>TemplatePhases := phases,
                               ResourceVersion := nextVersion (ResourceVersion cur)\<rparr>)\<rparr>)"
proof -
  have k: "\<And>d::ObjectDeployment. ObjectKeyFromObject (d\<lparr>TemplatePhases := phases\<rparr>)
             = ObjectKeyFromObject d"
    by (simp add: ObjectKeyFromObject_def)
  show ?thesis
    using assms
    by (simp add: Let_def doCall_def doGet_def recorded_def versionedClient_def k)
qed

lemma updateWithRetry_contended:
  "updateWithRetry contendedClient (Suc n) phases actual \<lparr>Log = l, Backing = w\<rparr>
   = ((Some (Errorf ''updating ObjectDeployment: '' NewConflict []),
       actual\<lparr>TemplatePhases := phases\<rparr>),
      \<lparr>Log = l @ concat (replicate n
                   [(UpdateDeployment (actual\<lparr>TemplatePhases := phases\<rparr>), Some NewConflict),
                    (GetDeployment (ObjectKeyFromObject actual), None)])
                @ [(UpdateDeployment (actual\<lparr>TemplatePhases := phases\<rparr>), Some NewConflict)],
       Backing = w\<rparr>)"
proof (induction n arbitrary: actual l)
  case 0
  show ?case
    by (simp add: Let_def doCall_def recorded_def contendedClient_def unprogrammedClient_def)
next
  case (Suc n)
  let ?changed = "actual\<lparr>TemplatePhases := phases\<rparr>"
  have k: "ObjectKeyFromObject ?changed = ObjectKeyFromObject actual"
    by (simp add: ObjectKeyFromObject_def)
  have c: "IsConflict NewConflict" by (simp add: IsConflict_def NewConflict_def)
  have "updateWithRetry contendedClient (Suc (Suc n)) phases actual \<lparr>Log = l, Backing = w\<rparr>
        = updateWithRetry contendedClient (Suc n) phases ?changed
            \<lparr>Log = l @ [(UpdateDeployment ?changed, Some NewConflict),
                         (GetDeployment (ObjectKeyFromObject actual), None)],
             Backing = w\<rparr>"
    using c k
    by (simp add: Let_def doCall_def doGet_def recorded_def contendedClient_def
          unprogrammedClient_def del: updateWithRetry.simps
          add: updateWithRetry.simps(2) [of _ "Suc n"])
  then show ?case
    unfolding Suc.IH [of ?changed] by (simp add: k)
qed

lemma not_isUpdate:
  "isSliceCall entry \<Longrightarrow> \<not> isUpdate entry"
  "isCollectionCall entry \<Longrightarrow> \<not> isUpdate entry"
  by (auto simp: isSliceCall_def isCollectionCall_def isUpdate_def split: DeployCall.splits)

lemma list_all_not_isUpdate:
  "list_all isSliceCall xs \<Longrightarrow> list_all (\<lambda>entry. \<not> isUpdate entry) xs"
  "list_all isCollectionCall xs \<Longrightarrow> list_all (\<lambda>entry. \<not> isUpdate entry) xs"
  using not_isUpdate by (auto simp: list_all_iff)

lemma reconcileExisting_calls:
  assumes "reconcileExisting c hash fuel attempts chunker desiredDeploy actualDeploy s
             = Some (r, s')"
  shows "\<exists>before issued after phases result.
           Log s' = Log s @ before @ issued @ after
           \<and> list_all isSliceCall before
           \<and> list_all isCollectionCall after
           \<and> (issued = [] \<or> retriedUpdate attempts phases result issued)"
proof -
  from assms obtain r1 s1 where
    ch: "chunkPhases c hash fuel chunker actualDeploy (TemplatePhases desiredDeploy) s
           = Some (r1, s1)"
    by (auto simp: reconcileExisting_def split: option.splits)
  from chunkPhases_Log [OF ch] obtain xs where
    xs: "Log s1 = Log s @ xs" "list_all isSliceCall xs" by blast
  show ?thesis
  proof (cases r1)
    case (Inl e)
    then have "s' = s1" using assms ch by (simp add: reconcileExisting_def)
    then show ?thesis
      using xs
      by (intro exI [of _ xs] exI [of _ "[]"]) simp
  next
    case (Inr phases)
    show ?thesis
    proof (cases "TemplatePhases actualDeploy = phases")
      case True
      then have s': "s' = snd (sliceGarbageCollection c actualDeploy s1)"
        using assms ch Inr by (auto simp: reconcileExisting_def)
      from sliceGarbageCollection_calls [of c actualDeploy s1] obtain ys where
        "Log (snd (sliceGarbageCollection c actualDeploy s1)) = Log s1 @ ys"
        "list_all isCollectionCall ys" by blast
      then show ?thesis
        using xs s'
        by (intro exI [of _ xs] exI [of _ "[]"] exI [of _ ys]) simp
    next
      case False
      obtain res updated s2 where
        u: "updateWithRetry c attempts phases actualDeploy s1 = ((res, updated), s2)"
        by (metis surj_pair)
      from updateWithRetry_retried [of c attempts phases actualDeploy s1] obtain issued where
        i: "Log s2 = Log s1 @ issued" "retriedUpdate attempts phases res issued"
        using u by auto
      show ?thesis
      proof (cases res)
        case (Some e)
        then have "s' = s2"
          using assms ch Inr False u by (simp add: reconcileExisting_def)
        then show ?thesis
          using xs i
          by (intro exI [of _ xs] exI [of _ issued] exI [of _ "[]"] exI [of _ phases]
                exI [of _ res]) simp
      next
        case None
        then have s': "s' = snd (sliceGarbageCollection c updated s2)"
          using assms ch Inr False u by (auto simp: reconcileExisting_def)
        from sliceGarbageCollection_calls [of c updated s2] obtain ys where
          "Log (snd (sliceGarbageCollection c updated s2)) = Log s2 @ ys"
          "list_all isCollectionCall ys" by blast
        then show ?thesis
          using xs i s'
          by (intro exI [of _ xs] exI [of _ issued] exI [of _ ys] exI [of _ phases]
                exI [of _ res]) simp
      qed
    qed
  qed
qed

lemma Reconcile_calls:
  assumes "Reconcile c hash fuel attempts chunker desiredDeploy s = Some (r, s')"
  shows "\<exists>calls. Log s' = Log s @ calls \<and> oneRetriedUpdate attempts calls
           \<and> length (filter isUpdate calls) \<le> attempts"
proof -
  let ?goal = "\<exists>calls. Log s' = Log s @ calls \<and> oneRetriedUpdate attempts calls
           \<and> length (filter isUpdate calls) \<le> attempts"
  let ?key = "ObjectKeyFromObject desiredDeploy"
  let ?emptied = "desiredDeploy\<lparr>TemplatePhases := []\<rparr>"
  obtain r0 got w1 where
    g: "Get_ObjectDeployment c ?key newObjectDeployment (Backing s) = ((r0, got), w1)"
    by (metis surj_pair)
  let ?s1 = "\<lparr>Log = Log s @ [(GetDeployment ?key, r0)], Backing = w1\<rparr>"
  have dg: "doGet (GetDeployment ?key) (Get_ObjectDeployment c ?key newObjectDeployment) s
              = ((r0, got), ?s1)"
    using g by (simp add: doGet_def recorded_def)
  obtain r1 w2 where cd: "Create_ObjectDeployment c ?emptied w1 = (r1, w2)"
    by (metis surj_pair)
  let ?s2 = "\<lparr>Log = Log s @ [(GetDeployment ?key, r0), (CreateDeployment ?emptied, r1)],
               Backing = w2\<rparr>"
  have dc: "doCall (CreateDeployment ?emptied) (Create_ObjectDeployment c ?emptied) ?s1
              = (r1, ?s2)"
    using cd by (simp add: doCall_def recorded_def)
  have fin: "\<And>first before issued after phases result.
     Log s' = Log s @ first @ before @ issued @ after \<Longrightarrow>
     list_all (\<lambda>entry. \<not> isUpdate entry) first \<Longrightarrow>
     list_all isSliceCall before \<Longrightarrow> list_all isCollectionCall after \<Longrightarrow>
     issued = [] \<or> retriedUpdate attempts phases result issued \<Longrightarrow> ?goal"
  proof -
    fix first before issued after phases result
    assume l: "Log s' = Log s @ first @ before @ issued @ after"
      and f: "list_all (\<lambda>entry. \<not> isUpdate entry) first"
      and b: "list_all isSliceCall before" and a: "list_all isCollectionCall after"
      and i: "issued = [] \<or> retriedUpdate attempts phases result issued"
    have nb: "list_all (\<lambda>entry. \<not> isUpdate entry) (first @ before)"
      using f list_all_not_isUpdate(1) [OF b] by simp
    have na: "list_all (\<lambda>entry. \<not> isUpdate entry) after"
      using list_all_not_isUpdate(2) [OF a] .
    have o: "oneRetriedUpdate attempts ((first @ before) @ issued @ after)"
      unfolding oneRetriedUpdate_def
      using nb na i by blast
    have z: "\<And>xs. list_all (\<lambda>entry. \<not> isUpdate entry) xs \<Longrightarrow> filter isUpdate xs = []"
      by (simp add: list_all_iff filter_empty_conv)
    have "length (filter isUpdate issued) \<le> attempts"
      using i by (auto simp: retriedUpdate_def)
    then have n: "length (filter isUpdate ((first @ before) @ issued @ after)) \<le> attempts"
      using z [OF nb] z [OF na] by simp
    show ?goal
      using l o n by (intro exI [of _ "(first @ before) @ issued @ after"]) simp
  qed
  show ?thesis
  proof (cases r0)
    case None
    then have "reconcileExisting c hash fuel attempts chunker desiredDeploy got ?s1
                 = Some (r, s')"
      using assms dg by (simp add: Reconcile_def Let_def)
    from reconcileExisting_calls [OF this] obtain before issued after phases result where
      "Log s' = Log ?s1 @ before @ issued @ after"
      "list_all isSliceCall before" "list_all isCollectionCall after"
      "issued = [] \<or> retriedUpdate attempts phases result issued"
      by blast
    then show ?thesis
      by (intro fin [of "[(GetDeployment ?key, r0)]" before issued after phases result])
         (simp_all add: isUpdate_def)
  next
    case (Some e)
    show ?thesis
    proof (cases "IsNotFound e")
      case False
      then have "s' = ?s1"
        using assms dg Some by (simp add: Reconcile_def Let_def)
      then show ?thesis
        by (intro fin [of "[(GetDeployment ?key, r0)]" "[]" "[]" "[]"])
           (simp_all add: isUpdate_def)
    next
      case True
      show ?thesis
      proof (cases r1)
        case (Some e2)
        then have "s' = ?s2"
          using assms dg \<open>r0 = Some e\<close> True dc by (simp add: Reconcile_def Let_def)
        then show ?thesis
          by (intro fin [of "[(GetDeployment ?key, r0), (CreateDeployment ?emptied, r1)]"
                 "[]" "[]" "[]"])
             (simp_all add: isUpdate_def)
      next
        case None
        then have "reconcileExisting c hash fuel attempts chunker desiredDeploy ?emptied ?s2
                     = Some (r, s')"
          using assms dg \<open>r0 = Some e\<close> True dc by (simp add: Reconcile_def Let_def)
        from reconcileExisting_calls [OF this] obtain before issued after phases result where
          "Log s' = Log ?s2 @ before @ issued @ after"
          "list_all isSliceCall before" "list_all isCollectionCall after"
          "issued = [] \<or> retriedUpdate attempts phases result issued"
          by blast
        then show ?thesis
          by (intro fin [of "[(GetDeployment ?key, r0), (CreateDeployment ?emptied, r1)]"
                 before issued after phases result])
             (simp_all add: isUpdate_def)
      qed
    qed
  qed
qed

subsection \<open>Reconcile of a new deployment\<close>

lemma chunkPhases_single:
  assumes "Create_ObjectSlice c
             (namedSlice (hash 0) actual (newObjectSlice\<lparr>SliceObjects := [obj]\<rparr>))
             (Backing s) = (None, w1)"
  shows "chunkPhases c hash (Suc fuel) EachObjectChunker actual
           [\<lparr>PhaseName = pn, Objects = [obj], Slices = sl\<rparr>] s
         = Some (Inr [\<lparr>PhaseName = pn, Objects = [],
                       Slices = sl @ [NameFor (hash 0) (Name actual) [obj]]\<rparr>],
                 \<lparr>Log = Log s
                    @ [(CreateSlice
                          (namedSlice (hash 0) actual (newObjectSlice\<lparr>SliceObjects := [obj]\<rparr>)),
                        None)],
                  Backing = w1\<rparr>)"
  using createSlice_created
          [of c hash 0 actual "newObjectSlice\<lparr>SliceObjects := [obj]\<rparr>" s w1 fuel] assms
  by (simp add: EachObjectChunker_def namedSlice_def del: createSlice.simps)

lemma Reconcile_scenario:
  assumes ph: "TemplatePhases deploy = [\<lparr>PhaseName = pn, Objects = [obj], Slices = []\<rparr>]"
    and g: "Get_ObjectDeployment c (ObjectKeyFromObject deploy) newObjectDeployment (Backing s)
              = ((Some e, unread), w1)"
    and nf: "IsNotFound e"
    and cd: "Create_ObjectDeployment c (deploy\<lparr>TemplatePhases := []\<rparr>) w1 = (None, w2)"
    and cs: "Create_ObjectSlice c
               (namedSlice (hash 0) deploy (newObjectSlice\<lparr>SliceObjects := [obj]\<rparr>)) w2
             = (None, w3)"
  shows "Reconcile c hash (Suc fuel) attempts EachObjectChunker deploy s =
     (case updateWithRetry c attempts
             [\<lparr>PhaseName = pn, Objects = [],
               Slices = [NameFor (hash 0) (Name deploy) [obj]]\<rparr>]
             (deploy\<lparr>TemplatePhases := []\<rparr>)
             \<lparr>Log = Log s
                @ [(GetDeployment (ObjectKeyFromObject deploy), Some e),
                   (CreateDeployment (deploy\<lparr>TemplatePhases := []\<rparr>), None),
                   (CreateSlice
                      (namedSlice (hash 0) deploy (newObjectSlice\<lparr>SliceObjects := [obj]\<rparr>)),
                    None)],
              Backing = w3\<rparr> of
        ((Some e, updated), s4) \<Rightarrow> Some (Some (storeError e), s4)
      | ((None, updated), s4) \<Rightarrow> Some (sliceGarbageCollection c updated s4))"
proof -
  let ?emptied = "deploy\<lparr>TemplatePhases := []\<rparr>"
  let ?pending = "newObjectSlice\<lparr>SliceObjects := [obj]\<rparr>"
  let ?s2 = "\<lparr>Log = Log s @ [(GetDeployment (ObjectKeyFromObject deploy), Some e),
                            (CreateDeployment ?emptied, None)], Backing = w2\<rparr>"
  have n: "namedSlice (hash 0) ?emptied ?pending = namedSlice (hash 0) deploy ?pending"
    by (simp add: namedSlice_def)
  have ch: "chunkPhases c hash (Suc fuel) EachObjectChunker ?emptied (TemplatePhases deploy) ?s2
         = Some (Inr [\<lparr>PhaseName = pn, Objects = [],
                       Slices = [NameFor (hash 0) (Name deploy) [obj]]\<rparr>],
                 \<lparr>Log = Log ?s2 @ [(CreateSlice (namedSlice (hash 0) deploy ?pending), None)],
                  Backing = w3\<rparr>)"
    using chunkPhases_single [of c hash ?emptied obj ?s2 w3 fuel pn "[]"] cs
    unfolding ph n by simp
  have ne: "(TemplatePhases ?emptied = [\<lparr>PhaseName = pn, Objects = [],
                       Slices = [NameFor (hash 0) (Name deploy) [obj]]\<rparr>]) = False"
    by simp
  have re: "reconcileExisting c hash (Suc fuel) attempts EachObjectChunker deploy ?emptied ?s2
      = (case updateWithRetry c attempts
             [\<lparr>PhaseName = pn, Objects = [],
               Slices = [NameFor (hash 0) (Name deploy) [obj]]\<rparr>]
             ?emptied
             \<lparr>Log = Log ?s2 @ [(CreateSlice (namedSlice (hash 0) deploy ?pending), None)],
              Backing = w3\<rparr> of
        ((Some e, updated), s4) \<Rightarrow> Some (Some (storeError e), s4)
      | ((None, updated), s4) \<Rightarrow> Some (sliceGarbageCollection c updated s4))"
    by (simp only: reconcileExisting_def ch option.case sum.case prod.case ne if_False)
  have dg: "doGet (GetDeployment (ObjectKeyFromObject deploy))
              (Get_ObjectDeployment c (ObjectKeyFromObject deploy) newObjectDeployment) s
            = ((Some e, unread),
               \<lparr>Log = Log s @ [(GetDeployment (ObjectKeyFromObject deploy), Some e)],
                Backing = w1\<rparr>)"
    using g by (simp add: doGet_def recorded_def)
  have dc: "doCall (CreateDeployment ?emptied) (Create_ObjectDeployment c ?emptied)
              \<lparr>Log = Log s @ [(GetDeployment (ObjectKeyFromObject deploy), Some e)],
                Backing = w1\<rparr>
            = (None, ?s2)"
    using cd by (simp add: doCall_def recorded_def)
  have "Reconcile c hash (Suc fuel) attempts EachObjectChunker deploy s
          = reconcileExisting c hash (Suc fuel) attempts EachObjectChunker deploy ?emptied ?s2"
    using nf
    by (simp only: Reconcile_def Let_def dg prod.case option.case if_True dc)
  then show ?thesis unfolding re by simp
qed

lemma carriesPhases_collection:
  "list_all isCollectionCall xs \<Longrightarrow> list_all (carriesPhases phases) xs"
  by (auto simp: list_all_iff isCollectionCall_def carriesPhases_def split: DeployCall.splits)

lemma Reconcile_scenario_calls:
  assumes ph: "TemplatePhases deploy = [\<lparr>PhaseName = pn, Objects = [obj], Slices = []\<rparr>]"
    and g: "Get_ObjectDeployment c (ObjectKeyFromObject deploy) newObjectDeployment (Backing s)
              = ((Some e, unread), w1)"
    and nf: "IsNotFound e"
    and cd: "Create_ObjectDeployment c (deploy\<lparr>TemplatePhases := []\<rparr>) w1 = (None, w2)"
    and cs: "Create_ObjectSlice c
               (namedSlice (hash 0) deploy (newObjectSlice\<lparr>SliceObjects := [obj]\<rparr>)) w2
             = (None, w3)"
  shows "\<exists>r s' rest.
           Reconcile c hash (Suc fuel) (Suc n) EachObjectChunker deploy s = Some (r, s')
           \<and> Log s' = Log s
               @ [(GetDeployment (ObjectKeyFromObject deploy), Some e),
                  (CreateDeployment (deploy\<lparr>TemplatePhases := []\<rparr>), None),
                  (CreateSlice
                     (namedSlice (hash 0) deploy (newObjectSlice\<lparr>SliceObjects := [obj]\<rparr>)),
                   None),
                  (UpdateDeployment
                     (deploy\<lparr>TemplatePhases :=
                        [\<lparr>PhaseName = pn, Objects = [],
                          Slices = [NameFor (hash 0) (Name deploy) [obj]]\<rparr>]\<rparr>),
                   fst (Update_ObjectDeployment c
                          (deploy\<lparr>TemplatePhases :=
                             [\<lparr>PhaseName = pn, Objects = [],
                               Slices = [NameFor (hash 0) (Name deploy) [obj]]\<rparr>]\<rparr>) w3))]
               @ rest
           \<and> list_all (carriesPhases
                 [\<lparr>PhaseName = pn, Objects = [],
                   Slices = [NameFor (hash 0) (Name deploy) [obj]]\<rparr>]) rest"
proof -
  let ?phases = "[\<lparr>PhaseName = pn, Objects = [],
                   Slices = [NameFor (hash 0) (Name deploy) [obj]]\<rparr>]"
  let ?emptied = "deploy\<lparr>TemplatePhases := []\<rparr>"
  let ?sliced = "deploy\<lparr>TemplatePhases := ?phases\<rparr>"
  let ?pre = "[(GetDeployment (ObjectKeyFromObject deploy), Some e),
                   (CreateDeployment ?emptied, None),
                   (CreateSlice
                      (namedSlice (hash 0) deploy (newObjectSlice\<lparr>SliceObjects := [obj]\<rparr>)),
                    None)]"
  let ?s3 = "\<lparr>Log = Log s @ ?pre, Backing = w3\<rparr>"
  have sl: "?emptied\<lparr>TemplatePhases := ?phases\<rparr> = ?sliced" by simp
  obtain res updated s4 where
    u: "updateWithRetry c (Suc n) ?phases ?emptied ?s3 = ((res, updated), s4)"
    by (metis surj_pair)
  from updateWithRetry_retried [of c "Suc n" ?phases ?emptied ?s3] obtain issued where
    i: "Log s4 = Log ?s3 @ issued" and rt: "retriedUpdate (Suc n) ?phases res issued"
    and ne: "issued \<noteq> []"
    and h: "hd issued = (UpdateDeployment ?sliced, fst (Update_ObjectDeployment c ?sliced w3))"
    using u unfolding sl by auto
  have cp: "list_all (carriesPhases ?phases) (tl issued)"
    using rt ne by (cases issued) (auto simp: retriedUpdate_def)
  have iss: "issued = hd issued # tl issued" using ne by simp
  have l4: "Log s4 = Log s @ (?pre @ [(UpdateDeployment ?sliced,
                fst (Update_ObjectDeployment c ?sliced w3))]) @ tl issued"
    using i iss h by (metis Store.select_convs(1) append.assoc append_Cons append_Nil)
  have rec: "Reconcile c hash (Suc fuel) (Suc n) EachObjectChunker deploy s =
     (case res of Some e \<Rightarrow> Some (Some (storeError e), s4)
      | None \<Rightarrow> Some (sliceGarbageCollection c updated s4))"
    unfolding Reconcile_scenario [where hash = hash and deploy = deploy and c = c and s = s
                 and fuel = fuel and attempts = "Suc n" and pn = pn and obj = obj
                 and e = e and unread = unread and ?w1.0 = w1 and ?w2.0 = w2 and ?w3.0 = w3,
               OF ph g nf cd cs] u
    by (simp split: option.splits)
  show ?thesis
  proof (cases res)
    case (Some err)
    show ?thesis
      unfolding rec Some
      by (intro exI [of _ "Some (storeError err)"] exI [of _ s4] exI [of _ "tl issued"])
         (use l4 cp in simp)
  next
    case None
    from sliceGarbageCollection_calls [of c updated s4] obtain ys where
      y: "Log (snd (sliceGarbageCollection c updated s4)) = Log s4 @ ys"
      and yc: "list_all isCollectionCall ys" by blast
    show ?thesis
      unfolding rec None
      by (intro exI [of _ "fst (sliceGarbageCollection c updated s4)"]
            exI [of _ "snd (sliceGarbageCollection c updated s4)"]
            exI [of _ "tl issued @ ys"])
         (use l4 cp y carriesPhases_collection [OF yc] in simp)
  qed
qed

lemma Reconcile_scenario_success:
  assumes ph: "TemplatePhases deploy = [\<lparr>PhaseName = pn, Objects = [obj], Slices = []\<rparr>]"
    and g: "Get_ObjectDeployment c (ObjectKeyFromObject deploy) newObjectDeployment (Backing s)
              = ((Some e, unread), w1)"
    and nf: "IsNotFound e"
    and cd: "Create_ObjectDeployment c (deploy\<lparr>TemplatePhases := []\<rparr>) w1 = (None, w2)"
    and cs: "Create_ObjectSlice c
               (namedSlice (hash 0) deploy (newObjectSlice\<lparr>SliceObjects := [obj]\<rparr>)) w2
             = (None, w3)"
    and up: "Update_ObjectDeployment c
               (deploy\<lparr>TemplatePhases :=
                  [\<lparr>PhaseName = pn, Objects = [],
                    Slices = [NameFor (hash 0) (Name deploy) [obj]]\<rparr>]\<rparr>) w3 = (None, w4)"
    and l1: "List_ObjectSets c (Selector deploy) w4 = (Inr objectSets, w5)"
    and l2: "List_ObjectSlices c (Name deploy) w5 = (Inr stored, w6)"
  shows "\<exists>s'. Reconcile c hash (Suc fuel) (Suc n) EachObjectChunker deploy s = Some (None, s')
           \<and> map fst (Log s') = map fst (Log s)
               @ [GetDeployment (ObjectKeyFromObject deploy),
                  CreateDeployment (deploy\<lparr>TemplatePhases := []\<rparr>),
                  CreateSlice
                    (namedSlice (hash 0) deploy (newObjectSlice\<lparr>SliceObjects := [obj]\<rparr>)),
                  UpdateDeployment
                    (deploy\<lparr>TemplatePhases :=
                       [\<lparr>PhaseName = pn, Objects = [],
                         Slices = [NameFor (hash 0) (Name deploy) [obj]]\<rparr>]\<rparr>),
                  ListObjectSets (Selector deploy),
                  ListObjectSlices (Name deploy)]
               @ map (\<lambda>sl. DeleteSlice (ObjectKeyFromObject sl))
                   (filter (\<lambda>sl. Name sl \<notin> insert (NameFor (hash 0) (Name deploy) [obj])
                                      (\<Union>objectSet \<in> set objectSets.
                                         referencedSlices (SetPhases objectSet))) stored)"
proof -
  let ?phases = "[\<lparr>PhaseName = pn, Objects = [],
                   Slices = [NameFor (hash 0) (Name deploy) [obj]]\<rparr>]"
  let ?emptied = "deploy\<lparr>TemplatePhases := []\<rparr>"
  let ?sliced = "deploy\<lparr>TemplatePhases := ?phases\<rparr>"
  let ?pre = "[(GetDeployment (ObjectKeyFromObject deploy), Some e),
                   (CreateDeployment ?emptied, None),
                   (CreateSlice
                      (namedSlice (hash 0) deploy (newObjectSlice\<lparr>SliceObjects := [obj]\<rparr>)),
                    None)]"
  let ?s3 = "\<lparr>Log = Log s @ ?pre, Backing = w3\<rparr>"
  let ?s4 = "\<lparr>Log = Log s @ ?pre @ [(UpdateDeployment ?sliced, None)], Backing = w4\<rparr>"
  have u: "updateWithRetry c (Suc n) ?phases ?emptied ?s3 = ((None, ?sliced), ?s4)"
    using up by (simp add: Let_def doCall_def recorded_def)
  have rec: "Reconcile c hash (Suc fuel) (Suc n) EachObjectChunker deploy s
               = Some (sliceGarbageCollection c ?sliced ?s4)"
    unfolding Reconcile_scenario [where hash = hash and deploy = deploy and c = c and s = s
                 and fuel = fuel and attempts = "Suc n" and pn = pn and obj = obj
                 and e = e and unread = unread and ?w1.0 = w1 and ?w2.0 = w2 and ?w3.0 = w3,
               OF ph g nf cd cs] u
    by simp
  have gc: "fst (sliceGarbageCollection c ?sliced ?s4) = None
    \<and> map fst (Log (snd (sliceGarbageCollection c ?sliced ?s4))) =
        map fst (Log ?s4)
        @ [ListObjectSets (Selector ?sliced), ListObjectSlices (Name ?sliced)]
        @ map (\<lambda>sl. DeleteSlice (ObjectKeyFromObject sl))
            (filter (\<lambda>sl. Name sl \<notin> allReferenced ?sliced objectSets) stored)"
    by (rule sliceGarbageCollection_Log [of c ?sliced ?s4 objectSets w5 stored w6])
       (use l1 l2 in simp_all)
  have ar: "allReferenced ?sliced objectSets
              = insert (NameFor (hash 0) (Name deploy) [obj])
                  (\<Union>objectSet \<in> set objectSets. referencedSlices (SetPhases objectSet))"
    by (simp add: allReferenced_def referencedSlices_def)
  show ?thesis
    unfolding rec
    by (intro exI [of _ "snd (sliceGarbageCollection c ?sliced ?s4)"])
       (use gc ar in \<open>simp add: prod_eq_iff\<close>)
qed

text \<open>
  Claim C1. For a deployment whose template is one phase holding a single object template,
  with nothing stored under its name (the \<open>Get\<close> is not found) and with the two \<open>Create\<close>s
  accepted, one \<open>Reconcile\<close> returns and its calls are, in this order: the \<open>Get\<close>, the
  creation of the object with an empty phase list, the creation of a slice whose objects
  are exactly the single template, and the update of the object to the one phase, of the
  same name, that holds no objects and refers to that slice; every later update carries
  the same phases. Where this update and the two listings of garbage collection succeed,
  \<open>Reconcile\<close> returns no error after these calls, the listings and the deletions. The
  name of the slice is the name of the deployment, a dash and the hash of the content: a
  function of these alone, whatever the client and the store. This holds for every client,
  object template, phase name, deployment, hash function, and for all fuel and attempts
  from one on. The object created and updated, the Revision of the specification, is the
  \<open>ObjectDeployment\<close> of the test.
\<close>

theorem Reconcile_creates_empty_then_slice_then_updates:
  "(TemplatePhases deploy = [\<lparr>PhaseName = pn, Objects = [obj], Slices = []\<rparr>]
    \<and> Get_ObjectDeployment c (ObjectKeyFromObject deploy) newObjectDeployment (Backing s)
         = ((Some e, unread), w1)
    \<and> IsNotFound e
    \<and> Create_ObjectDeployment c (deploy\<lparr>TemplatePhases := []\<rparr>) w1 = (None, w2)
    \<and> Create_ObjectSlice c
         (namedSlice (hash 0) deploy (newObjectSlice\<lparr>SliceObjects := [obj]\<rparr>)) w2
       = (None, w3)
    \<longrightarrow> (\<exists>r s' rest.
           Reconcile c hash (Suc fuel) (Suc n) EachObjectChunker deploy s = Some (r, s')
           \<and> Log s' = Log s
               @ [(GetDeployment (ObjectKeyFromObject deploy), Some e),
                  (CreateDeployment (deploy\<lparr>TemplatePhases := []\<rparr>), None),
                  (CreateSlice
                     (namedSlice (hash 0) deploy (newObjectSlice\<lparr>SliceObjects := [obj]\<rparr>)),
                   None),
                  (UpdateDeployment
                     (deploy\<lparr>TemplatePhases :=
                        [\<lparr>PhaseName = pn, Objects = [],
                          Slices = [NameFor (hash 0) (Name deploy) [obj]]\<rparr>]\<rparr>),
                   fst (Update_ObjectDeployment c
                          (deploy\<lparr>TemplatePhases :=
                             [\<lparr>PhaseName = pn, Objects = [],
                               Slices = [NameFor (hash 0) (Name deploy) [obj]]\<rparr>]\<rparr>) w3))]
               @ rest
           \<and> list_all (carriesPhases
                 [\<lparr>PhaseName = pn, Objects = [],
                   Slices = [NameFor (hash 0) (Name deploy) [obj]]\<rparr>]) rest))
   \<and> (TemplatePhases deploy = [\<lparr>PhaseName = pn, Objects = [obj], Slices = []\<rparr>]
    \<and> Get_ObjectDeployment c (ObjectKeyFromObject deploy) newObjectDeployment (Backing s)
         = ((Some e, unread), w1)
    \<and> IsNotFound e
    \<and> Create_ObjectDeployment c (deploy\<lparr>TemplatePhases := []\<rparr>) w1 = (None, w2)
    \<and> Create_ObjectSlice c
         (namedSlice (hash 0) deploy (newObjectSlice\<lparr>SliceObjects := [obj]\<rparr>)) w2
       = (None, w3)
    \<and> Update_ObjectDeployment c
         (deploy\<lparr>TemplatePhases :=
            [\<lparr>PhaseName = pn, Objects = [],
              Slices = [NameFor (hash 0) (Name deploy) [obj]]\<rparr>]\<rparr>) w3 = (None, w4)
    \<and> List_ObjectSets c (Selector deploy) w4 = (Inr objectSets, w5)
    \<and> List_ObjectSlices c (Name deploy) w5 = (Inr stored, w6)
    \<longrightarrow> (\<exists>s'. Reconcile c hash (Suc fuel) (Suc n) EachObjectChunker deploy s = Some (None, s')
           \<and> map fst (Log s') = map fst (Log s)
               @ [GetDeployment (ObjectKeyFromObject deploy),
                  CreateDeployment (deploy\<lparr>TemplatePhases := []\<rparr>),
                  CreateSlice
                    (namedSlice (hash 0) deploy (newObjectSlice\<lparr>SliceObjects := [obj]\<rparr>)),
                  UpdateDeployment
                    (deploy\<lparr>TemplatePhases :=
                       [\<lparr>PhaseName = pn, Objects = [],
                         Slices = [NameFor (hash 0) (Name deploy) [obj]]\<rparr>]\<rparr>),
                  ListObjectSets (Selector deploy),
                  ListObjectSlices (Name deploy)]
               @ map (\<lambda>sl. DeleteSlice (ObjectKeyFromObject sl))
                   (filter (\<lambda>sl. Name sl \<notin> insert (NameFor (hash 0) (Name deploy) [obj])
                                      (\<Union>objectSet \<in> set objectSets.
                                         referencedSlices (SetPhases objectSet))) stored)))
   \<and> SliceObjects (namedSlice (hash 0) deploy (newObjectSlice\<lparr>SliceObjects := [obj]\<rparr>)) = [obj]
   \<and> Name (namedSlice (hash 0) deploy (newObjectSlice\<lparr>SliceObjects := [obj]\<rparr>))
       = Name deploy @ ''-'' @ hash 0 [obj]"
proof (intro conjI impI)
  assume "TemplatePhases deploy = [\<lparr>PhaseName = pn, Objects = [obj], Slices = []\<rparr>]
    \<and> Get_ObjectDeployment c (ObjectKeyFromObject deploy) newObjectDeployment (Backing s)
         = ((Some e, unread), w1)
    \<and> IsNotFound e
    \<and> Create_ObjectDeployment c (deploy\<lparr>TemplatePhases := []\<rparr>) w1 = (None, w2)
    \<and> Create_ObjectSlice c
         (namedSlice (hash 0) deploy (newObjectSlice\<lparr>SliceObjects := [obj]\<rparr>)) w2
       = (None, w3)"
  then show "\<exists>r s' rest.
           Reconcile c hash (Suc fuel) (Suc n) EachObjectChunker deploy s = Some (r, s')
           \<and> Log s' = Log s
               @ [(GetDeployment (ObjectKeyFromObject deploy), Some e),
                  (CreateDeployment (deploy\<lparr>TemplatePhases := []\<rparr>), None),
                  (CreateSlice
                     (namedSlice (hash 0) deploy (newObjectSlice\<lparr>SliceObjects := [obj]\<rparr>)),
                   None),
                  (UpdateDeployment
                     (deploy\<lparr>TemplatePhases :=
                        [\<lparr>PhaseName = pn, Objects = [],
                          Slices = [NameFor (hash 0) (Name deploy) [obj]]\<rparr>]\<rparr>),
                   fst (Update_ObjectDeployment c
                          (deploy\<lparr>TemplatePhases :=
                             [\<lparr>PhaseName = pn, Objects = [],
                               Slices = [NameFor (hash 0) (Name deploy) [obj]]\<rparr>]\<rparr>) w3))]
               @ rest
           \<and> list_all (carriesPhases
                 [\<lparr>PhaseName = pn, Objects = [],
                   Slices = [NameFor (hash 0) (Name deploy) [obj]]\<rparr>]) rest"
    using Reconcile_scenario_calls
            [where hash = hash and deploy = deploy and c = c and s = s
               and fuel = fuel and n = n and pn = pn and obj = obj
               and e = e and unread = unread and ?w1.0 = w1 and ?w2.0 = w2 and ?w3.0 = w3]
    by blast
next
  assume "TemplatePhases deploy = [\<lparr>PhaseName = pn, Objects = [obj], Slices = []\<rparr>]
    \<and> Get_ObjectDeployment c (ObjectKeyFromObject deploy) newObjectDeployment (Backing s)
         = ((Some e, unread), w1)
    \<and> IsNotFound e
    \<and> Create_ObjectDeployment c (deploy\<lparr>TemplatePhases := []\<rparr>) w1 = (None, w2)
    \<and> Create_ObjectSlice c
         (namedSlice (hash 0) deploy (newObjectSlice\<lparr>SliceObjects := [obj]\<rparr>)) w2
       = (None, w3)
    \<and> Update_ObjectDeployment c
         (deploy\<lparr>TemplatePhases :=
            [\<lparr>PhaseName = pn, Objects = [],
              Slices = [NameFor (hash 0) (Name deploy) [obj]]\<rparr>]\<rparr>) w3 = (None, w4)
    \<and> List_ObjectSets c (Selector deploy) w4 = (Inr objectSets, w5)
    \<and> List_ObjectSlices c (Name deploy) w5 = (Inr stored, w6)"
  then show "\<exists>s'. Reconcile c hash (Suc fuel) (Suc n) EachObjectChunker deploy s = Some (None, s')
           \<and> map fst (Log s') = map fst (Log s)
               @ [GetDeployment (ObjectKeyFromObject deploy),
                  CreateDeployment (deploy\<lparr>TemplatePhases := []\<rparr>),
                  CreateSlice
                    (namedSlice (hash 0) deploy (newObjectSlice\<lparr>SliceObjects := [obj]\<rparr>)),
                  UpdateDeployment
                    (deploy\<lparr>TemplatePhases :=
                       [\<lparr>PhaseName = pn, Objects = [],
                         Slices = [NameFor (hash 0) (Name deploy) [obj]]\<rparr>]\<rparr>),
                  ListObjectSets (Selector deploy),
                  ListObjectSlices (Name deploy)]
               @ map (\<lambda>sl. DeleteSlice (ObjectKeyFromObject sl))
                   (filter (\<lambda>sl. Name sl \<notin> insert (NameFor (hash 0) (Name deploy) [obj])
                                      (\<Union>objectSet \<in> set objectSets.
                                         referencedSlices (SetPhases objectSet))) stored)"
    using Reconcile_scenario_success
            [where hash = hash and deploy = deploy and c = c and s = s
               and fuel = fuel and n = n and pn = pn and obj = obj
               and e = e and unread = unread and ?w1.0 = w1 and ?w2.0 = w2 and ?w3.0 = w3
               and ?w4.0 = w4 and ?w5.0 = w5 and ?w6.0 = w6 and objectSets = objectSets
               and stored = stored]
    by blast
next
  show "SliceObjects (namedSlice (hash 0) deploy (newObjectSlice\<lparr>SliceObjects := [obj]\<rparr>))
          = [obj]"
    by (simp add: namedSlice_def)
next
  show "Name (namedSlice (hash 0) deploy (newObjectSlice\<lparr>SliceObjects := [obj]\<rparr>))
       = Name deploy @ ''-'' @ hash 0 [obj]"
    by (simp add: namedSlice_def NameFor_def)
qed

lemmas fixture_defs =
  testDeploy_def newObjectDeployment_def newObjectSlice_def newObjectSet_def
  emptyObjectMeta_def ObjectMeta.extend_def ObjectDeployment.fields_def
  ObjectSlice.fields_def ObjectSet.fields_def freshMock_def noCalls_def

lemma namedSlice_test:
  "namedSlice (constantHash 0) testDeploy (newObjectSlice\<lparr>SliceObjects := [JObject []]\<rparr>)
     = newObjectSlice\<lparr>Name := ''test-depl-754bcb585'', SliceObjects := [JObject []]\<rparr>"
  by (simp add: namedSlice_def NameFor_def constantHash_def fixture_defs)

lemma NameFor_test:
  "NameFor (constantHash 0) (Name testDeploy) [JObject []] = ''test-depl-754bcb585''"
  by (simp add: NameFor_def constantHash_def fixture_defs)

theorem Reconcile_creates_empty_then_slice_then_updates_witness:
  "(\<exists>r s' rest.
      Reconcile reconcileTestClient constantHash 1 2 EachObjectChunker testDeploy freshMock
        = Some (r, s')
      \<and> Log s' =
          [(GetDeployment (NamespacedName [] ''test-depl''), Some NewNotFound),
           (CreateDeployment (testDeploy\<lparr>TemplatePhases := []\<rparr>), None),
           (CreateSlice (newObjectSlice\<lparr>Name := ''test-depl-754bcb585'',
                                        SliceObjects := [JObject []]\<rparr>), None),
           (UpdateDeployment
              (testDeploy\<lparr>TemplatePhases :=
                 [\<lparr>PhaseName = ''test'', Objects = [],
                   Slices = [''test-depl-754bcb585'']\<rparr>]\<rparr>),
            Some NewConflict)] @ rest
      \<and> list_all (carriesPhases
            [\<lparr>PhaseName = ''test'', Objects = [], Slices = [''test-depl-754bcb585'']\<rparr>]) rest)
   \<and> (\<exists>s'. Reconcile sliceStoreClient constantHash 1 1 EachObjectChunker testDeploy
              \<lparr>Log = [], Backing = Map.empty\<rparr> = Some (None, s')
          \<and> map fst (Log s') =
              [GetDeployment (NamespacedName [] ''test-depl''),
               CreateDeployment (testDeploy\<lparr>TemplatePhases := []\<rparr>),
               CreateSlice (newObjectSlice\<lparr>Name := ''test-depl-754bcb585'',
                                           SliceObjects := [JObject []]\<rparr>),
               UpdateDeployment
                 (testDeploy\<lparr>TemplatePhases :=
                    [\<lparr>PhaseName = ''test'', Objects = [],
                      Slices = [''test-depl-754bcb585'']\<rparr>]\<rparr>),
               ListObjectSets [],
               ListObjectSlices ''test-depl''])"
proof -
  have one: "(1::nat) = Suc 0" and two: "(2::nat) = Suc (Suc 0)" by simp_all
  have key: "ObjectKeyFromObject testDeploy = NamespacedName [] ''test-depl''"
    by (simp add: ObjectKeyFromObject_def fixture_defs)
  have ph: "TemplatePhases testDeploy
              = [\<lparr>PhaseName = ''test'', Objects = [JObject []], Slices = []\<rparr>]"
    by (simp add: fixture_defs)
  have nf: "IsNotFound NewNotFound" by (simp add: IsNotFound_def NewNotFound_def)
  have sel: "Selector testDeploy = []" "Name testDeploy = ''test-depl''"
    by (simp_all add: fixture_defs)
  have a: "\<exists>r s' rest.
      Reconcile reconcileTestClient constantHash 1 2 EachObjectChunker testDeploy freshMock
        = Some (r, s')
      \<and> Log s' =
          [(GetDeployment (NamespacedName [] ''test-depl''), Some NewNotFound),
           (CreateDeployment (testDeploy\<lparr>TemplatePhases := []\<rparr>), None),
           (CreateSlice (newObjectSlice\<lparr>Name := ''test-depl-754bcb585'',
                                        SliceObjects := [JObject []]\<rparr>), None),
           (UpdateDeployment
              (testDeploy\<lparr>TemplatePhases :=
                 [\<lparr>PhaseName = ''test'', Objects = [],
                   Slices = [''test-depl-754bcb585'']\<rparr>]\<rparr>),
            Some NewConflict)] @ rest
      \<and> list_all (carriesPhases
            [\<lparr>PhaseName = ''test'', Objects = [], Slices = [''test-depl-754bcb585'']\<rparr>]) rest"
    using Reconcile_creates_empty_then_slice_then_updates
            [where c = reconcileTestClient and hash = constantHash and deploy = testDeploy
               and pn = "''test''" and obj = "JObject []" and s = freshMock
               and e = NewNotFound and unread = newObjectDeployment
               and ?w1.0 = "noCalls\<lparr>getDeploymentCalls := 1\<rparr>"
               and ?w2.0 = "noCalls\<lparr>getDeploymentCalls := 1\<rparr>"
               and ?w3.0 = "noCalls\<lparr>getDeploymentCalls := 1\<rparr>"
               and fuel = 0 and n = "Suc 0", THEN conjunct1]
          ph nf
    unfolding one two key namedSlice_test NameFor_test
    by (simp add: reconcileTestClient_def unprogrammedClient_def freshMock_def noCalls_def)
  have b: "\<exists>s'. Reconcile sliceStoreClient constantHash 1 1 EachObjectChunker testDeploy
              \<lparr>Log = [], Backing = Map.empty\<rparr> = Some (None, s')
          \<and> map fst (Log s') =
              [GetDeployment (NamespacedName [] ''test-depl''),
               CreateDeployment (testDeploy\<lparr>TemplatePhases := []\<rparr>),
               CreateSlice (newObjectSlice\<lparr>Name := ''test-depl-754bcb585'',
                                           SliceObjects := [JObject []]\<rparr>),
               UpdateDeployment
                 (testDeploy\<lparr>TemplatePhases :=
                    [\<lparr>PhaseName = ''test'', Objects = [],
                      Slices = [''test-depl-754bcb585'']\<rparr>]\<rparr>),
               ListObjectSets [],
               ListObjectSlices ''test-depl'']"
    using Reconcile_creates_empty_then_slice_then_updates
            [where c = sliceStoreClient and hash = constantHash and deploy = testDeploy
               and pn = "''test''" and obj = "JObject []"
               and s = "\<lparr>Log = [], Backing = Map.empty\<rparr>"
               and e = NewNotFound and unread = newObjectDeployment
               and ?w1.0 = Map.empty and ?w2.0 = Map.empty
               and ?w3.0 = "[NamespacedName [] ''test-depl-754bcb585''
                              \<mapsto> newObjectSlice\<lparr>Name := ''test-depl-754bcb585'',
                                                  SliceObjects := [JObject []]\<rparr>]"
               and ?w4.0 = "[NamespacedName [] ''test-depl-754bcb585''
                              \<mapsto> newObjectSlice\<lparr>Name := ''test-depl-754bcb585'',
                                                  SliceObjects := [JObject []]\<rparr>]"
               and ?w5.0 = "[NamespacedName [] ''test-depl-754bcb585''
                              \<mapsto> newObjectSlice\<lparr>Name := ''test-depl-754bcb585'',
                                                  SliceObjects := [JObject []]\<rparr>]"
               and ?w6.0 = "[NamespacedName [] ''test-depl-754bcb585''
                              \<mapsto> newObjectSlice\<lparr>Name := ''test-depl-754bcb585'',
                                                  SliceObjects := [JObject []]\<rparr>]"
               and objectSets = "[]" and stored = "[]"
               and fuel = 0 and n = 0, THEN conjunct2, THEN conjunct1]
          ph nf
    unfolding one key namedSlice_test NameFor_test sel
    by (simp add: sliceStoreClient_def ObjectKeyFromObject_def newObjectSlice_def
          emptyObjectMeta_def ObjectMeta.extend_def ObjectSlice.fields_def NameFor_def
          constantHash_def)
  show ?thesis using a b by (rule conjI)
qed

subsection \<open>Updates under optimistic concurrency\<close>

lemma updateWithRetry_conflict_once:
  assumes "Update_ObjectDeployment c (actual\<lparr>TemplatePhases := phases\<rparr>) (Backing s)
             = (Some e1, w1)"
    and "IsConflict e1"
    and "Get_ObjectDeployment c (ObjectKeyFromObject actual)
           (actual\<lparr>TemplatePhases := phases\<rparr>) w1 = ((None, reread), w2)"
    and "Update_ObjectDeployment c (reread\<lparr>TemplatePhases := phases\<rparr>) w2 = (None, w3)"
  shows "updateWithRetry c (Suc (Suc n)) phases actual s
   = ((None, reread\<lparr>TemplatePhases := phases\<rparr>),
      \<lparr>Log = Log s @ [(UpdateDeployment (actual\<lparr>TemplatePhases := phases\<rparr>), Some e1),
                        (GetDeployment (ObjectKeyFromObject actual), None),
                        (UpdateDeployment (reread\<lparr>TemplatePhases := phases\<rparr>), None)],
       Backing = w3\<rparr>)"
proof -
  have k: "ObjectKeyFromObject (actual\<lparr>TemplatePhases := phases\<rparr>) = ObjectKeyFromObject actual"
    by (simp add: ObjectKeyFromObject_def)
  show ?thesis
    using assms by (simp add: Let_def doCall_def doGet_def recorded_def k)
qed

lemma Reconcile_conflict_once:
  assumes ph: "TemplatePhases deploy = [\<lparr>PhaseName = pn, Objects = [obj], Slices = []\<rparr>]"
    and g: "Get_ObjectDeployment c (ObjectKeyFromObject deploy) newObjectDeployment (Backing s)
              = ((Some e, unread), w1)"
    and nf: "IsNotFound e"
    and cd: "Create_ObjectDeployment c (deploy\<lparr>TemplatePhases := []\<rparr>) w1 = (None, w2)"
    and cs: "Create_ObjectSlice c
               (namedSlice (hash 0) deploy (newObjectSlice\<lparr>SliceObjects := [obj]\<rparr>)) w2
             = (None, w3)"
    and u1: "Update_ObjectDeployment c
               (deploy\<lparr>TemplatePhases :=
                  [\<lparr>PhaseName = pn, Objects = [],
                    Slices = [NameFor (hash 0) (Name deploy) [obj]]\<rparr>]\<rparr>) w3 = (Some e1, w4)"
    and cf: "IsConflict e1"
    and rr: "Get_ObjectDeployment c (ObjectKeyFromObject deploy)
               (deploy\<lparr>TemplatePhases :=
                  [\<lparr>PhaseName = pn, Objects = [],
                    Slices = [NameFor (hash 0) (Name deploy) [obj]]\<rparr>]\<rparr>) w4
             = ((None, reread), w5)"
    and u2: "Update_ObjectDeployment c
               (reread\<lparr>TemplatePhases :=
                  [\<lparr>PhaseName = pn, Objects = [],
                    Slices = [NameFor (hash 0) (Name deploy) [obj]]\<rparr>]\<rparr>) w5 = (None, w6)"
    and l1: "List_ObjectSets c (Selector reread) w6 = (Inr objectSets, w7)"
    and l2: "List_ObjectSlices c (Name reread) w7 = (Inr stored, w8)"
  shows "\<exists>s'. Reconcile c hash (Suc fuel) (Suc (Suc n)) EachObjectChunker deploy s
                 = Some (None, s')
           \<and> filter isUpdate (Log s') = filter isUpdate (Log s)
               @ [(UpdateDeployment
                     (deploy\<lparr>TemplatePhases :=
                        [\<lparr>PhaseName = pn, Objects = [],
                          Slices = [NameFor (hash 0) (Name deploy) [obj]]\<rparr>]\<rparr>), Some e1),
                  (UpdateDeployment
                     (reread\<lparr>TemplatePhases :=
                        [\<lparr>PhaseName = pn, Objects = [],
                          Slices = [NameFor (hash 0) (Name deploy) [obj]]\<rparr>]\<rparr>), None)]"
proof -
  let ?phases = "[\<lparr>PhaseName = pn, Objects = [],
                   Slices = [NameFor (hash 0) (Name deploy) [obj]]\<rparr>]"
  let ?emptied = "deploy\<lparr>TemplatePhases := []\<rparr>"
  let ?sliced = "deploy\<lparr>TemplatePhases := ?phases\<rparr>"
  let ?final = "reread\<lparr>TemplatePhases := ?phases\<rparr>"
  let ?pre = "[(GetDeployment (ObjectKeyFromObject deploy), Some e),
                   (CreateDeployment ?emptied, None),
                   (CreateSlice
                      (namedSlice (hash 0) deploy (newObjectSlice\<lparr>SliceObjects := [obj]\<rparr>)),
                    None)]"
  let ?s3 = "\<lparr>Log = Log s @ ?pre, Backing = w3\<rparr>"
  let ?upd = "[(UpdateDeployment ?sliced, Some e1),
               (GetDeployment (ObjectKeyFromObject deploy), None),
               (UpdateDeployment ?final, None)]"
  let ?s6 = "\<lparr>Log = Log s @ ?pre @ ?upd, Backing = w6\<rparr>"
  have ke: "ObjectKeyFromObject ?emptied = ObjectKeyFromObject deploy"
    by (simp add: ObjectKeyFromObject_def)
  have u: "updateWithRetry c (Suc (Suc n)) ?phases ?emptied ?s3 = ((None, ?final), ?s6)"
    using updateWithRetry_conflict_once
            [where c = c and actual = ?emptied and phases = ?phases and s = ?s3 and ?e1.0 = e1
               and ?w1.0 = w4 and reread = reread and ?w2.0 = w5 and ?w3.0 = w6 and n = n]
      u1 cf rr u2 ke
    by simp
  have rec: "Reconcile c hash (Suc fuel) (Suc (Suc n)) EachObjectChunker deploy s
               = Some (sliceGarbageCollection c ?final ?s6)"
    unfolding Reconcile_scenario [where hash = hash and deploy = deploy and c = c and s = s
                 and fuel = fuel and attempts = "Suc (Suc n)" and pn = pn and obj = obj
                 and e = e and unread = unread and ?w1.0 = w1 and ?w2.0 = w2 and ?w3.0 = w3,
               OF ph g nf cd cs] u
    by simp
  have gc: "fst (sliceGarbageCollection c ?final ?s6) = None"
    using sliceGarbageCollection_Log [of c ?final ?s6 objectSets w7 stored w8] l1 l2
    by simp
  from sliceGarbageCollection_calls [of c ?final ?s6] obtain ys where
    y: "Log (snd (sliceGarbageCollection c ?final ?s6)) = Log ?s6 @ ys"
    and yc: "list_all isCollectionCall ys" by blast
  have yn: "filter isUpdate ys = []"
    using list_all_not_isUpdate(2) [OF yc] by (simp add: list_all_iff filter_empty_conv)
  show ?thesis
    unfolding rec
    by (intro exI [of _ "snd (sliceGarbageCollection c ?final ?s6)"])
       (use gc y yn in \<open>simp add: prod_eq_iff isUpdate_def\<close>)
qed

text \<open>
  Claim C5. For every client, the calls of the update of the reconciled object are one
  retried update: at most as many updates as attempts allowed; every update that was
  refused, but the last, was a conflict and is followed by a read of the object; every
  update carries the change; nil is returned only after an update that the store
  accepted; and a conflict is surfaced as an error only when as many updates were tried
  as attempts allowed. Every \<open>Update\<close> that a \<open>Reconcile\<close> issues lies in one such retried
  update. On a store under optimistic concurrency that holds a newer version than the one
  at hand, the first update is a conflict, the object is read again, and what is stored in
  the end is the newer object with the change applied, under the next version. Where every
  update is a conflict, the error "updating ObjectDeployment" with the conflict is
  returned after exactly as many updates as attempts allowed. And where the first update
  of a new deployment is a conflict and the read and the second update succeed,
  \<open>Reconcile\<close> returns no error after these two updates.
\<close>

theorem updates_retry_on_conflict_bounded:
  "(\<exists>issued. Log (snd (updateWithRetry c attempts phases actual s)) = Log s @ issued
      \<and> retriedUpdate attempts phases
           (fst (fst (updateWithRetry c attempts phases actual s))) issued)
   \<and> (Reconcile c hash fuel attempts chunker deploy s = Some (r, s')
      \<longrightarrow> (\<exists>calls. Log s' = Log s @ calls \<and> oneRetriedUpdate attempts calls
             \<and> length (filter isUpdate calls) \<le> attempts))
   \<and> (m (ObjectKeyFromObject actual) = Some cur
      \<and> ObjectKeyFromObject cur = ObjectKeyFromObject actual
      \<and> ResourceVersion actual \<noteq> ResourceVersion cur
      \<longrightarrow> updateWithRetry versionedClient (Suc (Suc n)) phases actual
            \<lparr>Log = l, Backing = m\<rparr>
          = ((None, cur\<lparr>TemplatePhases := phases\<rparr>),
             \<lparr>Log = l @ [(UpdateDeployment (actual\<lparr>TemplatePhases := phases\<rparr>),
                           Some NewConflict),
                          (GetDeployment (ObjectKeyFromObject actual), None),
                          (UpdateDeployment (cur\<lparr>TemplatePhases := phases\<rparr>), None)],
              Backing = m(ObjectKeyFromObject actual
                            \<mapsto> cur\<lparr>TemplatePhases := phases,
                                   ResourceVersion := nextVersion (ResourceVersion cur)\<rparr>)\<rparr>))
   \<and> updateWithRetry contendedClient (Suc n) phases actual \<lparr>Log = l, Backing = k\<rparr>
       = ((Some (Errorf ''updating ObjectDeployment: '' NewConflict []),
           actual\<lparr>TemplatePhases := phases\<rparr>),
          \<lparr>Log = l @ concat (replicate n
                   [(UpdateDeployment (actual\<lparr>TemplatePhases := phases\<rparr>), Some NewConflict),
                    (GetDeployment (ObjectKeyFromObject actual), None)])
                @ [(UpdateDeployment (actual\<lparr>TemplatePhases := phases\<rparr>), Some NewConflict)],
           Backing = k\<rparr>)
   \<and> (TemplatePhases deploy = [\<lparr>PhaseName = pn, Objects = [obj], Slices = []\<rparr>]
      \<and> Get_ObjectDeployment c (ObjectKeyFromObject deploy) newObjectDeployment (Backing s)
           = ((Some e, unread), w1)
      \<and> IsNotFound e
      \<and> Create_ObjectDeployment c (deploy\<lparr>TemplatePhases := []\<rparr>) w1 = (None, w2)
      \<and> Create_ObjectSlice c
           (namedSlice (hash 0) deploy (newObjectSlice\<lparr>SliceObjects := [obj]\<rparr>)) w2
         = (None, w3)
      \<and> Update_ObjectDeployment c
           (deploy\<lparr>TemplatePhases :=
              [\<lparr>PhaseName = pn, Objects = [],
                Slices = [NameFor (hash 0) (Name deploy) [obj]]\<rparr>]\<rparr>) w3 = (Some e1, w4)
      \<and> IsConflict e1
      \<and> Get_ObjectDeployment c (ObjectKeyFromObject deploy)
           (deploy\<lparr>TemplatePhases :=
              [\<lparr>PhaseName = pn, Objects = [],
                Slices = [NameFor (hash 0) (Name deploy) [obj]]\<rparr>]\<rparr>) w4
         = ((None, reread), w5)
      \<and> Update_ObjectDeployment c
           (reread\<lparr>TemplatePhases :=
              [\<lparr>PhaseName = pn, Objects = [],
                Slices = [NameFor (hash 0) (Name deploy) [obj]]\<rparr>]\<rparr>) w5 = (None, w6)
      \<and> List_ObjectSets c (Selector reread) w6 = (Inr objectSets, w7)
      \<and> List_ObjectSlices c (Name reread) w7 = (Inr stored, w8)
      \<longrightarrow> (\<exists>s''. Reconcile c hash (Suc fuel') (Suc (Suc n)) EachObjectChunker deploy s
                   = Some (None, s'')
             \<and> filter isUpdate (Log s'') = filter isUpdate (Log s)
                 @ [(UpdateDeployment
                       (deploy\<lparr>TemplatePhases :=
                          [\<lparr>PhaseName = pn, Objects = [],
                            Slices = [NameFor (hash 0) (Name deploy) [obj]]\<rparr>]\<rparr>), Some e1),
                    (UpdateDeployment
                       (reread\<lparr>TemplatePhases :=
                          [\<lparr>PhaseName = pn, Objects = [],
                            Slices = [NameFor (hash 0) (Name deploy) [obj]]\<rparr>]\<rparr>), None)]))"
proof (intro conjI impI)
  show "\<exists>issued. Log (snd (updateWithRetry c attempts phases actual s)) = Log s @ issued
      \<and> retriedUpdate attempts phases
           (fst (fst (updateWithRetry c attempts phases actual s))) issued"
    using updateWithRetry_retried [of c attempts phases actual s] by blast
next
  assume "Reconcile c hash fuel attempts chunker deploy s = Some (r, s')"
  then show "\<exists>calls. Log s' = Log s @ calls \<and> oneRetriedUpdate attempts calls
             \<and> length (filter isUpdate calls) \<le> attempts"
    by (rule Reconcile_calls)
next
  assume "m (ObjectKeyFromObject actual) = Some cur
      \<and> ObjectKeyFromObject cur = ObjectKeyFromObject actual
      \<and> ResourceVersion actual \<noteq> ResourceVersion cur"
  then show "updateWithRetry versionedClient (Suc (Suc n)) phases actual
            \<lparr>Log = l, Backing = m\<rparr>
          = ((None, cur\<lparr>TemplatePhases := phases\<rparr>),
             \<lparr>Log = l @ [(UpdateDeployment (actual\<lparr>TemplatePhases := phases\<rparr>),
                           Some NewConflict),
                          (GetDeployment (ObjectKeyFromObject actual), None),
                          (UpdateDeployment (cur\<lparr>TemplatePhases := phases\<rparr>), None)],
              Backing = m(ObjectKeyFromObject actual
                            \<mapsto> cur\<lparr>TemplatePhases := phases,
                                   ResourceVersion := nextVersion (ResourceVersion cur)\<rparr>)\<rparr>)"
    using updateWithRetry_versioned_stale
            [where w = m and actual = actual and cur = cur and n = n and phases = phases
               and l = l]
    by blast
next
  show "updateWithRetry contendedClient (Suc n) phases actual \<lparr>Log = l, Backing = k\<rparr>
       = ((Some (Errorf ''updating ObjectDeployment: '' NewConflict []),
           actual\<lparr>TemplatePhases := phases\<rparr>),
          \<lparr>Log = l @ concat (replicate n
                   [(UpdateDeployment (actual\<lparr>TemplatePhases := phases\<rparr>), Some NewConflict),
                    (GetDeployment (ObjectKeyFromObject actual), None)])
                @ [(UpdateDeployment (actual\<lparr>TemplatePhases := phases\<rparr>), Some NewConflict)],
           Backing = k\<rparr>)"
    by (rule updateWithRetry_contended)
next
  assume "TemplatePhases deploy = [\<lparr>PhaseName = pn, Objects = [obj], Slices = []\<rparr>]
      \<and> Get_ObjectDeployment c (ObjectKeyFromObject deploy) newObjectDeployment (Backing s)
           = ((Some e, unread), w1)
      \<and> IsNotFound e
      \<and> Create_ObjectDeployment c (deploy\<lparr>TemplatePhases := []\<rparr>) w1 = (None, w2)
      \<and> Create_ObjectSlice c
           (namedSlice (hash 0) deploy (newObjectSlice\<lparr>SliceObjects := [obj]\<rparr>)) w2
         = (None, w3)
      \<and> Update_ObjectDeployment c
           (deploy\<lparr>TemplatePhases :=
              [\<lparr>PhaseName = pn, Objects = [],
                Slices = [NameFor (hash 0) (Name deploy) [obj]]\<rparr>]\<rparr>) w3 = (Some e1, w4)
      \<and> IsConflict e1
      \<and> Get_ObjectDeployment c (ObjectKeyFromObject deploy)
           (deploy\<lparr>TemplatePhases :=
              [\<lparr>PhaseName = pn, Objects = [],
                Slices = [NameFor (hash 0) (Name deploy) [obj]]\<rparr>]\<rparr>) w4
         = ((None, reread), w5)
      \<and> Update_ObjectDeployment c
           (reread\<lparr>TemplatePhases :=
              [\<lparr>PhaseName = pn, Objects = [],
                Slices = [NameFor (hash 0) (Name deploy) [obj]]\<rparr>]\<rparr>) w5 = (None, w6)
      \<and> List_ObjectSets c (Selector reread) w6 = (Inr objectSets, w7)
      \<and> List_ObjectSlices c (Name reread) w7 = (Inr stored, w8)"
  then show "\<exists>s''. Reconcile c hash (Suc fuel') (Suc (Suc n)) EachObjectChunker deploy s
                   = Some (None, s'')
             \<and> filter isUpdate (Log s'') = filter isUpdate (Log s)
                 @ [(UpdateDeployment
                       (deploy\<lparr>TemplatePhases :=
                          [\<lparr>PhaseName = pn, Objects = [],
                            Slices = [NameFor (hash 0) (Name deploy) [obj]]\<rparr>]\<rparr>), Some e1),
                    (UpdateDeployment
                       (reread\<lparr>TemplatePhases :=
                          [\<lparr>PhaseName = pn, Objects = [],
                            Slices = [NameFor (hash 0) (Name deploy) [obj]]\<rparr>]\<rparr>), None)]"
    using Reconcile_conflict_once
            [where hash = hash and deploy = deploy and c = c and s = s
               and fuel = fuel' and n = n and pn = pn and obj = obj
               and e = e and unread = unread and ?w1.0 = w1 and ?w2.0 = w2 and ?w3.0 = w3
               and ?w4.0 = w4 and ?w5.0 = w5 and ?w6.0 = w6 and ?w7.0 = w7 and ?w8.0 = w8
               and ?e1.0 = e1 and reread = reread and objectSets = objectSets
               and stored = stored]
    by blast
qed

lemma Reconcile_on_test_mock:
  "Reconcile reconcileTestClient constantHash (Suc fuel) (Suc (Suc n)) EachObjectChunker
     testDeploy freshMock
   = Some (None,
      \<lparr>Log = [(GetDeployment (NamespacedName [] ''test-depl''), Some NewNotFound),
               (CreateDeployment (testDeploy\<lparr>TemplatePhases := []\<rparr>), None),
               (CreateSlice (newObjectSlice\<lparr>Name := ''test-depl-754bcb585'',
                                            SliceObjects := [JObject []]\<rparr>), None),
               (UpdateDeployment
                  (testDeploy\<lparr>TemplatePhases :=
                     [\<lparr>PhaseName = ''test'', Objects = [],
                       Slices = [''test-depl-754bcb585'']\<rparr>]\<rparr>), Some NewConflict),
               (GetDeployment (NamespacedName [] ''test-depl''), None),
               (UpdateDeployment
                  (testDeploy\<lparr>TemplatePhases :=
                     [\<lparr>PhaseName = ''test'', Objects = [],
                       Slices = [''test-depl-754bcb585'']\<rparr>]\<rparr>), None),
               (ListObjectSets [], None),
               (ListObjectSlices ''test-depl'', None)],
       Backing = \<lparr>getDeploymentCalls = 2, updateDeploymentCalls = 2, createSliceCalls = 0\<rparr>\<rparr>)"
proof -
  let ?w1 = "noCalls\<lparr>getDeploymentCalls := 1\<rparr>"
  let ?phases = "[\<lparr>PhaseName = ''test'', Objects = [],
                   Slices = [''test-depl-754bcb585'']\<rparr>]"
  let ?sliced = "testDeploy\<lparr>TemplatePhases := ?phases\<rparr>"
  let ?s3 = "\<lparr>Log = [(GetDeployment (NamespacedName [] ''test-depl''), Some NewNotFound),
               (CreateDeployment (testDeploy\<lparr>TemplatePhases := []\<rparr>), None),
               (CreateSlice (newObjectSlice\<lparr>Name := ''test-depl-754bcb585'',
                                            SliceObjects := [JObject []]\<rparr>), None)],
             Backing = ?w1\<rparr>"
  have key: "ObjectKeyFromObject testDeploy = NamespacedName [] ''test-depl''"
    by (simp add: ObjectKeyFromObject_def fixture_defs)
  have ph: "TemplatePhases testDeploy
              = [\<lparr>PhaseName = ''test'', Objects = [JObject []], Slices = []\<rparr>]"
    by (simp add: fixture_defs)
  have nf: "IsNotFound NewNotFound" by (simp add: IsNotFound_def NewNotFound_def)
  have g: "Get_ObjectDeployment reconcileTestClient (ObjectKeyFromObject testDeploy)
             newObjectDeployment (Backing freshMock) = ((Some NewNotFound, newObjectDeployment), ?w1)"
    by (simp add: reconcileTestClient_def unprogrammedClient_def freshMock_def noCalls_def)
  have cd: "Create_ObjectDeployment reconcileTestClient (testDeploy\<lparr>TemplatePhases := []\<rparr>) ?w1
              = (None, ?w1)"
    by (simp add: reconcileTestClient_def unprogrammedClient_def)
  have cs: "Create_ObjectSlice reconcileTestClient
              (namedSlice (constantHash 0) testDeploy (newObjectSlice\<lparr>SliceObjects := [JObject []]\<rparr>))
              ?w1 = (None, ?w1)"
    by (simp add: reconcileTestClient_def unprogrammedClient_def)
  have sc: "Reconcile reconcileTestClient constantHash (Suc fuel) (Suc (Suc n)) EachObjectChunker
              testDeploy freshMock
            = (case updateWithRetry reconcileTestClient (Suc (Suc n)) ?phases
                      (testDeploy\<lparr>TemplatePhases := []\<rparr>) ?s3 of
                 ((Some e, updated), s4) \<Rightarrow> Some (Some (storeError e), s4)
               | ((None, updated), s4) \<Rightarrow>
                   Some (sliceGarbageCollection reconcileTestClient updated s4))"
    using Reconcile_scenario
            [where hash = constantHash and deploy = testDeploy and c = reconcileTestClient
               and s = freshMock and fuel = fuel and attempts = "Suc (Suc n)"
               and pn = "''test''" and obj = "JObject []" and e = NewNotFound
               and unread = newObjectDeployment and ?w1.0 = ?w1 and ?w2.0 = ?w1
               and ?w3.0 = ?w1, OF ph g nf cd cs]
    unfolding key namedSlice_test NameFor_test
    by (simp add: freshMock_def)
  have u: "updateWithRetry reconcileTestClient (Suc (Suc n)) ?phases
             (testDeploy\<lparr>TemplatePhases := []\<rparr>) ?s3
           = ((None, ?sliced),
              \<lparr>Log = Log ?s3 @ [(UpdateDeployment ?sliced, Some NewConflict),
                                 (GetDeployment (NamespacedName [] ''test-depl''), None),
                                 (UpdateDeployment ?sliced, None)],
               Backing = \<lparr>getDeploymentCalls = 2, updateDeploymentCalls = 2,
                          createSliceCalls = 0\<rparr>\<rparr>)"
    by (simp add: fixture_defs Let_def doCall_def doGet_def recorded_def
          reconcileTestClient_def unprogrammedClient_def IsConflict_def NewConflict_def
          ObjectKeyFromObject_def)
  have gc: "\<And>l w. sliceGarbageCollection reconcileTestClient ?sliced \<lparr>Log = l, Backing = w\<rparr>
            = (None, \<lparr>Log = l @ [(ListObjectSets [], None),
                                  (ListObjectSlices ''test-depl'', None)],
                      Backing = w\<rparr>)"
    by (simp add: sliceGarbageCollection_def doList_def recorded_def errorOf_def
          reconcileTestClient_def unprogrammedClient_def fixture_defs)
  show ?thesis
    unfolding sc u by (simp add: gc)
qed

theorem updates_retry_on_conflict_bounded_witness:
  "Reconcile reconcileTestClient constantHash 1 2 EachObjectChunker testDeploy freshMock
   = Some (None,
      \<lparr>Log = [(GetDeployment (NamespacedName [] ''test-depl''), Some NewNotFound),
               (CreateDeployment (testDeploy\<lparr>TemplatePhases := []\<rparr>), None),
               (CreateSlice (newObjectSlice\<lparr>Name := ''test-depl-754bcb585'',
                                            SliceObjects := [JObject []]\<rparr>), None),
               (UpdateDeployment
                  (testDeploy\<lparr>TemplatePhases :=
                     [\<lparr>PhaseName = ''test'', Objects = [],
                       Slices = [''test-depl-754bcb585'']\<rparr>]\<rparr>), Some NewConflict),
               (GetDeployment (NamespacedName [] ''test-depl''), None),
               (UpdateDeployment
                  (testDeploy\<lparr>TemplatePhases :=
                     [\<lparr>PhaseName = ''test'', Objects = [],
                       Slices = [''test-depl-754bcb585'']\<rparr>]\<rparr>), None),
               (ListObjectSets [], None),
               (ListObjectSlices ''test-depl'', None)],
       Backing = \<lparr>getDeploymentCalls = 2, updateDeploymentCalls = 2, createSliceCalls = 0\<rparr>\<rparr>)
   \<and> oneRetriedUpdate 2
       [(GetDeployment (NamespacedName [] ''test-depl''), Some NewNotFound),
        (CreateDeployment (testDeploy\<lparr>TemplatePhases := []\<rparr>), None),
        (CreateSlice (newObjectSlice\<lparr>Name := ''test-depl-754bcb585'',
                                     SliceObjects := [JObject []]\<rparr>), None),
        (UpdateDeployment
           (testDeploy\<lparr>TemplatePhases :=
              [\<lparr>PhaseName = ''test'', Objects = [],
                Slices = [''test-depl-754bcb585'']\<rparr>]\<rparr>), Some NewConflict),
        (GetDeployment (NamespacedName [] ''test-depl''), None),
        (UpdateDeployment
           (testDeploy\<lparr>TemplatePhases :=
              [\<lparr>PhaseName = ''test'', Objects = [],
                Slices = [''test-depl-754bcb585'']\<rparr>]\<rparr>), None),
        (ListObjectSets [], None),
        (ListObjectSlices ''test-depl'', None)]
   \<and> updateWithRetry versionedClient 2 [] staleDeploy
        \<lparr>Log = [], Backing = [NamespacedName [] ''test-depl'' \<mapsto> storedDeploy]\<rparr>
      = ((None, storedDeploy\<lparr>TemplatePhases := []\<rparr>),
         \<lparr>Log = [(UpdateDeployment (staleDeploy\<lparr>TemplatePhases := []\<rparr>), Some NewConflict),
                  (GetDeployment (NamespacedName [] ''test-depl''), None),
                  (UpdateDeployment (storedDeploy\<lparr>TemplatePhases := []\<rparr>), None)],
          Backing = [NamespacedName [] ''test-depl''
                       \<mapsto> storedDeploy\<lparr>TemplatePhases := [], ResourceVersion := ''7+''\<rparr>]\<rparr>)
   \<and> retriedUpdate 3 [] (Some (Errorf ''updating ObjectDeployment: '' NewConflict []))
        [(UpdateDeployment (testDeploy\<lparr>TemplatePhases := []\<rparr>), Some NewConflict),
         (GetDeployment (NamespacedName [] ''test-depl''), None),
         (UpdateDeployment (testDeploy\<lparr>TemplatePhases := []\<rparr>), Some NewConflict),
         (GetDeployment (NamespacedName [] ''test-depl''), None),
         (UpdateDeployment (testDeploy\<lparr>TemplatePhases := []\<rparr>), Some NewConflict)]"
proof -
  have one: "(1::nat) = Suc 0" and two: "(2::nat) = Suc (Suc 0)"
    and three: "(3::nat) = Suc (Suc (Suc 0))" by simp_all
  have key: "ObjectKeyFromObject testDeploy = NamespacedName [] ''test-depl''"
    "ObjectKeyFromObject staleDeploy = NamespacedName [] ''test-depl''"
    "ObjectKeyFromObject storedDeploy = NamespacedName [] ''test-depl''"
    by (simp_all add: ObjectKeyFromObject_def fixture_defs staleDeploy_def storedDeploy_def)
  let ?log = "[(GetDeployment (NamespacedName [] ''test-depl''), Some NewNotFound),
        (CreateDeployment (testDeploy\<lparr>TemplatePhases := []\<rparr>), None),
        (CreateSlice (newObjectSlice\<lparr>Name := ''test-depl-754bcb585'',
                                     SliceObjects := [JObject []]\<rparr>), None),
        (UpdateDeployment
           (testDeploy\<lparr>TemplatePhases :=
              [\<lparr>PhaseName = ''test'', Objects = [],
                Slices = [''test-depl-754bcb585'']\<rparr>]\<rparr>), Some NewConflict),
        (GetDeployment (NamespacedName [] ''test-depl''), None),
        (UpdateDeployment
           (testDeploy\<lparr>TemplatePhases :=
              [\<lparr>PhaseName = ''test'', Objects = [],
                Slices = [''test-depl-754bcb585'']\<rparr>]\<rparr>), None),
        (ListObjectSets [], None),
        (ListObjectSlices ''test-depl'', None)]"
  let ?end = "\<lparr>Log = ?log,
       Backing = \<lparr>getDeploymentCalls = 2, updateDeploymentCalls = 2, createSliceCalls = 0\<rparr>\<rparr>"
  have run: "Reconcile reconcileTestClient constantHash 1 2 EachObjectChunker testDeploy freshMock
               = Some (None, ?end)"
    using Reconcile_on_test_mock [of 0 0] by (simp add: numeral_2_eq_2)
  have a: "oneRetriedUpdate 2 ?log"
    using updates_retry_on_conflict_bounded
            [where c = reconcileTestClient and hash = constantHash and fuel = 1
               and attempts = 2 and chunker = EachObjectChunker and deploy = testDeploy
               and s = freshMock and r = None and s' = ?end,
             THEN conjunct2, THEN conjunct1] run
    by (simp add: freshMock_def)
  have b: "updateWithRetry versionedClient 2 [] staleDeploy
        \<lparr>Log = [], Backing = [NamespacedName [] ''test-depl'' \<mapsto> storedDeploy]\<rparr>
      = ((None, storedDeploy\<lparr>TemplatePhases := []\<rparr>),
         \<lparr>Log = [(UpdateDeployment (staleDeploy\<lparr>TemplatePhases := []\<rparr>), Some NewConflict),
                  (GetDeployment (NamespacedName [] ''test-depl''), None),
                  (UpdateDeployment (storedDeploy\<lparr>TemplatePhases := []\<rparr>), None)],
          Backing = [NamespacedName [] ''test-depl''
                       \<mapsto> storedDeploy\<lparr>TemplatePhases := [], ResourceVersion := ''7+''\<rparr>]\<rparr>)"
    using updates_retry_on_conflict_bounded
            [where m = "[NamespacedName [] ''test-depl'' \<mapsto> storedDeploy]"
               and actual = staleDeploy and cur = storedDeploy and n = 0 and phases = "[]"
               and l = "[]",
             THEN conjunct2, THEN conjunct2, THEN conjunct1]
    unfolding two key
    by (simp add: staleDeploy_def storedDeploy_def nextVersion_def)
  have c: "retriedUpdate 3 [] (Some (Errorf ''updating ObjectDeployment: '' NewConflict []))
        [(UpdateDeployment (testDeploy\<lparr>TemplatePhases := []\<rparr>), Some NewConflict),
         (GetDeployment (NamespacedName [] ''test-depl''), None),
         (UpdateDeployment (testDeploy\<lparr>TemplatePhases := []\<rparr>), Some NewConflict),
         (GetDeployment (NamespacedName [] ''test-depl''), None),
         (UpdateDeployment (testDeploy\<lparr>TemplatePhases := []\<rparr>), Some NewConflict)]"
    using updates_retry_on_conflict_bounded
            [where c = contendedClient and attempts = 3 and phases = "[]"
               and actual = testDeploy and s = freshMock, THEN conjunct1]
    unfolding three updateWithRetry_contended [of "Suc (Suc 0)" "[]" testDeploy "[]" noCalls,
                folded freshMock_def]
    by (simp add: key freshMock_def)
  show ?thesis using run a b c by (intro conjI)
qed

end
